(* ===== verification/Exo_Prelude.thy ===== *)
theory Exo_Prelude
  imports Complex_Main
begin

text \<open>
  Shared vocabulary of the development: the collections of facts the component
  theories feed to the simplifier, the Python exception classes the two source
  files raise or catch (with the subclass test that an \<^verbatim>\<open>except\<close> clause
  performs, which makes the classes an instance of the library's orders),
  results of fallible calls as sums, log entries, the ASCII part of
  \<^verbatim>\<open>str.lower\<close>, and a few facts on lists and means that several
  components use. Floating point numbers are modelled as \<^typ>\<open>real\<close>: rounding
  of IEEE doubles is not modelled.
\<close>

section \<open>Fact collections\<close>

named_theorems exo_defs "definitions of the model that witnesses unfold"
named_theorems exn_simps "evaluation of the exception class tests"

section \<open>Exception classes\<close>

text \<open>
  The classes that occur in \<^verbatim>\<open>availability.py\<close> and \<^verbatim>\<open>profile.py\<close>,
  either raised, caught, or raised by a collaborator and deliberately not caught.
  \<^verbatim>\<open>MlxUnavailableError\<close> is declared by the source as a subclass of
  \<^verbatim>\<open>RuntimeError\<close>; the others are Python's own, \<^verbatim>\<open>psutil.Error\<close> and the
  telemetry collaborator's \<^verbatim>\<open>MacMonError\<close>. Two choices limit what the
  theorems say. The list is closed: an exception of a class that is not listed
  (a subclass that psutil or macmon defines, say) is represented by its nearest
  listed base class, which is what every \<^verbatim>\<open>except\<close> clause of the two files
  sees of it. And \<^verbatim>\<open>asyncio.TimeoutError\<close>, which the node loop catches, is
  one class with the builtin \<^verbatim>\<open>TimeoutError\<close>, as it is from Python 3.11 on;
  in earlier versions it is a separate subclass of \<^verbatim>\<open>Exception\<close>, and the
  builtin one would reach the handler for \<^verbatim>\<open>Exception\<close> instead.
\<close>

datatype exn_class =
    BaseException
  | Exception
  | CancelledError
  | RuntimeError
  | NotImplementedError
  | MlxUnavailableError
  | ImportError
  | ModuleNotFoundError
  | AttributeError
  | ValueError
  | OSError
  | TimeoutError
  | PsutilError
  | MacMonError

fun base_class :: "exn_class \<Rightarrow> exn_class option" where
  "base_class BaseException = None"
| "base_class Exception = Some BaseException"
| "base_class CancelledError = Some BaseException"
| "base_class RuntimeError = Some Exception"
| "base_class NotImplementedError = Some RuntimeError"
| "base_class MlxUnavailableError = Some RuntimeError"
| "base_class ImportError = Some Exception"
| "base_class ModuleNotFoundError = Some ImportError"
| "base_class AttributeError = Some Exception"
| "base_class ValueError = Some Exception"
| "base_class OSError = Some Exception"
| "base_class TimeoutError = Some OSError"
| "base_class PsutilError = Some Exception"
| "base_class MacMonError = Some Exception"

fun class_depth :: "exn_class \<Rightarrow> nat" where
  "class_depth BaseException = 0"
| "class_depth Exception = 1"
| "class_depth CancelledError = 1"
| "class_depth RuntimeError = 2"
| "class_depth NotImplementedError = 3"
| "class_depth MlxUnavailableError = 3"
| "class_depth ImportError = 2"
| "class_depth ModuleNotFoundError = 3"
| "class_depth AttributeError = 2"
| "class_depth ValueError = 2"
| "class_depth OSError = 2"
| "class_depth TimeoutError = 3"
| "class_depth PsutilError = 2"
| "class_depth MacMonError = 2"

lemma base_class_depth: "base_class c = Some b \<Longrightarrow> class_depth b < class_depth c"
  by (cases c) auto

text \<open>
  \<^verbatim>\<open>issubclass(c, d)\<close>: walk up the base classes of \<open>c\<close> until \<open>d\<close> is met.
  The recursion is on the base class, not on the structure of \<open>c\<close>; it ends
  because the depth in the hierarchy decreases.
\<close>

function issubclass :: "exn_class \<Rightarrow> exn_class \<Rightarrow> bool" where
  "issubclass c d =
     (if c = d then True
      else case base_class c of None \<Rightarrow> False | Some b \<Rightarrow> issubclass b d)"
  by pat_completeness auto
termination
  by (relation "measure (\<lambda>(c, d). class_depth c)") (auto simp: base_class_depth)

declare issubclass.simps [simp del]

text \<open>An exception object: its class, its message and its \<^verbatim>\<open>__cause__\<close>.\<close>

datatype exn = Exn (exn_cls: exn_class) (exn_msg: string) (exn_cause: "exn option")

definition isinstance :: "exn \<Rightarrow> exn_class \<Rightarrow> bool" where
  "isinstance e c = issubclass (exn_cls e) c"

text \<open>A fallible call returns \<open>Inl\<close> of the exception it raised or \<open>Inr\<close> of its value.\<close>

type_synonym 'a result = "exn + 'a"

text \<open>Sequencing of fallible calls: the first exception raised ends the sequence.\<close>

definition bind_result :: "'a result \<Rightarrow> ('a \<Rightarrow> 'b result) \<Rightarrow> 'b result" where
  "bind_result r f = (case r of Inl e \<Rightarrow> Inl e | Inr x \<Rightarrow> f x)"

lemma bind_result_Inl [simp]: "bind_result (Inl e) f = Inl e"
  by (simp add: bind_result_def)

lemma bind_result_Inr [simp]: "bind_result (Inr x) f = f x"
  by (simp add: bind_result_def)

lemma bind_result_eq_Inr:
  "bind_result r f = Inr y \<longleftrightarrow> (\<exists>x. r = Inr x \<and> f x = Inr y)"
  by (cases r) auto

lemma bind_result_eq_Inl:
  "bind_result r f = Inl e \<longleftrightarrow> r = Inl e \<or> (\<exists>x. r = Inr x \<and> f x = Inl e)"
  by (cases r) auto

lemma bind_result_assoc:
  "bind_result (bind_result r f) g = bind_result r (\<lambda>x. bind_result (f x) g)"
  by (cases r) auto

subsection \<open>Facts on the class test\<close>

lemma issubclass_refl [simp, exn_simps]: "issubclass c c"
  by (simp add: issubclass.simps)

lemma issubclass_base [exn_simps]:
  "c \<noteq> d \<Longrightarrow> issubclass c d = (case base_class c of None \<Rightarrow> False | Some b \<Rightarrow> issubclass b d)"
  by (simp add: issubclass.simps)

lemma issubclass_BaseException [simp]: "issubclass c BaseException"
  by (cases c) (simp_all add: issubclass_base)

lemma issubclass_depth: "issubclass c d \<Longrightarrow> class_depth d \<le> class_depth c"
proof (induction c d rule: issubclass.induct)
  case (1 c d)
  show ?case
  proof (cases "c = d")
    case True
    then show ?thesis by simp
  next
    case False
    with "1.prems" obtain b where b: "base_class c = Some b" and sub: "issubclass b d"
      by (auto simp: issubclass_base split: option.splits)
    from "1.IH" [OF False b sub] base_class_depth [OF b] show ?thesis by simp
  qed
qed

lemma issubclass_trans: "issubclass a b \<Longrightarrow> issubclass b c \<Longrightarrow> issubclass a c"
proof (induction a b rule: issubclass.induct)
  case (1 a b)
  show ?case
  proof (cases "a = b")
    case True
    with "1.prems" show ?thesis by simp
  next
    case False
    with "1.prems" obtain p where p: "base_class a = Some p" and sub: "issubclass p b"
      by (auto simp: issubclass_base split: option.splits)
    from "1.IH" [OF False p sub "1.prems"(2)] have pc: "issubclass p c" .
    show ?thesis
    proof (cases "a = c")
      case True
      then show ?thesis by simp
    next
      case False
      with p pc show ?thesis by (simp add: issubclass_base)
    qed
  qed
qed

lemma issubclass_antisym: "issubclass a b \<Longrightarrow> issubclass b a \<Longrightarrow> a = b"
proof (rule ccontr)
  assume ab: "issubclass a b" and ba: "issubclass b a" and ne: "a \<noteq> b"
  from ab ne obtain p where p: "base_class a = Some p" and pb: "issubclass p b"
    by (auto simp: issubclass_base split: option.splits)
  from issubclass_depth [OF pb] issubclass_depth [OF ba] base_class_depth [OF p]
  show False by simp
qed

text \<open>
  The class tests the two source files perform, decided once for every class.
  \<^verbatim>\<open>except ImportError\<close> also catches \<^verbatim>\<open>ModuleNotFoundError\<close>; the clauses
  for \<^verbatim>\<open>MlxUnavailableError\<close>, \<^verbatim>\<open>MacMonError\<close> and \<^verbatim>\<open>TimeoutError\<close> catch
  exactly their own class, none of the listed classes being derived from them.
\<close>

lemma issubclass_ImportError [exn_simps]:
  "issubclass c ImportError \<longleftrightarrow> c = ImportError \<or> c = ModuleNotFoundError"
  by (cases c) (simp_all add: issubclass_base)

lemma issubclass_MlxUnavailableError [exn_simps]:
  "issubclass c MlxUnavailableError \<longleftrightarrow> c = MlxUnavailableError"
  by (cases c) (simp_all add: issubclass_base)

lemma issubclass_MacMonError [exn_simps]:
  "issubclass c MacMonError \<longleftrightarrow> c = MacMonError"
  by (cases c) (simp_all add: issubclass_base)

lemma issubclass_TimeoutError [exn_simps]:
  "issubclass c TimeoutError \<longleftrightarrow> c = TimeoutError"
  by (cases c) (simp_all add: issubclass_base)

lemma issubclass_NotImplementedError [exn_simps]:
  "issubclass c NotImplementedError \<longleftrightarrow> c = NotImplementedError"
  by (cases c) (simp_all add: issubclass_base)

lemma issubclass_PsutilError [exn_simps]:
  "issubclass c PsutilError \<longleftrightarrow> c = PsutilError"
  by (cases c) (simp_all add: issubclass_base)

lemma isinstance_Exn [simp, exn_simps]: "isinstance (Exn c m ca) d = issubclass c d"
  by (simp add: isinstance_def)

section \<open>The classes as an order\<close>

text \<open>
  Subclassing is a partial order with \<^verbatim>\<open>BaseException\<close> on top, so the library's
  facts on orders apply to the classes: \<open>c \<le> d\<close> reads "\<open>c\<close> is \<open>d\<close> or derives
  from it".
\<close>

instantiation exn_class :: order_top
begin

definition less_eq_exn_class :: "exn_class \<Rightarrow> exn_class \<Rightarrow> bool" where
  "c \<le> d \<longleftrightarrow> issubclass c d"

definition less_exn_class :: "exn_class \<Rightarrow> exn_class \<Rightarrow> bool" where
  "c < d \<longleftrightarrow> issubclass c d \<and> \<not> issubclass d c"

definition top_exn_class :: exn_class where
  "top = BaseException"

instance
proof
  fix a b c :: exn_class
  show "a < b \<longleftrightarrow> a \<le> b \<and> \<not> b \<le> a"
    by (simp add: less_exn_class_def less_eq_exn_class_def)
  show "a \<le> a" by (simp add: less_eq_exn_class_def)
  show "a \<le> b \<Longrightarrow> b \<le> c \<Longrightarrow> a \<le> c"
    unfolding less_eq_exn_class_def by (rule issubclass_trans)
  show "a \<le> b \<Longrightarrow> b \<le> a \<Longrightarrow> a = b"
    unfolding less_eq_exn_class_def by (rule issubclass_antisym)
  show "a \<le> top" by (simp add: less_eq_exn_class_def top_exn_class_def)
qed

end

lemma isinstance_le: "isinstance e c \<longleftrightarrow> exn_cls e \<le> c"
  by (simp add: isinstance_def less_eq_exn_class_def)

lemma isinstance_mono: "isinstance e c \<Longrightarrow> c \<le> d \<Longrightarrow> isinstance e d"
  unfolding isinstance_le by (rule order_trans)

section \<open>Log entries\<close>

text \<open>
  What \<^verbatim>\<open>loguru\<close>'s logger is asked to record: a level, a message, and the
  exception attached with \<^verbatim>\<open>opt(exception=e)\<close>, if any.
\<close>

datatype log_level = WARNING | ERROR

datatype log_entry = Log (log_lvl: log_level) (log_msg: string) (log_exc: "exn option")

section \<open>Strings\<close>

text \<open>
  \<^verbatim>\<open>str.lower()\<close> on the ASCII range: a capital letter has bit 5 clear, and
  setting it adds 32. Bytes outside \<open>A\<close>..\<open>Z\<close> are left alone (the platform
  names \<^verbatim>\<open>platform.system()\<close> returns are ASCII).
\<close>

definition is_ascii_upper :: "char \<Rightarrow> bool" where
  "is_ascii_upper c \<longleftrightarrow> 65 \<le> (of_char c :: nat) \<and> (of_char c :: nat) \<le> 90"

fun lower_char :: "char \<Rightarrow> char" where
  "lower_char (Char b0 b1 b2 b3 b4 b5 b6 b7) =
     (if is_ascii_upper (Char b0 b1 b2 b3 b4 b5 b6 b7) then Char b0 b1 b2 b3 b4 True b6 b7
      else Char b0 b1 b2 b3 b4 b5 b6 b7)"

definition lower :: "string \<Rightarrow> string" where
  "lower s = map lower_char s"

text \<open>The apostrophe, which a string literal cannot hold.\<close>

abbreviation apostrophe :: char where
  "apostrophe \<equiv> CHR 0x27"

lemma lower_char_not_upper: "\<not> is_ascii_upper (lower_char c)"
  by (cases c) (auto simp: is_ascii_upper_def)

lemma lower_char_idem [simp]: "lower_char (lower_char c) = lower_char c"
  by (cases c) (auto simp: is_ascii_upper_def)

lemma lower_idem [simp]: "lower (lower s) = lower s"
  by (simp add: lower_def)

lemma lower_Nil: "lower [] = []"
  by (simp add: lower_def)

lemma lower_Cons: "lower (c # s) = lower_char c # lower s"
  by (simp add: lower_def)

text \<open>What evaluates \<^const>\<open>lower\<close> on a literal.\<close>

lemmas lower_eval = lower_Nil lower_Cons is_ascii_upper_def

lemma length_lower [simp]: "length (lower s) = length s"
  by (simp add: lower_def)

lemma lower_append [simp]: "lower (s @ t) = lower s @ lower t"
  by (simp add: lower_def)

section \<open>The host platform\<close>

text \<open>
  What \<^verbatim>\<open>platform.system()\<close> answers. Both source files branch on it; their
  environments extend this record.
\<close>

record host =
  platform_system :: string

section \<open>Lists and means\<close>

lemma sum_list_ge_length_mult:
  fixes xs :: "real list"
  shows "\<forall>x \<in> set xs. lo \<le> x \<Longrightarrow> real (length xs) * lo \<le> sum_list xs"
  by (induction xs) (auto simp: algebra_simps intro: add_mono)

lemma sum_list_le_length_mult:
  fixes xs :: "real list"
  shows "\<forall>x \<in> set xs. x \<le> hi \<Longrightarrow> sum_list xs \<le> real (length xs) * hi"
  by (induction xs) (auto simp: algebra_simps intro: add_mono)

lemma sum_list_replicate_real [simp]:
  "sum_list (replicate n (v :: real)) = real n * v"
  by (induction n) (auto simp: algebra_simps)

lemma map_filter_append [simp]:
  "List.map_filter f (xs @ ys) = List.map_filter f xs @ List.map_filter f ys"
  by (simp add: List.map_filter_def)

lemma map_filter_Nil [simp]: "List.map_filter f [] = []"
  by (simp add: List.map_filter_def)

lemma map_filter_Cons [simp]:
  "List.map_filter f (x # xs) =
     (case f x of None \<Rightarrow> List.map_filter f xs | Some y \<Rightarrow> y # List.map_filter f xs)"
  by (simp add: List.map_filter_def split: option.splits)

lemma map_filter_Some [simp]: "List.map_filter Some xs = xs"
  by (induction xs) auto

lemma length_map_filter_update:
  "i < length xs \<Longrightarrow>
   length (List.map_filter f (xs[i := x])) + (if f (xs ! i) = None then 0 else 1) =
   length (List.map_filter f xs) + (if f x = None then 0 else 1)"
proof (induction xs arbitrary: i)
  case Nil
  then show ?case by simp
next
  case (Cons a xs)
  show ?case
  proof (cases i)
    case 0
    then show ?thesis by (simp split: option.splits)
  next
    case (Suc j)
    with Cons.prems Cons.IH [of j] show ?thesis by (auto split: option.splits if_splits)
  qed
qed

lemma list_all_update: "list_all P xs \<Longrightarrow> P x \<Longrightarrow> list_all P (xs[i := x])"
  by (induction xs arbitrary: i) (auto split: nat.splits)

lemma list_all_map_filter:
  "list_all (\<lambda>x. case f x of None \<Rightarrow> True | Some y \<Rightarrow> Q y) xs \<Longrightarrow> list_all Q (List.map_filter f xs)"
  by (induction xs) (auto split: option.splits)

lemma length_map_filter_le: "length (List.map_filter f xs) \<le> length xs"
  by (induction xs) (auto split: option.splits)

section \<open>Whole periods in a span of time\<close>

lemma floor_div_less: "0 \<le> T \<Longrightarrow> T < i \<Longrightarrow> \<lfloor>T / i\<rfloor> = (0 :: int)" for T i :: real
  by (simp add: floor_eq_iff)

lemma floor_div_step:
  "0 < i \<Longrightarrow> i \<le> T \<Longrightarrow> Suc (nat \<lfloor>(T - i) / i\<rfloor>) = nat \<lfloor>T / i\<rfloor>" for T i :: real
proof -
  assume i: "0 < i" and T: "i \<le> T"
  then have "(T - i) / i = T / i - 1" by (simp add: diff_divide_distrib)
  then have "\<lfloor>(T - i) / i\<rfloor> = \<lfloor>T / i\<rfloor> - 1" by simp
  moreover from i T have "1 \<le> \<lfloor>T / i\<rfloor>" by (simp add: le_floor_iff)
  ultimately show ?thesis by linarith
qed

end
