(* ===== verification/Availability.thy ===== *)
theory Availability
  imports Exo_Prelude
begin

text \<open>
  The capability backend loader, \<^verbatim>\<open>src/exo/worker/engines/mlx/availability.py\<close>.
  \<^verbatim>\<open>_build_backend\<close> resolves the MLX entry points by name and
  \<^verbatim>\<open>load_mlx_backend\<close> memoises its first success in a function attribute.
  The host is an explicit environment (what \<^verbatim>\<open>platform.system()\<close> answers and
  what \<^verbatim>\<open>importlib.import_module\<close> does for a module name); the process state
  is a record holding the cache, the log and the identity of the next object that
  will be allocated, so that "the same handle" means the same object and not only
  an equal one. The type variable \<open>'f\<close> stands for the entry points, which the
  loader only passes on.
\<close>

section \<open>The host and the process state\<close>

text \<open>An imported module, seen through attribute access.\<close>

type_synonym 'f py_module = "string \<Rightarrow> 'f option"

record 'f import_env = host +
  import_module :: "string \<Rightarrow> 'f py_module result"

text \<open>The \<^verbatim>\<open>SimpleNamespace\<close> the builder returns, with its identity.\<close>

record 'f backend =
  obj_id :: nat
  initialize_mlx :: 'f
  mlx_force_oom :: 'f
  mlx_generate :: 'f
  warmup_inference :: 'f

record 'f loader_state =
  cached :: "'f backend option"
  logged :: "log_entry list"
  next_id :: nat

definition init_loader :: "'f loader_state" where
  "init_loader = \<lparr>cached = None, logged = [], next_id = 0\<rparr>"

section \<open>Operations\<close>

text \<open>Attribute access on a module raises \<^verbatim>\<open>AttributeError\<close> for a missing name.\<close>

definition getattr :: "'f py_module \<Rightarrow> string \<Rightarrow> 'f result" where
  "getattr m name = (case m name of None \<Rightarrow> Inl (Exn AttributeError name None) | Some f \<Rightarrow> Inr f)"

definition generate_module :: string where
  "generate_module = ''exo.worker.engines.mlx.generator.generate''"

definition utils_mlx_module :: string where
  "utils_mlx_module = ''exo.worker.engines.mlx.utils_mlx''"

definition unsupported_msg :: "string \<Rightarrow> string" where
  "unsupported_msg system =
     ''MLX backend requires macOS; current platform is '' @ [apostrophe] @ system @ [apostrophe] @ ''.''"

definition missing_msg :: string where
  "missing_msg = ''MLX dependencies are missing. Install MLX on macOS to run inference.''"

definition unavailable_warning :: log_entry where
  "unavailable_warning = Log WARNING ''MLX backend unavailable on this platform.'' None"

text \<open>The two imports of the \<^verbatim>\<open>try\<close> block, in the order the code performs them.\<close>

definition import_helpers :: "'f import_env \<Rightarrow> ('f py_module \<times> 'f py_module) result" where
  "import_helpers env =
     bind_result (import_module env generate_module) (\<lambda>generate.
     bind_result (import_module env utils_mlx_module) (\<lambda>utils_mlx.
     Inr (generate, utils_mlx)))"

text \<open>
  The construction of the namespace: four attribute reads, left to right, then the
  allocation of the object under the identity \<open>oid\<close>.
\<close>

definition make_namespace :: "nat \<Rightarrow> 'f py_module \<Rightarrow> 'f py_module \<Rightarrow> 'f backend result" where
  "make_namespace oid generate utils_mlx =
     bind_result (getattr utils_mlx ''initialize_mlx'') (\<lambda>f1.
     bind_result (getattr utils_mlx ''mlx_force_oom'') (\<lambda>f2.
     bind_result (getattr generate ''mlx_generate'') (\<lambda>f3.
     bind_result (getattr generate ''warmup_inference'') (\<lambda>f4.
     Inr \<lparr>obj_id = oid, initialize_mlx = f1, mlx_force_oom = f2,
          mlx_generate = f3, warmup_inference = f4\<rparr>))))"

text \<open>The attribute reads of that construction, as (module, name), in the order of the code.\<close>

definition entry_points :: "'f py_module \<Rightarrow> 'f py_module \<Rightarrow> ('f py_module \<times> string) list" where
  "entry_points generate utils_mlx =
     [(utils_mlx, ''initialize_mlx''), (utils_mlx, ''mlx_force_oom''),
      (generate, ''mlx_generate''), (generate, ''warmup_inference'')]"

text \<open>
  \<^verbatim>\<open>_build_backend\<close>: the platform test on the lower-cased name, the imports
  with \<^verbatim>\<open>ImportError\<close> (and its subclasses) turned into
  \<^verbatim>\<open>MlxUnavailableError\<close> chained to the cause, every other exception of the
  imports passed on unchanged, then the namespace.
\<close>

definition build_backend :: "'f import_env \<Rightarrow> nat \<Rightarrow> 'f backend result" where
  "build_backend env oid =
     (let system = lower (platform_system env) in
      if system \<noteq> ''darwin''
      then Inl (Exn MlxUnavailableError (unsupported_msg (platform_system env)) None)
      else case import_helpers env of
             Inl exc \<Rightarrow>
               if isinstance exc ImportError
               then Inl (Exn MlxUnavailableError missing_msg (Some exc))
               else Inl exc
           | Inr (generate, utils_mlx) \<Rightarrow> make_namespace oid generate utils_mlx)"

text \<open>
  \<^verbatim>\<open>load_mlx_backend\<close>: with the attribute \<^verbatim>\<open>_cached\<close> set, return it and
  touch nothing; otherwise build, store the result on success, and on
  \<^verbatim>\<open>MlxUnavailableError\<close> log one warning and raise it again. Any other
  exception leaves without a log entry.
\<close>

definition load_mlx_backend ::
  "'f import_env \<Rightarrow> 'f loader_state \<Rightarrow> 'f backend result \<times> 'f loader_state" where
  "load_mlx_backend env st =
     (case cached st of
        Some b \<Rightarrow> (Inr b, st)
      | None \<Rightarrow>
          (case build_backend env (next_id st) of
             Inl e \<Rightarrow>
               if isinstance e MlxUnavailableError
               then (Inl e, st\<lparr>logged := logged st @ [unavailable_warning]\<rparr>)
               else (Inl e, st)
           | Inr b \<Rightarrow> (Inr b, st\<lparr>cached := Some b, next_id := Suc (next_id st)\<rparr>)))"

text \<open>
  A process calls the loader again and again while the host may change between
  calls: one environment per call, the results in order and the final state.
\<close>

fun run_loads ::
  "'f import_env list \<Rightarrow> 'f loader_state \<Rightarrow> 'f backend result list \<times> 'f loader_state" where
  "run_loads [] st = ([], st)"
| "run_loads (env # envs) st =
     (case load_mlx_backend env st of
        (r, st') \<Rightarrow> (case run_loads envs st' of (rs, st'') \<Rightarrow> (r # rs, st'')))"

section \<open>The contract\<close>

text \<open>
  What the loader promises, with the host reduced to the one question that
  matters (does resolution succeed now, and with which handle) and the state to
  the cache: a cached handle is returned, a successful resolution is cached, a
  failure changes nothing.
\<close>

definition spec_load :: "'h option \<Rightarrow> 'h option \<Rightarrow> 'h option \<times> 'h option" where
  "spec_load resolved cache =
     (case cache of
        Some h \<Rightarrow> (Some h, cache)
      | None \<Rightarrow> (case resolved of None \<Rightarrow> (None, None) | Some h \<Rightarrow> (Some h, Some h)))"

text \<open>
  The contract for a whole run: the calls fail as the builder fails on their
  hosts until it succeeds for the first time, and that handle is the result of
  this and of every later call. \<open>oid\<close> is the identity the first object gets.
\<close>

fun memoised :: "'f import_env list \<Rightarrow> nat \<Rightarrow> 'f backend result list" where
  "memoised [] oid = []"
| "memoised (env # envs) oid =
     (case build_backend env oid of
        Inl e \<Rightarrow> Inl e # memoised envs oid
      | Inr b \<Rightarrow> replicate (Suc (length envs)) (Inr b))"

definition result_handle :: "'a result \<Rightarrow> 'a option" where
  "result_handle r = (case r of Inl e \<Rightarrow> None | Inr b \<Rightarrow> Some b)"

text \<open>The well-formedness of a process state: the cached object has been allocated,
  and the log holds nothing but the loader's warning.\<close>

definition loader_inv :: "'f loader_state \<Rightarrow> bool" where
  "loader_inv st \<longleftrightarrow>
     (case cached st of None \<Rightarrow> True | Some b \<Rightarrow> obj_id b < next_id st) \<and>
     list_all (\<lambda>l. l = unavailable_warning) (logged st)"

text \<open>The number of calls of a run that failed with \<^verbatim>\<open>MlxUnavailableError\<close>.\<close>

definition unavailable_count :: "'a result list \<Rightarrow> nat" where
  "unavailable_count rs =
     length (filter (\<lambda>r. case r of Inl e \<Rightarrow> isinstance e MlxUnavailableError | Inr b \<Rightarrow> False) rs)"

section \<open>Facts on the operations\<close>

named_theorems load_simps "one call of the loader on each of its four branches"

lemma getattr_Some [simp]: "m name = Some f \<Longrightarrow> getattr m name = Inr f"
  by (simp add: getattr_def)

lemma getattr_None [simp]: "m name = None \<Longrightarrow> getattr m name = Inl (Exn AttributeError name None)"
  by (simp add: getattr_def)

lemma make_namespace_obj_id: "make_namespace oid g u = Inr b \<Longrightarrow> obj_id b = oid"
  by (auto simp: make_namespace_def bind_result_eq_Inr)

lemma make_namespace_shift:
  "make_namespace oid g u = Inr b \<Longrightarrow> make_namespace oid' g u = Inr (b\<lparr>obj_id := oid'\<rparr>)"
  by (auto simp: make_namespace_def bind_result_eq_Inr)

lemma make_namespace_Inl_indep:
  "make_namespace oid g u = Inl e \<Longrightarrow> make_namespace oid' g u = Inl e"
  by (auto simp: make_namespace_def bind_result_eq_Inl)

lemma build_backend_unsupported:
  "lower (platform_system env) \<noteq> ''darwin'' \<Longrightarrow>
   build_backend env oid = Inl (Exn MlxUnavailableError (unsupported_msg (platform_system env)) None)"
  by (simp add: build_backend_def)

lemma build_backend_darwin:
  "lower (platform_system env) = ''darwin'' \<Longrightarrow>
   build_backend env oid =
     (case import_helpers env of
        Inl exc \<Rightarrow> if isinstance exc ImportError
                   then Inl (Exn MlxUnavailableError missing_msg (Some exc)) else Inl exc
      | Inr (generate, utils_mlx) \<Rightarrow> make_namespace oid generate utils_mlx)"
  by (simp add: build_backend_def)

lemma build_backend_obj_id: "build_backend env oid = Inr b \<Longrightarrow> obj_id b = oid"
  by (auto simp: build_backend_def Let_def make_namespace_obj_id split: if_splits sum.splits)

lemma build_backend_shift:
  "build_backend env oid = Inr b \<Longrightarrow> build_backend env oid' = Inr (b\<lparr>obj_id := oid'\<rparr>)"
  by (auto simp: build_backend_def Let_def make_namespace_shift split: if_splits sum.splits)

lemma load_cached [load_simps]: "cached st = Some b \<Longrightarrow> load_mlx_backend env st = (Inr b, st)"
  by (simp add: load_mlx_backend_def)

lemma load_built [load_simps]:
  "cached st = None \<Longrightarrow> build_backend env (next_id st) = Inr b \<Longrightarrow>
   load_mlx_backend env st = (Inr b, st\<lparr>cached := Some b, next_id := Suc (next_id st)\<rparr>)"
  by (simp add: load_mlx_backend_def)

lemma load_unavailable [load_simps]:
  "cached st = None \<Longrightarrow> build_backend env (next_id st) = Inl e \<Longrightarrow> isinstance e MlxUnavailableError \<Longrightarrow>
   load_mlx_backend env st = (Inl e, st\<lparr>logged := logged st @ [unavailable_warning]\<rparr>)"
  by (simp add: load_mlx_backend_def)

lemma load_other_error [load_simps]:
  "cached st = None \<Longrightarrow> build_backend env (next_id st) = Inl e \<Longrightarrow> \<not> isinstance e MlxUnavailableError \<Longrightarrow>
   load_mlx_backend env st = (Inl e, st)"
  by (simp add: load_mlx_backend_def)

lemma load_cases [case_names hit built unavailable other]:
  assumes "\<And>b. cached st = Some b \<Longrightarrow> P"
    and "\<And>b. cached st = None \<Longrightarrow> build_backend env (next_id st) = Inr b \<Longrightarrow> P"
    and "\<And>e. cached st = None \<Longrightarrow> build_backend env (next_id st) = Inl e \<Longrightarrow>
           isinstance e MlxUnavailableError \<Longrightarrow> P"
    and "\<And>e. cached st = None \<Longrightarrow> build_backend env (next_id st) = Inl e \<Longrightarrow>
           \<not> isinstance e MlxUnavailableError \<Longrightarrow> P"
  shows P
  using assms by (cases "cached st"; cases "build_backend env (next_id st)") auto

lemma load_cached_after: "fst (load_mlx_backend env st) = Inr b \<Longrightarrow> cached (snd (load_mlx_backend env st)) = Some b"
  by (rule load_cases [where st = st and env = env]) (auto simp: load_simps)

lemma load_failure_state:
  "fst (load_mlx_backend env st) = Inl e \<Longrightarrow>
   snd (load_mlx_backend env st) =
     st\<lparr>logged := logged st @ (if isinstance e MlxUnavailableError then [unavailable_warning] else [])\<rparr>"
  by (rule load_cases [where st = st and env = env]) (auto simp: load_simps)

lemma load_failure_uncached: "fst (load_mlx_backend env st) = Inl e \<Longrightarrow> cached st = None"
  by (rule load_cases [where st = st and env = env]) (auto simp: load_simps)

lemma loader_inv_init: "loader_inv init_loader"
  by (simp add: loader_inv_def init_loader_def)

lemma loader_inv_load: "loader_inv st \<Longrightarrow> loader_inv (snd (load_mlx_backend env st))"
  by (rule load_cases [where st = st and env = env]) (auto simp: load_simps loader_inv_def build_backend_obj_id)

lemma run_loads_Cons:
  "run_loads (env # envs) st =
     (fst (load_mlx_backend env st) # fst (run_loads envs (snd (load_mlx_backend env st))),
      snd (run_loads envs (snd (load_mlx_backend env st))))"
  by (simp split: prod.splits)

lemma run_loads_cached:
  "cached st = Some b \<Longrightarrow> run_loads envs st = (replicate (length envs) (Inr b), st)"
  by (induction envs) (auto simp: load_cached)

lemma load_failed:
  "cached st = None \<Longrightarrow> build_backend env (next_id st) = Inl e \<Longrightarrow>
   fst (load_mlx_backend env st) = Inl e \<and> cached (snd (load_mlx_backend env st)) = None \<and>
   next_id (snd (load_mlx_backend env st)) = next_id st"
  by (simp add: load_mlx_backend_def)

lemma run_loads_uncached:
  "cached st = None \<Longrightarrow> fst (run_loads envs st) = memoised envs (next_id st)"
proof (induction envs arbitrary: st)
  case Nil
  show ?case by simp
next
  case (Cons env envs)
  show ?case
  proof (cases "build_backend env (next_id st)")
    case (Inl e)
    with Cons.prems load_failed [of st env e] Cons.IH [of "snd (load_mlx_backend env st)"]
    show ?thesis by (simp add: run_loads_Cons del: run_loads.simps(2))
  next
    case (Inr b)
    with Cons.prems show ?thesis
      by (simp add: run_loads_Cons load_built run_loads_cached del: run_loads.simps(2))
  qed
qed

lemma run_loads_length: "length (fst (run_loads envs st)) = length envs"
  by (induction envs arbitrary: st) (simp_all add: run_loads_Cons del: run_loads.simps(2))

lemma run_loads_append:
  "run_loads (xs @ ys) st =
     (case run_loads xs st of (rs, st') \<Rightarrow> case run_loads ys st' of (rs', st'') \<Rightarrow> (rs @ rs', st''))"
  by (induction xs arbitrary: st) (auto split: prod.splits)

lemma load_log_step:
  "length (logged (snd (load_mlx_backend env st))) =
     length (logged st) + unavailable_count [fst (load_mlx_backend env st)]"
  by (rule load_cases [where st = st and env = env]) (auto simp: load_simps unavailable_count_def)

lemma load_success_state:
  "cached st = None \<Longrightarrow> fst (load_mlx_backend env st) = Inr b \<Longrightarrow>
   snd (load_mlx_backend env st) = st\<lparr>cached := Some b, next_id := Suc (next_id st)\<rparr>"
  by (rule load_cases [where st = st and env = env]) (auto simp: load_simps)

lemma run_loads_inv: "loader_inv st \<Longrightarrow> loader_inv (snd (run_loads envs st))"
proof (induction envs arbitrary: st)
  case Nil
  then show ?case by simp
next
  case (Cons env envs)
  from Cons.prems have "loader_inv (snd (load_mlx_backend env st))" by (rule loader_inv_load)
  then have "loader_inv (snd (run_loads envs (snd (load_mlx_backend env st))))" by (rule Cons.IH)
  then show ?case by (simp add: run_loads_Cons del: run_loads.simps(2))
qed

lemma run_loads_stable:
  "run_loads envs st = (rs, st') \<Longrightarrow> i \<le> j \<Longrightarrow> j < length rs \<Longrightarrow> rs ! i = Inr b \<Longrightarrow> rs ! j = Inr b"
proof (induction envs arbitrary: st rs i j)
  case Nil
  then show ?case by simp
next
  case (Cons env envs)
  obtain r st1 where l: "load_mlx_backend env st = (r, st1)" by (cases "load_mlx_backend env st")
  obtain rs1 where r1: "run_loads envs st1 = (rs1, st')" and rs: "rs = r # rs1"
    using Cons.prems(1) l by (auto split: prod.splits)
  show ?case
  proof (cases i)
    case 0
    with Cons.prems rs have "r = Inr b" by simp
    with l have "cached st1 = Some b" using load_cached_after [of env st b] by simp
    with r1 have "rs1 = replicate (length envs) (Inr b)" by (simp add: run_loads_cached)
    with rs \<open>r = Inr b\<close> Cons.prems(3) show ?thesis by (cases j) auto
  next
    case (Suc i')
    with Cons.prems(2) obtain j' where j: "j = Suc j'" and "i' \<le> j'" by (cases j) auto
    with Cons.IH [OF r1, of i' j'] Cons.prems rs Suc show ?thesis by simp
  qed
qed


section \<open>Example hosts\<close>

text \<open>
  Two hosts for the closed instances below: a macOS host on which both helper
  modules import and export their entry points (numbered 1 to 4), and a Linux
  host on which nothing imports.
\<close>

definition example_generate :: "nat py_module" where
  "example_generate = [''mlx_generate'' \<mapsto> 3, ''warmup_inference'' \<mapsto> 4]"

definition example_utils_mlx :: "nat py_module" where
  "example_utils_mlx = [''initialize_mlx'' \<mapsto> 1, ''mlx_force_oom'' \<mapsto> 2]"

definition example_darwin :: "nat import_env" where
  "example_darwin =
     \<lparr>platform_system = ''Darwin'',
      import_module = (\<lambda>name. if name = generate_module then Inr example_generate
                              else if name = utils_mlx_module then Inr example_utils_mlx
                              else Inl (Exn ModuleNotFoundError name None))\<rparr>"

definition example_linux :: "nat import_env" where
  "example_linux =
     \<lparr>platform_system = ''Linux'',
      import_module = (\<lambda>name. Inl (Exn ModuleNotFoundError name None))\<rparr>"

text \<open>A macOS host whose generator module lacks the last entry point.\<close>

definition example_no_warmup :: "nat import_env" where
  "example_no_warmup =
     example_darwin\<lparr>import_module :=
       (\<lambda>name. Inr (if name = generate_module then [''mlx_generate'' \<mapsto> 3] else example_utils_mlx))\<rparr>"

definition example_backend :: "nat backend" where
  "example_backend =
     \<lparr>obj_id = 0, initialize_mlx = 1, mlx_force_oom = 2, mlx_generate = 3, warmup_inference = 4\<rparr>"

lemmas example_defs [exo_defs] =
  example_generate_def example_utils_mlx_def example_darwin_def example_linux_def
  example_backend_def generate_module_def utils_mlx_module_def init_loader_def

lemma lower_Darwin [simp]: "lower ''Darwin'' = ''darwin''"
  by (simp add: lower_eval)

lemma lower_Linux [simp]: "lower ''Linux'' = ''linux''"
  by (simp add: lower_eval)

lemma build_example_darwin [simp]:
  "build_backend example_darwin oid = Inr (example_backend\<lparr>obj_id := oid\<rparr>)"
  by (simp add: build_backend_def import_helpers_def make_namespace_def example_defs lower_eval)

lemma build_example_linux [simp]:
  "build_backend example_linux oid =
     Inl (Exn MlxUnavailableError (unsupported_msg ''Linux'') None)"
  by (simp add: build_backend_def example_defs lower_eval)

lemma load_example_darwin [simp]:
  "cached st = None \<Longrightarrow>
   load_mlx_backend example_darwin st =
     (Inr (example_backend\<lparr>obj_id := next_id st\<rparr>),
      st\<lparr>cached := Some (example_backend\<lparr>obj_id := next_id st\<rparr>), next_id := Suc (next_id st)\<rparr>)"
  by (simp add: load_built)

lemma load_example_linux [simp]:
  "cached st = None \<Longrightarrow>
   load_mlx_backend example_linux st =
     (Inl (Exn MlxUnavailableError (unsupported_msg ''Linux'') None),
      st\<lparr>logged := logged st @ [unavailable_warning]\<rparr>)"
  by (simp add: load_unavailable exn_simps)

text \<open>What evaluates a run over the example hosts.\<close>

lemmas example_run = load_cached init_loader_def example_backend_def unavailable_count_def exn_simps

section \<open>Properties of the loader\<close>

text \<open>
  C3 (functional). Once a call of \<^verbatim>\<open>load_mlx_backend\<close> has succeeded with a
  handle, every later call returns that very handle, whatever the host has
  become in the meantime, and the process state never changes again: no platform
  test, no import, no log entry and no new object.
\<close>

theorem first_success_is_final:
  assumes "fst (load_mlx_backend env st) = Inr b"
  shows "run_loads envs (snd (load_mlx_backend env st)) =
           (replicate (length envs) (Inr b), snd (load_mlx_backend env st))"
  using assms by (intro run_loads_cached load_cached_after)

theorem first_success_is_final_witness:
  "fst (load_mlx_backend example_darwin init_loader) = Inr example_backend \<and>
   run_loads [example_linux, example_darwin] (snd (load_mlx_backend example_darwin init_loader)) =
     ([Inr example_backend, Inr example_backend],
      \<lparr>cached = Some example_backend, logged = [], next_id = 1\<rparr>)"
  using first_success_is_final [of example_darwin init_loader example_backend
      "[example_linux, example_darwin]"]
  by (simp add: example_run)

text \<open>
  C4 (error). On a host whose platform name does not lower-case to
  \<^verbatim>\<open>darwin\<close> every call of a run fails with \<^verbatim>\<open>MlxUnavailableError\<close>
  whose message quotes the platform name as the host reports it; nothing is
  cached, no object is allocated, and each call appends exactly one warning.
\<close>

theorem unsupported_platform_fails_every_call:
  assumes "cached st = None"
    and "\<forall>env \<in> set envs. lower (platform_system env) \<noteq> ''darwin''"
  shows "run_loads envs st =
     (map (\<lambda>env. Inl (Exn MlxUnavailableError (unsupported_msg (platform_system env)) None)) envs,
      st\<lparr>logged := logged st @ replicate (length envs) unavailable_warning\<rparr>)"
  using assms
proof (induction envs arbitrary: st)
  case Nil
  then show ?case by simp
next
  case (Cons env envs)
  let ?e = "Exn MlxUnavailableError (unsupported_msg (platform_system env)) None"
  let ?st = "st\<lparr>logged := logged st @ [unavailable_warning]\<rparr>"
  from Cons.prems have "load_mlx_backend env st = (Inl ?e, ?st)"
    by (simp add: load_unavailable build_backend_unsupported)
  moreover from Cons.prems have "run_loads envs ?st =
     (map (\<lambda>env. Inl (Exn MlxUnavailableError (unsupported_msg (platform_system env)) None)) envs,
      ?st\<lparr>logged := logged ?st @ replicate (length envs) unavailable_warning\<rparr>)"
    by (intro Cons.IH) simp_all
  ultimately show ?case by (simp add: replicate_append_same)
qed

theorem unsupported_platform_fails_every_call_witness:
  "run_loads [example_linux, example_linux] init_loader =
     ([Inl (Exn MlxUnavailableError (unsupported_msg ''Linux'') None),
       Inl (Exn MlxUnavailableError (unsupported_msg ''Linux'') None)],
      \<lparr>cached = None, logged = [unavailable_warning, unavailable_warning], next_id = 0\<rparr>)"
  using unsupported_platform_fails_every_call [of init_loader "[example_linux, example_linux]"]
  by (simp add: example_run example_linux_def)

text \<open>
  C11 (error). A failure is never remembered: when a call fails, the next call runs
  the whole resolution again against the host as it is then, so its result is
  that of \<^verbatim>\<open>_build_backend\<close> on the new host.
\<close>

theorem failure_is_retried:
  assumes "fst (load_mlx_backend env1 st) = Inl e"
  shows "fst (load_mlx_backend env2 (snd (load_mlx_backend env1 st))) =
           build_backend env2 (next_id st)"
proof -
  from assms have "cached st = None" by (rule load_failure_uncached)
  with load_failure_state [OF assms] show ?thesis
    by (cases "build_backend env2 (next_id st)") (simp_all add: load_mlx_backend_def)
qed

theorem failure_is_retried_witness:
  "fst (load_mlx_backend example_linux init_loader) =
     Inl (Exn MlxUnavailableError (unsupported_msg ''Linux'') None) \<and>
   fst (load_mlx_backend example_darwin (snd (load_mlx_backend example_linux init_loader))) =
     Inr example_backend"
  using failure_is_retried [of example_linux init_loader
      "Exn MlxUnavailableError (unsupported_msg ''Linux'') None" example_darwin]
  by (simp add: example_run)

text \<open>
  C26 (refinement). \<^verbatim>\<open>load_mlx_backend\<close> implements the contract
  \<open>spec_load\<close>: seen through the cache and through whether a handle was
  returned, a call is one step of the contract, with "resolution succeeds" read
  as \<^verbatim>\<open>_build_backend\<close> returning on the current host.
\<close>

theorem load_refines_spec:
  "map_prod result_handle cached (load_mlx_backend env st) =
     spec_load (result_handle (build_backend env (next_id st))) (cached st)"
  by (rule load_cases [where st = st and env = env])
    (auto simp: load_simps spec_load_def result_handle_def)

text \<open>
  C27 (equivalence). In a process that calls the loader one call after the other,
  the loader is the builder memoised at its first success: whatever the hosts of
  the calls are, the results of a run from the fresh process are those of
  \<open>memoised\<close>, that is, the failures of \<^verbatim>\<open>_build_backend\<close> on the hosts up to
  the first on which it succeeds, and from then on the handle built there.
\<close>

theorem loader_memoises_first_success:
  "fst (run_loads envs init_loader) = memoised envs 0"
  using run_loads_uncached [of init_loader envs] by (simp add: init_loader_def)

text \<open>
  C36 (bounds). A run of calls one after the other that starts with an empty cache
  builds the backend at most once: the allocation counter moves by one if some
  call succeeded and not at all otherwise.
\<close>

theorem run_builds_at_most_once:
  assumes "run_loads envs st = (rs, st')" and "cached st = None"
  shows "next_id st' = next_id st + (if \<exists>b. Inr b \<in> set rs then 1 else 0)"
  using assms
proof (induction envs arbitrary: st rs)
  case Nil
  then show ?case by simp
next
  case (Cons env envs)
  obtain r st1 where l: "load_mlx_backend env st = (r, st1)" by (cases "load_mlx_backend env st")
  obtain rs1 where r1: "run_loads envs st1 = (rs1, st')" and rs: "rs = r # rs1"
    using Cons.prems(1) l by (auto split: prod.splits)
  show ?case
  proof (cases r)
    case (Inl e)
    with l have "st1 = st\<lparr>logged := logged st @ (if isinstance e MlxUnavailableError then [unavailable_warning] else [])\<rparr>"
      using load_failure_state [of env st e] by simp
    then have "cached st1 = None" "next_id st1 = next_id st" using Cons.prems(2) by simp_all
    with Cons.IH [OF r1] rs Inl show ?thesis by simp
  next
    case (Inr b)
    have st1: "st1 = st\<lparr>cached := Some b, next_id := Suc (next_id st)\<rparr>"
      using load_success_state [of st env b] l Inr Cons.prems(2) by simp
    then have "run_loads envs st1 = (replicate (length envs) (Inr b), st1)"
      by (simp add: run_loads_cached)
    with r1 st1 rs Inr show ?thesis by auto
  qed
qed

theorem run_builds_at_most_once_witness:
  "run_loads [example_linux, example_darwin, example_darwin] init_loader =
     ([Inl (Exn MlxUnavailableError (unsupported_msg ''Linux'') None),
       Inr example_backend, Inr example_backend],
      \<lparr>cached = Some example_backend, logged = [unavailable_warning], next_id = 1\<rparr>) \<and>
   cached (init_loader :: nat loader_state) = None \<and>
   next_id \<lparr>cached = Some example_backend, logged = [unavailable_warning], next_id = 1\<rparr> =
     next_id (init_loader :: nat loader_state) + 1"
proof -
  have run: "run_loads [example_linux, example_darwin, example_darwin] init_loader =
     ([Inl (Exn MlxUnavailableError (unsupported_msg ''Linux'') None),
       Inr example_backend, Inr example_backend],
      \<lparr>cached = Some example_backend, logged = [unavailable_warning], next_id = 1\<rparr>)"
    by (simp add: example_run)
  from run_builds_at_most_once [OF run] run show ?thesis
    by (simp add: init_loader_def)
qed

text \<open>
  C37 (invariant). The log of a run grows by exactly one entry for each call that
  failed with \<^verbatim>\<open>MlxUnavailableError\<close>, and by none for any other call.
\<close>

theorem one_warning_per_unavailable_call:
  assumes "run_loads envs st = (rs, st')"
  shows "length (logged st') = length (logged st) + unavailable_count rs"
  using assms
proof (induction envs arbitrary: st rs)
  case Nil
  then show ?case by (simp add: unavailable_count_def)
next
  case (Cons env envs)
  obtain r st1 where l: "load_mlx_backend env st = (r, st1)" by (cases "load_mlx_backend env st")
  obtain rs1 where r1: "run_loads envs st1 = (rs1, st')" and rs: "rs = r # rs1"
    using Cons.prems(1) l by (auto split: prod.splits)
  have "length (logged st1) = length (logged st) + unavailable_count [r]"
    using load_log_step [of env st] l by simp
  with Cons.IH [OF r1] rs show ?case by (simp add: unavailable_count_def)
qed

theorem one_warning_per_unavailable_call_witness:
  "length (logged (snd (run_loads [example_linux, example_darwin, example_linux] init_loader))) =
     length (logged (init_loader :: nat loader_state)) +
     unavailable_count (fst (run_loads [example_linux, example_darwin, example_linux] init_loader)) \<and>
   unavailable_count (fst (run_loads [example_linux, example_darwin, example_linux] init_loader)) = 1"
proof -
  have "unavailable_count (fst (run_loads [example_linux, example_darwin, example_linux] init_loader)) = 1"
    by (simp add: example_run)
  with one_warning_per_unavailable_call [OF surjective_pairing,
      of "[example_linux, example_darwin, example_linux]" init_loader]
  show ?thesis by simp
qed

text \<open>
  The construction fails at the first entry point that is missing, in the order of
  the reads, and succeeds when none is.
\<close>

lemma make_namespace_missing:
  "List.find (\<lambda>(m, name). m name = None) (entry_points generate utils_mlx) = Some (m, name) \<Longrightarrow>
   make_namespace oid generate utils_mlx = Inl (Exn AttributeError name None)"
  by (auto simp: entry_points_def make_namespace_def getattr_def split: if_splits)

lemma make_namespace_complete:
  "List.find (\<lambda>(m, name). m name = None) (entry_points generate utils_mlx) = None \<Longrightarrow>
   \<exists>b. make_namespace oid generate utils_mlx = Inr b"
  by (auto simp: entry_points_def make_namespace_def getattr_def split: if_splits)

text \<open>
  C34 (error). Resolution failures other than a failed import are not turned into
  \<^verbatim>\<open>MlxUnavailableError\<close>: when both modules import on macOS but one of the
  four entry points is missing, the \<^verbatim>\<open>AttributeError\<close> of the first
  missing one, in the order \<^verbatim>\<open>initialize_mlx\<close>, \<^verbatim>\<open>mlx_force_oom\<close>,
  \<^verbatim>\<open>mlx_generate\<close>, \<^verbatim>\<open>warmup_inference\<close> of the reads, leaves
  \<^verbatim>\<open>load_mlx_backend\<close> as it is; no warning is logged and nothing is cached.
\<close>

theorem missing_entry_point_escapes:
  assumes "cached st = None"
    and "lower (platform_system env) = ''darwin''"
    and "import_helpers env = Inr (generate, utils_mlx)"
    and "List.find (\<lambda>(m, name). m name = None) (entry_points generate utils_mlx) = Some (m, name)"
  shows "load_mlx_backend env st = (Inl (Exn AttributeError name None), st)"
  using assms
  by (simp add: load_other_error build_backend_darwin make_namespace_missing exn_simps)

theorem missing_entry_point_escapes_witness:
  "load_mlx_backend example_no_warmup init_loader =
     (Inl (Exn AttributeError ''warmup_inference'' None), init_loader)"
  using missing_entry_point_escapes [of init_loader example_no_warmup
      "[''mlx_generate'' \<mapsto> 3]" example_utils_mlx "[''mlx_generate'' \<mapsto> 3]" "''warmup_inference''"]
  by (simp add: example_no_warmup_def example_defs import_helpers_def entry_points_def)

end
