(* ===== verification/Interleaving.thy ===== *)
theory Interleaving
  imports Exo_Prelude
begin

text \<open>
  Threads of one process over one shared state, for any kind of thread. A
  thread is what it has to do next with its local values (type \<open>'t\<close>), the
  shared state is what all of them read and write (type \<open>'s\<close>), and a thread
  moves by a step function that is given the host of that moment (type \<open>'e\<close>).
  A schedule names, step by step, the thread that runs and the host it sees.
  The theory holds what does not depend on the step function: schedules and
  reachability, and the three rules by which the loader's theories prove
  their theorems on concurrent calls, for invariants, for progress and for
  the simulation of one step function by another.
\<close>

section \<open>Configurations and schedules\<close>

record ('t, 's) system =
  threads :: "'t list"
  shared :: 's

type_synonym 'e schedule = "(nat \<times> 'e) list"

type_synonym ('e, 't, 's) stepper = "'e \<Rightarrow> 't \<Rightarrow> 's \<Rightarrow> 't \<times> 's"

text \<open>A step of the process: the scheduler runs thread \<open>i\<close> for one step.\<close>

definition sched_step ::
  "('e, 't, 's) stepper \<Rightarrow> nat \<times> 'e \<Rightarrow> ('t, 's) system \<Rightarrow> ('t, 's) system" where
  "sched_step step a cfg =
     (if fst a < length (threads cfg)
      then \<lparr>threads = (threads cfg)[fst a := fst (step (snd a) (threads cfg ! fst a) (shared cfg))],
            shared = snd (step (snd a) (threads cfg ! fst a) (shared cfg))\<rparr>
      else cfg)"

definition exec :: "('e, 't, 's) stepper \<Rightarrow> 'e schedule \<Rightarrow> ('t, 's) system \<Rightarrow> ('t, 's) system" where
  "exec step sched cfg = fold (sched_step step) sched cfg"

text \<open>
  The configurations a process reaches from \<open>cfg0\<close> while every host it sees
  satisfies \<open>P\<close>.
\<close>

inductive reachable ::
  "('e, 't, 's) stepper \<Rightarrow> ('e \<Rightarrow> bool) \<Rightarrow> ('t, 's) system \<Rightarrow> ('t, 's) system \<Rightarrow> bool"
  for step :: "('e, 't, 's) stepper" and P :: "'e \<Rightarrow> bool" and cfg0 :: "('t, 's) system" where
  reachable_init: "reachable step P cfg0 cfg0"
| reachable_step: "reachable step P cfg0 cfg \<Longrightarrow> i < length (threads cfg) \<Longrightarrow> P env \<Longrightarrow>
     reachable step P cfg0 (sched_step step (i, env) cfg)"

text \<open>A thread that runs \<open>n\<close> steps without another thread in between.\<close>

fun run_alone :: "('e, 't, 's) stepper \<Rightarrow> nat \<Rightarrow> 'e \<Rightarrow> 't \<Rightarrow> 's \<Rightarrow> 't \<times> 's" where
  "run_alone step 0 env t s = (t, s)"
| "run_alone step (Suc n) env t s =
     run_alone step n env (fst (step env t s)) (snd (step env t s))"

text \<open>
  Two configurations correspond when their shared states are related by \<open>R\<close> and
  their threads, one by one, by \<open>T\<close>, which may read the first shared state.
\<close>

definition corresponds ::
  "('s \<Rightarrow> 's' \<Rightarrow> bool) \<Rightarrow> ('s \<Rightarrow> 't \<Rightarrow> 't' \<Rightarrow> bool) \<Rightarrow>
   ('t, 's) system \<Rightarrow> ('t', 's') system \<Rightarrow> bool" where
  "corresponds R T cfg cfg' \<longleftrightarrow>
     R (shared cfg) (shared cfg') \<and> list_all2 (T (shared cfg)) (threads cfg) (threads cfg')"

section \<open>Schedules\<close>

lemma exec_Nil [simp]: "exec step [] cfg = cfg"
  by (simp add: exec_def)

lemma exec_Cons [simp]: "exec step (a # sched) cfg = exec step sched (sched_step step a cfg)"
  by (simp add: exec_def)

lemma exec_append [simp]: "exec step (s @ t) cfg = exec step t (exec step s cfg)"
  by (simp add: exec_def)

lemma length_threads_sched_step [simp]:
  "length (threads (sched_step step a cfg)) = length (threads cfg)"
  by (simp add: sched_step_def)

lemma length_threads_exec [simp]: "length (threads (exec step sched cfg)) = length (threads cfg)"
  by (induction sched arbitrary: cfg) simp_all

lemma sched_step_out_of_range:
  "\<not> i < length (threads cfg) \<Longrightarrow> sched_step step (i, env) cfg = cfg"
  by (simp add: sched_step_def)

lemma threads_sched_step_other:
  "j \<noteq> i \<Longrightarrow> threads (sched_step step (i, env) cfg) ! j = threads cfg ! j"
  by (simp add: sched_step_def)

lemma threads_sched_step_same:
  "i < length (threads cfg) \<Longrightarrow>
   threads (sched_step step (i, env) cfg) ! i = fst (step env (threads cfg ! i) (shared cfg))"
  by (simp add: sched_step_def)

lemma shared_sched_step:
  "i < length (threads cfg) \<Longrightarrow>
   shared (sched_step step (i, env) cfg) = snd (step env (threads cfg ! i) (shared cfg))"
  by (simp add: sched_step_def)

lemma exec_replicate_thread:
  "i < length (threads cfg) \<Longrightarrow>
   exec step (replicate n (i, env)) cfg =
     \<lparr>threads = (threads cfg)[i := fst (run_alone step n env (threads cfg ! i) (shared cfg))],
      shared = snd (run_alone step n env (threads cfg ! i) (shared cfg))\<rparr>"
  by (induction n arbitrary: cfg) (simp_all add: sched_step_def)

text \<open>Reachability is execution of a schedule.\<close>

lemma reachable_exec:
  "list_all (\<lambda>a. P (snd a)) sched \<Longrightarrow> reachable step P cfg0 (exec step sched cfg0)"
proof (induction sched rule: rev_induct)
  case Nil
  show ?case by (simp add: reachable_init)
next
  case (snoc a sched)
  then have r: "reachable step P cfg0 (exec step sched cfg0)" and p: "P (snd a)" by simp_all
  show ?case
  proof (cases "fst a < length (threads (exec step sched cfg0))")
    case True
    from reachable_step [OF r True p] show ?thesis by simp
  next
    case False
    with r show ?thesis by (simp add: sched_step_def)
  qed
qed

lemma reachable_is_exec:
  "reachable step P cfg0 cfg \<Longrightarrow>
   \<exists>sched. list_all (\<lambda>a. P (snd a)) sched \<and> cfg = exec step sched cfg0"
proof (induction rule: reachable.induct)
  case reachable_init
  have "list_all (\<lambda>a. P (snd a)) [] \<and> cfg0 = exec step [] cfg0" by simp
  then show ?case by blast
next
  case (reachable_step cfg i env)
  then obtain sched where "list_all (\<lambda>a. P (snd a)) sched" "cfg = exec step sched cfg0" by blast
  with reachable_step(3) have
    "list_all (\<lambda>a. P (snd a)) (sched @ [(i, env)]) \<and>
     sched_step step (i, env) cfg = exec step (sched @ [(i, env)]) cfg0"
    by simp
  then show ?case by blast
qed

lemma reachable_length [simp]:
  "reachable step P cfg0 cfg \<Longrightarrow> length (threads cfg) = length (threads cfg0)"
  by (induction rule: reachable.induct) simp_all

section \<open>Invariants\<close>

text \<open>
  An invariant \<open>I\<close> of the shared state with a condition \<open>Q\<close> on every thread
  holds after a step of the process when a step of a thread keeps both for
  that thread and does not disturb the condition of any other thread.
\<close>

lemma sched_step_invariant:
  assumes keeps: "\<And>env t s. I s \<Longrightarrow> Q s t \<Longrightarrow>
      I (snd (step env t s)) \<and> Q (snd (step env t s)) (fst (step env t s))"
    and stable: "\<And>env t u s. I s \<Longrightarrow> Q s t \<Longrightarrow> Q s u \<Longrightarrow> Q (snd (step env t s)) u"
    and inv: "I (shared cfg) \<and> list_all (Q (shared cfg)) (threads cfg)"
  shows "I (shared (sched_step step a cfg)) \<and>
         list_all (Q (shared (sched_step step a cfg))) (threads (sched_step step a cfg))"
proof (cases "fst a < length (threads cfg)")
  case False
  with inv show ?thesis by (simp add: sched_step_def)
next
  case True
  let ?t = "threads cfg ! fst a"
  from inv True have t: "Q (shared cfg) ?t" by (simp add: list_all_length)
  with inv have "list_all (Q (snd (step (snd a) ?t (shared cfg)))) (threads cfg)"
    by (auto simp: list_all_iff intro: stable)
  with keeps [of "shared cfg" ?t "snd a"] inv t True show ?thesis
    by (simp add: sched_step_def list_all_update)
qed

lemma exec_invariant:
  assumes "\<And>env t s. I s \<Longrightarrow> Q s t \<Longrightarrow>
      I (snd (step env t s)) \<and> Q (snd (step env t s)) (fst (step env t s))"
    and "\<And>env t u s. I s \<Longrightarrow> Q s t \<Longrightarrow> Q s u \<Longrightarrow> Q (snd (step env t s)) u"
    and "I (shared cfg) \<and> list_all (Q (shared cfg)) (threads cfg)"
  shows "I (shared (exec step sched cfg)) \<and>
         list_all (Q (shared (exec step sched cfg))) (threads (exec step sched cfg))"
  using assms(3)
proof (induction sched arbitrary: cfg)
  case Nil
  then show ?case by simp
next
  case (Cons a sched)
  from sched_step_invariant [of I Q step, OF assms(1,2) Cons.prems] show ?case
    by (simp add: Cons.IH)
qed

section \<open>Progress\<close>

text \<open>
  When every step of a thread lowers a measure of what it has left to do, a
  thread has at most the measure less the number of its turns left, whatever
  the other threads did in between.
\<close>

lemma measure_sched_step:
  fixes m :: "'t \<Rightarrow> nat"
  assumes "\<And>env t s. m (fst (step env t s)) \<le> m t - 1" and "j < length (threads cfg)"
  shows "m (threads (sched_step step (i, env) cfg) ! j) \<le>
           m (threads cfg ! j) - (if i = j then 1 else 0)"
  using assms(1) [of env "threads cfg ! j" "shared cfg"] assms(2)
  by (simp add: sched_step_def nth_list_update)

lemma measure_exec:
  fixes m :: "'t \<Rightarrow> nat"
  assumes "\<And>env t s. m (fst (step env t s)) \<le> m t - 1" and "j < length (threads cfg)"
  shows "m (threads (exec step sched cfg) ! j) \<le>
           m (threads cfg ! j) - count_list (map fst sched) j"
  using assms(2)
proof (induction sched arbitrary: cfg)
  case Nil
  show ?case by simp
next
  case (Cons a sched)
  obtain i env where a: "a = (i, env)" by (cases a)
  from Cons.prems have "j < length (threads (sched_step step a cfg))" by simp
  from Cons.IH [OF this] measure_sched_step [of m step, OF assms(1) Cons.prems, of i env]
  show ?case by (auto simp: a)
qed

section \<open>Potential\<close>

text \<open>
  When no step of a thread raises a count \<open>v\<close> on the shared state by more than
  it lowers the credit \<open>c\<close> of the thread, the count and the credits of all
  threads together never grow.
\<close>

lemma sum_list_map_update:
  fixes c :: "'t \<Rightarrow> nat"
  shows "i < length ts \<Longrightarrow> sum_list (map c (ts[i := t])) + c (ts ! i) = sum_list (map c ts) + c t"
  using member_le_sum_list [of "c (ts ! i)" "map c ts"]
  by (simp add: map_update sum_list_update)

lemma potential_sched_step:
  fixes v :: "'s \<Rightarrow> nat" and c :: "'t \<Rightarrow> nat"
  assumes "\<And>env t s. v (snd (step env t s)) + c (fst (step env t s)) \<le> v s + c t"
  shows "v (shared (sched_step step a cfg)) + sum_list (map c (threads (sched_step step a cfg)))
           \<le> v (shared cfg) + sum_list (map c (threads cfg))"
proof (cases "fst a < length (threads cfg)")
  case False
  then show ?thesis by (simp add: sched_step_def)
next
  case True
  let ?r = "step (snd a) (threads cfg ! fst a) (shared cfg)"
  from sum_list_map_update [OF True, of c "fst ?r"] assms [of "snd a" "threads cfg ! fst a" "shared cfg"]
  have "v (snd ?r) + sum_list (map c ((threads cfg)[fst a := fst ?r]))
      \<le> v (shared cfg) + sum_list (map c (threads cfg))"
    by linarith
  with True show ?thesis by (simp add: sched_step_def)
qed

lemma potential_exec:
  fixes v :: "'s \<Rightarrow> nat" and c :: "'t \<Rightarrow> nat"
  assumes "\<And>env t s. v (snd (step env t s)) + c (fst (step env t s)) \<le> v s + c t"
  shows "v (shared (exec step sched cfg)) + sum_list (map c (threads (exec step sched cfg)))
           \<le> v (shared cfg) + sum_list (map c (threads cfg))"
proof (induction sched arbitrary: cfg)
  case Nil
  show ?case by simp
next
  case (Cons a sched)
  from Cons [of "sched_step step a cfg"] potential_sched_step [of v step c, OF assms, of a cfg]
  show ?case by simp
qed

section \<open>Sweeps\<close>

text \<open>
  A sweep runs the first \<open>k\<close> of \<open>n\<close> threads that stand at the same point for one
  step each, in their order, under one host. When the \<open>j\<close>-th of these steps
  takes the shared state \<open>s j\<close> to \<open>s (j + 1)\<close> and leaves its thread at \<open>t' j\<close>,
  the sweep leaves the threads at \<open>t' 0\<close>, \<open>t' 1\<close> and so on, and the rest where
  it was.
\<close>

definition sweep :: "nat \<Rightarrow> 'e \<Rightarrow> 'e schedule" where
  "sweep k env = map (\<lambda>i. (i, env)) [0 ..< k]"

lemma sweep_Suc: "sweep (Suc k) env = sweep k env @ [(k, env)]"
  by (simp add: sweep_def)

lemma update_first_of_rest:
  "length xs = k \<Longrightarrow> k < n \<Longrightarrow>
   (xs @ replicate (n - k) y)[k := z] = (xs @ [z]) @ replicate (n - Suc k) y"
  by (cases "n - k") (simp_all add: list_update_append Suc_diff_Suc)

lemma exec_sweep:
  assumes "\<And>j. j < n \<Longrightarrow> step env t (s j) = (t' j, s (Suc j))" and "k \<le> n"
  shows "exec step (sweep k env) \<lparr>threads = replicate n t, shared = s 0\<rparr> =
           \<lparr>threads = map t' [0 ..< k] @ replicate (n - k) t, shared = s k\<rparr>"
  using assms(2)
proof (induction k)
  case 0
  show ?case by (simp add: sweep_def)
next
  case (Suc k)
  then have k: "k < n" by simp
  from k have "(map t' [0 ..< k] @ replicate (n - k) t) ! k = t"
    by (simp add: nth_append)
  with Suc k assms(1) [OF k] update_first_of_rest [of "map t' [0 ..< k]" k n t "t' k"]
  show ?case by (simp add: sweep_Suc sched_step_def)
qed

section \<open>Simulation\<close>

text \<open>
  One step function simulates another when, from corresponding shared states
  and threads, their steps lead to corresponding ones, and a step of one thread
  does not disturb the correspondence of any other thread. Then the two
  processes correspond after every schedule.
\<close>

lemma list_all2_update_right:
  "list_all2 R xs ys \<Longrightarrow> i < length ys \<Longrightarrow> R (xs ! i) y \<Longrightarrow> list_all2 R xs (ys[i := y])"
  by (auto simp: list_all2_conv_all_nth nth_list_update)

lemma sched_step_simulation:
  assumes sim: "\<And>env t t' s s'. R s s' \<Longrightarrow> T s t t' \<Longrightarrow>
      R (snd (step env t s)) (snd (step' env t' s')) \<and>
      T (snd (step env t s)) (fst (step env t s)) (fst (step' env t' s'))"
    and stable: "\<And>env t t' u u' s s'. R s s' \<Longrightarrow> T s t t' \<Longrightarrow> T s u u' \<Longrightarrow>
      T (snd (step env t s)) u u'"
    and rel: "corresponds R T cfg cfg'"
  shows "corresponds R T (sched_step step a cfg) (sched_step step' a cfg')"
proof -
  from rel have len: "length (threads cfg) = length (threads cfg')"
    by (auto simp: corresponds_def dest: list_all2_lengthD)
  show ?thesis
  proof (cases "fst a < length (threads cfg)")
    case False
    with rel len show ?thesis by (simp add: sched_step_def)
  next
    case True
    let ?t = "threads cfg ! fst a" and ?t' = "threads cfg' ! fst a"
    let ?s = "snd (step (snd a) ?t (shared cfg))"
    from rel True have R: "R (shared cfg) (shared cfg')" and t: "T (shared cfg) ?t ?t'"
      by (simp_all add: corresponds_def list_all2_nthD)
    from rel have "list_all2 (T ?s) (threads cfg) (threads cfg')"
      unfolding corresponds_def
      by (auto elim!: list_all2_mono intro: stable [OF R t])
    with sim [OF R t, of "snd a"] True len show ?thesis
      by (simp add: corresponds_def sched_step_def list_all2_update_cong)
  qed
qed

lemma exec_simulation:
  assumes "\<And>env t t' s s'. R s s' \<Longrightarrow> T s t t' \<Longrightarrow>
      R (snd (step env t s)) (snd (step' env t' s')) \<and>
      T (snd (step env t s)) (fst (step env t s)) (fst (step' env t' s'))"
    and "\<And>env t t' u u' s s'. R s s' \<Longrightarrow> T s t t' \<Longrightarrow> T s u u' \<Longrightarrow>
      T (snd (step env t s)) u u'"
    and "corresponds R T cfg cfg'"
  shows "corresponds R T (exec step sched cfg) (exec step' sched cfg')"
  using assms(3)
proof (induction sched arbitrary: cfg cfg')
  case Nil
  then show ?case by simp
next
  case (Cons a sched)
  from sched_step_simulation [of R T step step', OF assms(1,2) Cons.prems] show ?case
    by (simp add: Cons.IH)
qed

end
