(* ===== verification/Loader_Threads.thy ===== *)
theory Loader_Threads
  imports Availability Interleaving
begin

text \<open>
  \<^verbatim>\<open>load_mlx_backend\<close> called from several threads of one process. The function
  takes no lock, so between any two of its accesses to the shared attribute
  \<^verbatim>\<open>_cached\<close> another thread may run. A call is cut into the steps that touch
  shared state: the test \<^verbatim>\<open>hasattr\<close> (line 46), the call of
  \<^verbatim>\<open>_build_backend\<close> (right-hand side of line 48), the assignment to
  \<^verbatim>\<open>_cached\<close> (line 48), the warning (line 50) and the read of
  \<^verbatim>\<open>_cached\<close> for the result (line 53). The threads run under the scheduler
  of \<open>Interleaving\<close>: a schedule names, step by step, the thread that runs and
  the host it sees. The program points are stated over the type of what a call
  holds and returns, here the handles of \<open>Availability\<close>; \<open>Heap_Threads\<close> uses
  them with addresses.
\<close>

section \<open>Threads and their steps\<close>

text \<open>Where a call stands: the statement it executes next, with its local values.\<close>

datatype 'h pc =
    AtCheck
  | AtBuild
  | AtStore 'h
  | AtLog exn
  | AtReturn
  | Done "'h result"

text \<open>All calls at their first statement.\<close>

definition start :: "nat \<Rightarrow> 's \<Rightarrow> ('h pc, 's) system" where
  "start n st = \<lparr>threads = replicate n AtCheck, shared = st\<rparr>"

text \<open>What reading \<^verbatim>\<open>_cached\<close> raises when the attribute does not exist.\<close>

definition missing_attribute :: exn where
  "missing_attribute = Exn AttributeError ''function object has no attribute _cached'' None"

text \<open>One step of one call under the host of that moment.\<close>

fun thread_step ::
  "'f import_env \<Rightarrow> 'f backend pc \<Rightarrow> 'f loader_state \<Rightarrow> 'f backend pc \<times> 'f loader_state" where
  "thread_step env AtCheck st = (if cached st = None then AtBuild else AtReturn, st)"
| "thread_step env AtBuild st =
     (case build_backend env (next_id st) of
        Inl e \<Rightarrow> (if isinstance e MlxUnavailableError then AtLog e else Done (Inl e), st)
      | Inr b \<Rightarrow> (AtStore b, st\<lparr>next_id := Suc (next_id st)\<rparr>))"
| "thread_step env (AtStore b) st = (AtReturn, st\<lparr>cached := Some b\<rparr>)"
| "thread_step env (AtLog e) st = (Done (Inl e), st\<lparr>logged := logged st @ [unavailable_warning]\<rparr>)"
| "thread_step env AtReturn st =
     (case cached st of
        None \<Rightarrow> (Done (Inl missing_attribute), st)
      | Some b \<Rightarrow> (Done (Inr b), st))"
| "thread_step env (Done r) st = (Done r, st)"

text \<open>The schedule that runs the calls one after the other, each to its end.\<close>

definition call_steps :: nat where
  "call_steps = 4"

fun serial :: "nat \<Rightarrow> 'e list \<Rightarrow> 'e schedule" where
  "serial k [] = []"
| "serial k (env # envs) = replicate call_steps (k, env) @ serial (Suc k) envs"

text \<open>
  Two calls in lockstep: both test the attribute before either has assigned it,
  the first returns before the second assigns.
\<close>

definition race :: "'e \<Rightarrow> 'e schedule" where
  "race env = map (\<lambda>i. (i, env)) [0, 1, 0, 1, 0, 0, 1, 1]"

text \<open>
  Two calls that alternate to the end: both have assigned the attribute before
  either reads it back for its result.
\<close>

definition late_reads :: "'e \<Rightarrow> 'e schedule" where
  "late_reads env = map (\<lambda>i. (i, env)) [0, 1, 0, 1, 0, 1, 0, 1]"

text \<open>The results of the calls that have returned or raised.\<close>

fun done_result :: "'h pc \<Rightarrow> 'h result option" where
  "done_result (Done r) = Some r"
| "done_result pc = None"

definition finished :: "('h pc, 's) system \<Rightarrow> 'h result list" where
  "finished cfg = List.map_filter done_result (threads cfg)"

text \<open>How many steps a call has left at most.\<close>

fun steps_left :: "'h pc \<Rightarrow> nat" where
  "steps_left AtCheck = 4"
| "steps_left AtBuild = 3"
| "steps_left (AtStore b) = 2"
| "steps_left (AtLog e) = 1"
| "steps_left AtReturn = 1"
| "steps_left (Done r) = 0"

text \<open>How many times a call may still run \<^verbatim>\<open>_build_backend\<close>.\<close>

fun builds_left :: "'h pc \<Rightarrow> nat" where
  "builds_left AtCheck = 1"
| "builds_left AtBuild = 1"
| "builds_left pc = 0"

text \<open>
  What holds of every thread in every reachable configuration: a built object
  has been allocated, a pending warning is for \<^verbatim>\<open>MlxUnavailableError\<close>, and a
  thread that is about to read the attribute, or has read it, finds it set.
\<close>

fun pc_inv :: "'f loader_state \<Rightarrow> 'f backend pc \<Rightarrow> bool" where
  "pc_inv st AtCheck = True"
| "pc_inv st AtBuild = True"
| "pc_inv st (AtStore b) = (obj_id b < next_id st)"
| "pc_inv st (AtLog e) = isinstance e MlxUnavailableError"
| "pc_inv st AtReturn = (cached st \<noteq> None)"
| "pc_inv st (Done r) = (case r of Inl e \<Rightarrow> True | Inr b \<Rightarrow> obj_id b < next_id st \<and> cached st \<noteq> None)"

definition system_inv :: "('f backend pc, 'f loader_state) system \<Rightarrow> bool" where
  "system_inv cfg \<longleftrightarrow> loader_inv (shared cfg) \<and> list_all (pc_inv (shared cfg)) (threads cfg)"

text \<open>
  A thread is in flight when it has found the attribute missing and has not yet
  finished what follows from that.
\<close>

fun in_flight :: "'h pc \<Rightarrow> bool" where
  "in_flight AtBuild = True"
| "in_flight (AtStore b) = True"
| "in_flight (AtLog e) = True"
| "in_flight pc = False"

text \<open>Where a thread can stand while no resolution has succeeded.\<close>

fun failing_pc :: "'h pc \<Rightarrow> bool" where
  "failing_pc AtCheck = True"
| "failing_pc AtBuild = True"
| "failing_pc (AtLog e) = isinstance e MlxUnavailableError"
| "failing_pc (Done (Inl e)) = isinstance e MlxUnavailableError"
| "failing_pc pc = False"

section \<open>Where a process starts\<close>

lemma threads_start [simp]: "threads (start n st) = replicate n AtCheck"
  by (simp add: start_def)

lemma shared_start [simp]: "shared (start n st) = st"
  by (simp add: start_def)

section \<open>Uninterrupted calls\<close>

lemma run_thread_call:
  "run_alone thread_step call_steps env AtCheck st =
     (Done (fst (load_mlx_backend env st)), snd (load_mlx_backend env st))"
  by (rule load_cases [where st = st and env = env])
    (simp_all add: load_simps call_steps_def eval_nat_numeral)

lemma exec_call:
  "exec thread_step (replicate call_steps (length ds, env)) \<lparr>threads = ds @ AtCheck # ts, shared = st\<rparr> =
     \<lparr>threads = ds @ Done (fst (load_mlx_backend env st)) # ts,
      shared = snd (load_mlx_backend env st)\<rparr>"
  by (simp add: exec_replicate_thread run_thread_call)

lemma exec_serial:
  "exec thread_step (serial (length ds) envs) \<lparr>threads = ds @ replicate (length envs) AtCheck, shared = st\<rparr> =
     \<lparr>threads = ds @ map Done (fst (run_loads envs st)), shared = snd (run_loads envs st)\<rparr>"
proof (induction envs arbitrary: ds st)
  case Nil
  show ?case by simp
next
  case (Cons env envs)
  from Cons [of "ds @ [Done (fst (load_mlx_backend env st))]" "snd (load_mlx_backend env st)"]
  show ?case
    by (simp add: exec_call run_loads_Cons del: run_loads.simps(2))
qed

section \<open>Progress\<close>

lemma steps_left_thread_step:
  "steps_left (fst (thread_step env pc st)) \<le> steps_left pc - 1"
  by (cases pc) (auto split: sum.splits option.splits)

lemmas steps_left_exec = measure_exec [of steps_left thread_step, OF steps_left_thread_step]

lemma steps_left_0_iff: "steps_left pc = 0 \<longleftrightarrow> (\<exists>r. pc = Done r)"
  by (cases pc) simp_all

section \<open>The invariant\<close>

lemma thread_step_grows:
  "next_id st \<le> next_id (snd (thread_step env pc st)) \<and>
   (cached st \<noteq> None \<longrightarrow> cached (snd (thread_step env pc st)) \<noteq> None)"
  by (cases pc) (auto split: sum.splits option.splits)

lemma pc_inv_mono:
  "pc_inv st pc \<Longrightarrow> next_id st \<le> next_id st' \<Longrightarrow> (cached st \<noteq> None \<longrightarrow> cached st' \<noteq> None) \<Longrightarrow>
   pc_inv st' pc"
  by (cases pc) (auto split: sum.splits)

lemma thread_step_inv:
  assumes "loader_inv st" and "pc_inv st pc"
  shows "loader_inv (snd (thread_step env pc st)) \<and>
         pc_inv (snd (thread_step env pc st)) (fst (thread_step env pc st))"
proof (cases pc)
  case AtBuild
  with assms show ?thesis
    by (cases "build_backend env (next_id st)")
      (auto simp: loader_inv_def build_backend_obj_id split: option.splits)
qed (use assms in \<open>auto simp: loader_inv_def split: option.splits sum.splits\<close>)

lemma thread_step_stable: "pc_inv st pc' \<Longrightarrow> pc_inv (snd (thread_step env pc st)) pc'"
  using thread_step_grows [of st env pc] by (auto intro: pc_inv_mono)

lemma sched_step_inv: "system_inv cfg \<Longrightarrow> system_inv (sched_step thread_step a cfg)"
  unfolding system_inv_def
  by (rule sched_step_invariant [of loader_inv pc_inv])
    (simp_all add: thread_step_inv thread_step_stable)

lemma system_inv_start: "loader_inv st \<Longrightarrow> system_inv (start n st)"
  by (simp add: system_inv_def list_all_iff)

lemma system_inv_exec: "system_inv cfg \<Longrightarrow> system_inv (exec thread_step sched cfg)"
  by (induction sched arbitrary: cfg) (simp_all add: sched_step_inv)

section \<open>Steps after the cache has settled, and steps while nothing resolves\<close>

lemma settled_thread_step:
  "cached st = Some b \<Longrightarrow> \<not> in_flight pc \<Longrightarrow>
   snd (thread_step env pc st) = st \<and>
   (fst (thread_step env pc st) = pc \<or> fst (thread_step env pc st) = AtReturn \<or>
    fst (thread_step env pc st) = Done (Inr b))"
  by (cases pc) auto

lemma failing_thread_step:
  assumes "lower (platform_system env) \<noteq> ''darwin''" and "cached st = None" and "failing_pc pc"
  shows "failing_pc (fst (thread_step env pc st)) \<and>
         cached (snd (thread_step env pc st)) = None \<and>
         logged (snd (thread_step env pc st)) =
           logged st @ (if done_result pc = None \<and> done_result (fst (thread_step env pc st)) \<noteq> None
                        then [unavailable_warning] else [])"
proof (cases pc)
  case (Done r)
  with assms show ?thesis by (cases r) auto
qed (use assms in \<open>auto simp: build_backend_unsupported exn_simps\<close>)

lemma failing_done_result:
  "failing_pc pc \<Longrightarrow>
   (case done_result pc of None \<Rightarrow> True
    | Some r \<Rightarrow> (case r of Inl e \<Rightarrow> isinstance e MlxUnavailableError | Inr b \<Rightarrow> False))"
  by (cases pc rule: failing_pc.cases) auto

lemma settled_sched_step:
  assumes "cached (shared cfg) = Some b" and "list_all (\<lambda>pc. \<not> in_flight pc) (threads cfg)"
  shows "shared (sched_step thread_step a cfg) = shared cfg \<and>
         list_all2 (\<lambda>pc0 pc. pc = pc0 \<or> pc = AtReturn \<or> pc = Done (Inr b))
           (threads cfg) (threads (sched_step thread_step a cfg))"
proof (cases "fst a < length (threads cfg)")
  case False
  then show ?thesis by (simp add: sched_step_def list_all2_conv_all_nth)
next
  case True
  with assms(2) have "\<not> in_flight (threads cfg ! fst a)" by (simp add: list_all_length)
  from settled_thread_step [OF assms(1) this, of "snd a"] True show ?thesis
    by (auto simp: sched_step_def list_all2_conv_all_nth nth_list_update)
qed

section \<open>Example schedules\<close>

lemma start_2: "start 2 st = \<lparr>threads = [AtCheck, AtCheck], shared = st\<rparr>"
  by (simp add: start_def eval_nat_numeral)

lemma platform_system_example_linux [simp]: "platform_system example_linux = ''Linux''"
  by (simp add: example_linux_def)

lemmas exec_eval = sched_step_def race_def start_2 finished_def init_loader_def

text \<open>
  What two racing callers receive depends on the schedule. Both always build;
  when each also reads \<^verbatim>\<open>_cached\<close> back only after both assignments, both
  return the object assigned last and the object built first is dropped without
  ever having been returned.
\<close>

lemma exec_late_reads:
  assumes "build_backend env 0 = Inr b"
  shows "exec thread_step (late_reads env) (start 2 init_loader) =
           \<lparr>threads = [Done (Inr (b\<lparr>obj_id := 1\<rparr>)), Done (Inr (b\<lparr>obj_id := 1\<rparr>))],
            shared = \<lparr>cached = Some (b\<lparr>obj_id := 1\<rparr>), logged = [], next_id = 2\<rparr>\<rparr>"
  using build_backend_shift [OF assms, of "Suc 0"] assms
  by (simp add: exec_eval late_reads_def)

section \<open>Properties of concurrent calls\<close>

text \<open>
  C10 (safety). The loader is not safe under concurrent first calls: there is a
  schedule of two calls under which the callers end up with different backend
  objects. On any host on which resolution succeeds, under the schedule
  \<open>race\<close> (both calls test the attribute before either assigns it, and the
  first call returns before the second assigns) each call builds a backend
  object: two objects are allocated, the two callers receive different handles,
  and the cache keeps the one assigned last. The statement is about this one
  schedule; under others the callers may agree (\<open>exec_late_reads\<close>), and calls
  that do not overlap behave as a sequential run (\<open>exec_serial\<close>), in which
  they always do.
\<close>

theorem concurrent_first_calls_build_twice:
  assumes "build_backend env 0 = Inr b"
  shows "exec thread_step (race env) (start 2 init_loader) =
           \<lparr>threads = [Done (Inr b), Done (Inr (b\<lparr>obj_id := 1\<rparr>))],
            shared = \<lparr>cached = Some (b\<lparr>obj_id := 1\<rparr>), logged = [], next_id = 2\<rparr>\<rparr> \<and>
         b \<noteq> b\<lparr>obj_id := 1\<rparr>"
proof -
  from assms have "obj_id b = 0" by (rule build_backend_obj_id)
  then have "b \<noteq> b\<lparr>obj_id := 1\<rparr>" by (cases b) simp
  moreover from build_backend_shift [OF assms, of "Suc 0"] assms
  have "exec thread_step (race env) (start 2 init_loader) =
           \<lparr>threads = [Done (Inr b), Done (Inr (b\<lparr>obj_id := 1\<rparr>))],
            shared = \<lparr>cached = Some (b\<lparr>obj_id := 1\<rparr>), logged = [], next_id = 2\<rparr>\<rparr>"
    by (simp add: exec_eval)
  ultimately show ?thesis by simp
qed

theorem concurrent_first_calls_build_twice_witness:
  "exec thread_step (race example_darwin) (start 2 init_loader) =
     \<lparr>threads = [Done (Inr example_backend), Done (Inr (example_backend\<lparr>obj_id := 1\<rparr>))],
      shared = \<lparr>cached = Some (example_backend\<lparr>obj_id := 1\<rparr>), logged = [], next_id = 2\<rparr>\<rparr> \<and>
   example_backend \<noteq> example_backend\<lparr>obj_id := 1\<rparr>"
  using concurrent_first_calls_build_twice [of example_darwin example_backend]
  by (simp add: example_backend_def)

text \<open>
  C28 (safety). Once the cache is set and no call is in flight, the cache is final
  under every schedule and every host: the process state no longer changes, and
  every call that finishes from then on returns the cached handle.
\<close>

theorem settled_cache_is_final:
  assumes "cached (shared cfg0) = Some b"
    and "list_all (\<lambda>pc. \<not> in_flight pc) (threads cfg0)"
    and "reachable thread_step P cfg0 cfg"
  shows "shared cfg = shared cfg0 \<and>
         list_all2 (\<lambda>pc0 pc. pc = pc0 \<or> pc = AtReturn \<or> pc = Done (Inr b))
           (threads cfg0) (threads cfg)"
    (is "_ \<and> list_all2 ?R _ _")
  using assms(3)
proof (induction rule: reachable.induct)
  case reachable_init
  show ?case by (simp add: list_all2_conv_all_nth)
next
  case (reachable_step cfg i env)
  from reachable_step.IH assms(2) have quiet: "list_all (\<lambda>pc. \<not> in_flight pc) (threads cfg)"
    by (auto simp: list_all_length list_all2_conv_all_nth)
  from reachable_step.IH assms(1) have "cached (shared cfg) = Some b" by simp
  from settled_sched_step [OF this quiet, of "(i, env)"]
  have same: "shared (sched_step thread_step (i, env) cfg) = shared cfg"
    and now: "list_all2 ?R (threads cfg) (threads (sched_step thread_step (i, env) cfg))"
    by simp_all
  from reachable_step.IH have before: "list_all2 ?R (threads cfg0) (threads cfg)" by simp
  have "list_all2 ?R (threads cfg0) (threads (sched_step thread_step (i, env) cfg))"
    by (rule list_all2_trans [OF _ before now]) auto
  with same reachable_step.IH show ?case by simp
qed

theorem settled_cache_is_final_witness:
  "shared (exec thread_step [(1, example_linux), (1, example_linux)]
      \<lparr>threads = [Done (Inr example_backend), AtCheck],
       shared = \<lparr>cached = Some example_backend, logged = [], next_id = 1\<rparr>\<rparr>) =
     \<lparr>cached = Some example_backend, logged = [], next_id = 1\<rparr> \<and>
   threads (exec thread_step [(1, example_linux), (1, example_linux)]
      \<lparr>threads = [Done (Inr example_backend), AtCheck],
       shared = \<lparr>cached = Some example_backend, logged = [], next_id = 1\<rparr>\<rparr>) =
     [Done (Inr example_backend), Done (Inr example_backend)]"
  using settled_cache_is_final
    [of "\<lparr>threads = [Done (Inr example_backend), AtCheck],
         shared = \<lparr>cached = Some example_backend, logged = [], next_id = 1\<rparr>\<rparr>"
        example_backend "\<lambda>env. True"
        "exec thread_step [(1, example_linux), (1, example_linux)]
           \<lparr>threads = [Done (Inr example_backend), AtCheck],
            shared = \<lparr>cached = Some example_backend, logged = [], next_id = 1\<rparr>\<rparr>"]
    reachable_exec [of "\<lambda>env. True" "[(1, example_linux), (1, example_linux)]" thread_step
        "\<lparr>threads = [Done (Inr example_backend), AtCheck],
         shared = \<lparr>cached = Some example_backend, logged = [], next_id = 1\<rparr>\<rparr>"]
  by (simp add: sched_step_def)

text \<open>
  C29 (error). Failure is never cached, whatever the interleaving: while every
  host the process sees is not macOS, in every reachable configuration the
  cache is empty, every call that has finished has raised
  \<^verbatim>\<open>MlxUnavailableError\<close>, and the log holds exactly one warning for each
  finished call.
\<close>

theorem unsupported_platform_fails_under_any_interleaving:
  assumes "reachable thread_step (\<lambda>env. lower (platform_system env) \<noteq> ''darwin'') (start n init_loader) cfg"
  shows "cached (shared cfg) = None \<and>
         logged (shared cfg) = replicate (length (finished cfg)) unavailable_warning \<and>
         list_all (\<lambda>r. case r of Inl e \<Rightarrow> isinstance e MlxUnavailableError | Inr b \<Rightarrow> False)
           (finished cfg)"
proof -
  from assms have "cached (shared cfg) = None \<and>
      logged (shared cfg) = replicate (length (finished cfg)) unavailable_warning \<and>
      list_all failing_pc (threads cfg)"
  proof (induction rule: reachable.induct)
    case reachable_init
    show ?case by (simp add: finished_def init_loader_def list_all_iff List.map_filter_def)
  next
    case (reachable_step cfg i env)
    let ?pc = "threads cfg ! i"
    from reachable_step have pc: "failing_pc ?pc" by (simp add: list_all_length)
    from reachable_step have none: "cached (shared cfg) = None" by simp
    note step = failing_thread_step [OF reachable_step(3) none pc]
    from length_map_filter_update [OF reachable_step(2), of done_result
        "fst (thread_step env ?pc (shared cfg))"] step reachable_step.IH reachable_step(2)
    have "logged (shared (sched_step thread_step (i, env) cfg)) =
        replicate (length (finished (sched_step thread_step (i, env) cfg))) unavailable_warning"
      by (cases ?pc rule: done_result.cases)
        (auto simp: sched_step_def finished_def replicate_append_same split: if_splits)
    with step reachable_step show ?case
      by (simp add: sched_step_def list_all_update)
  qed
  moreover have "list_all failing_pc (threads cfg) \<Longrightarrow>
      list_all (\<lambda>r. case r of Inl e \<Rightarrow> isinstance e MlxUnavailableError | Inr b \<Rightarrow> False)
        (finished cfg)"
    unfolding finished_def
    by (rule list_all_map_filter) (simp add: list_all_iff failing_done_result)
  ultimately show ?thesis by simp
qed

theorem unsupported_platform_fails_under_any_interleaving_witness:
  "cached (shared (exec thread_step (map (\<lambda>i. (i, example_linux)) [0, 1, 0, 1, 0]) (start 2 init_loader))) = None \<and>
   logged (shared (exec thread_step (map (\<lambda>i. (i, example_linux)) [0, 1, 0, 1, 0]) (start 2 init_loader))) =
     [unavailable_warning] \<and>
   finished (exec thread_step (map (\<lambda>i. (i, example_linux)) [0, 1, 0, 1, 0]) (start 2 init_loader)) =
     [Inl (Exn MlxUnavailableError (unsupported_msg ''Linux'') None)]"
  using unsupported_platform_fails_under_any_interleaving
    [of 2 "exec thread_step (map (\<lambda>i. (i, example_linux)) [0, 1, 0, 1, 0]) (start 2 init_loader)"]
    reachable_exec [of "\<lambda>env. lower (platform_system env) \<noteq> ''darwin''"
      "map (\<lambda>i. (i, example_linux)) [0, 1, 0, 1, 0]" thread_step "start 2 init_loader"]
  by (simp add: exec_eval exn_simps)

text \<open>
  C38 (invariant). In every configuration a process reaches from a well-formed
  state, under any schedule and any hosts: the cached object and every object a
  thread holds or has returned have been allocated, the log holds only the
  loader's warning, and a thread that is about to read \<^verbatim>\<open>_cached\<close> for its
  result finds the attribute set, so that the read cannot raise.
\<close>

theorem reachable_configurations_wellformed:
  assumes "loader_inv st" and "reachable thread_step P (start n st) cfg"
  shows "system_inv cfg"
  using assms(2)
  by (induction rule: reachable.induct) (simp_all add: system_inv_start assms(1) sched_step_inv)

theorem reachable_configurations_wellformed_witness:
  "system_inv (exec thread_step (race example_darwin) (start 2 init_loader))"
  using reachable_configurations_wellformed
    [of init_loader "\<lambda>env. True" 2 "exec thread_step (race example_darwin) (start 2 init_loader)"]
    reachable_exec [of "\<lambda>env. True" "race example_darwin" thread_step "start 2 init_loader"]
  by (simp add: loader_inv_init list_all_iff)

text \<open>
  In the model a call needs no more than four steps of its own, whatever the
  other threads do: the program points are few and no step waits. This is a
  fact about the granularity of \<open>pc\<close> (a blocking import is one step here), and
  what lets the theorems on schedules speak of calls that have finished.
\<close>

lemma every_call_finishes_in_four_steps:
  assumes "i < n" and "call_steps \<le> count_list (map fst sched) i"
  shows "\<exists>r. threads (exec thread_step sched (start n st)) ! i = Done r"
proof -
  from assms(1) steps_left_exec [of i "start n st" sched]
  have "steps_left (threads (exec thread_step sched (start n st)) ! i) \<le>
      4 - count_list (map fst sched) i"
    by simp
  with assms show ?thesis by (simp add: call_steps_def steps_left_0_iff [symmetric])
qed

end
