(* ===== verification/Loader_Heap.thy ===== *)
theory Loader_Heap
  imports Availability "HOL-Library.AList"
begin

text \<open>
  The loader over a store. In \<open>Availability\<close> a handle is a value that carries
  its identity; here it is what \<^verbatim>\<open>load_mlx_backend\<close> really returns, a reference
  to the \<^verbatim>\<open>SimpleNamespace\<close> object that \<^verbatim>\<open>_build_backend\<close> allocated (line
  35) and that the attribute \<^verbatim>\<open>_cached\<close> refers to (lines 48 and 53). The store
  is the list of the objects allocated so far, an address is an index into it,
  and an object is its attribute dictionary in insertion order. The theory
  shows what only the store can say: every caller holds the same object, so
  what one caller assigns to an attribute of its handle, all the others read.
  It also relates the loader over the store to the loader over values; that
  relation is between two models of the same lines, and serves to carry lemmas
  from one to the other.
\<close>

section \<open>The store\<close>

type_synonym addr = nat

type_synonym 'f namespace = "(string \<times> 'f) list"

record 'f heap =
  objects :: "'f namespace list"
  cached_ref :: "addr option"
  heap_log :: "log_entry list"

definition init_heap :: "'f heap" where
  "init_heap = \<lparr>objects = [], cached_ref = None, heap_log = []\<rparr>"

definition present :: "'f heap \<Rightarrow> addr \<Rightarrow> bool" where
  "present h a \<longleftrightarrow> a < length (objects h)"

text \<open>Allocation: the new object gets the next address.\<close>

definition alloc :: "'f namespace \<Rightarrow> 'f heap \<Rightarrow> addr \<times> 'f heap" where
  "alloc ns h = (length (objects h), h\<lparr>objects := objects h @ [ns]\<rparr>)"

section \<open>The loader\<close>

text \<open>The keyword arguments of \<^verbatim>\<open>SimpleNamespace(...)\<close>, in the order of the call.\<close>

definition namespace_of :: "'f backend \<Rightarrow> 'f namespace" where
  "namespace_of b =
     [(''initialize_mlx'', initialize_mlx b), (''mlx_force_oom'', mlx_force_oom b),
      (''mlx_generate'', mlx_generate b), (''warmup_inference'', warmup_inference b)]"

text \<open>
  \<^verbatim>\<open>_build_backend\<close>: the resolution is the one of \<open>build_backend\<close>; on success
  the namespace is allocated and its address returned.
\<close>

definition build_ref :: "'f import_env \<Rightarrow> 'f heap \<Rightarrow> addr result \<times> 'f heap" where
  "build_ref env h =
     (case build_backend env (length (objects h)) of
        Inl e \<Rightarrow> (Inl e, h)
      | Inr b \<Rightarrow> (case alloc (namespace_of b) h of (a, h') \<Rightarrow> (Inr a, h')))"

text \<open>\<^verbatim>\<open>load_mlx_backend\<close>: the attribute holds an address, and an address is returned.\<close>

definition load_ref :: "'f import_env \<Rightarrow> 'f heap \<Rightarrow> addr result \<times> 'f heap" where
  "load_ref env h =
     (case cached_ref h of
        Some a \<Rightarrow> (Inr a, h)
      | None \<Rightarrow>
          (case build_ref env h of
             (Inl e, h') \<Rightarrow>
               if isinstance e MlxUnavailableError
               then (Inl e, h'\<lparr>heap_log := heap_log h' @ [unavailable_warning]\<rparr>)
               else (Inl e, h')
           | (Inr a, h') \<Rightarrow> (Inr a, h'\<lparr>cached_ref := Some a\<rparr>)))"

text \<open>Calls one after the other, each under its own host.\<close>

fun run_refs :: "'f import_env list \<Rightarrow> 'f heap \<Rightarrow> addr result list \<times> 'f heap" where
  "run_refs [] h = ([], h)"
| "run_refs (env # envs) h =
     (case load_ref env h of
        (r, h') \<Rightarrow> (case run_refs envs h' of (rs, h'') \<Rightarrow> (r # rs, h'')))"

section \<open>What a caller does with its handle\<close>

text \<open>
  Attribute access and attribute assignment on the object at an address, as
  \<^verbatim>\<open>SimpleNamespace\<close> allows them to whoever holds a reference.
\<close>

definition getattr_at :: "'f heap \<Rightarrow> addr \<Rightarrow> string \<Rightarrow> 'f option" where
  "getattr_at h a name = (if present h a then map_of (objects h ! a) name else None)"

definition setattr_at :: "addr \<Rightarrow> string \<Rightarrow> 'f \<Rightarrow> 'f heap \<Rightarrow> 'f heap" where
  "setattr_at a name v h =
     (if present h a then h\<lparr>objects := (objects h)[a := AList.update name v (objects h ! a)]\<rparr>
      else h)"

section \<open>From the store to values\<close>

text \<open>The handle of \<open>Availability\<close> that an address stands for: its four entry points.\<close>

definition backend_at :: "'f heap \<Rightarrow> addr \<Rightarrow> 'f backend option" where
  "backend_at h a =
     Option.bind (getattr_at h a ''initialize_mlx'') (\<lambda>f1.
     Option.bind (getattr_at h a ''mlx_force_oom'') (\<lambda>f2.
     Option.bind (getattr_at h a ''mlx_generate'') (\<lambda>f3.
     Option.bind (getattr_at h a ''warmup_inference'') (\<lambda>f4.
     Some \<lparr>obj_id = a, initialize_mlx = f1, mlx_force_oom = f2,
           mlx_generate = f3, warmup_inference = f4\<rparr>))))"

definition abs_heap :: "'f heap \<Rightarrow> 'f loader_state" where
  "abs_heap h =
     \<lparr>cached = (case cached_ref h of None \<Rightarrow> None | Some a \<Rightarrow> backend_at h a),
      logged = heap_log h,
      next_id = length (objects h)\<rparr>"

text \<open>What a call returned, with the address replaced by what it stands for.\<close>

definition deref :: "'f heap \<Rightarrow> addr result \<Rightarrow> 'f backend result option" where
  "deref h r = (case r of Inl e \<Rightarrow> Some (Inl e) | Inr a \<Rightarrow> map_option Inr (backend_at h a))"

text \<open>The cached address refers to an object that has the four entry points.\<close>

definition heap_inv :: "'f heap \<Rightarrow> bool" where
  "heap_inv h \<longleftrightarrow> (case cached_ref h of None \<Rightarrow> True | Some a \<Rightarrow> backend_at h a \<noteq> None)"

section \<open>Facts on the store\<close>

lemma present_alloc [simp]: "present (snd (alloc ns h)) a \<longleftrightarrow> present h a \<or> a = fst (alloc ns h)"
  by (auto simp: present_def alloc_def)

lemma next_fresh [simp]: "\<not> present h (fst (alloc ns h))"
  by (simp add: present_def alloc_def)

lemma getattr_alloc_old [simp]:
  "present h a \<Longrightarrow> getattr_at (snd (alloc ns h)) a name = getattr_at h a name"
  by (simp add: getattr_at_def present_def alloc_def nth_append)

lemma getattr_alloc_new [simp]: "getattr_at (snd (alloc ns h)) (fst (alloc ns h)) name = map_of ns name"
  by (simp add: getattr_at_def present_def alloc_def)

lemma present_setattr [simp]: "present (setattr_at a name v h) a' \<longleftrightarrow> present h a'"
  by (simp add: setattr_at_def present_def)

lemma get_set_eq [simp]: "present h a \<Longrightarrow> getattr_at (setattr_at a name v h) a name = Some v"
  by (simp add: getattr_at_def setattr_at_def present_def update_conv')

lemma get_set_neq [simp]:
  "a' \<noteq> a \<or> name' \<noteq> name \<Longrightarrow>
   getattr_at (setattr_at a name v h) a' name' = getattr_at h a' name'"
  by (auto simp: getattr_at_def setattr_at_def present_def update_conv' nth_list_update)

lemma getattr_present: "getattr_at h a name = Some f \<Longrightarrow> present h a"
  by (simp add: getattr_at_def split: if_splits)

lemma getattr_at_update [simp]:
  "getattr_at (h\<lparr>cached_ref := c\<rparr>) a name = getattr_at h a name"
  "getattr_at (h\<lparr>heap_log := l\<rparr>) a name = getattr_at h a name"
  by (simp_all add: getattr_at_def present_def)

lemma backend_at_present: "backend_at h a = Some b \<Longrightarrow> present h a"
  by (auto simp: backend_at_def bind_eq_Some_conv dest: getattr_present)

lemma backend_at_obj_id: "backend_at h a = Some b \<Longrightarrow> obj_id b = a"
  by (auto simp: backend_at_def bind_eq_Some_conv)

lemma namespace_of_obj_id [simp]: "namespace_of (b\<lparr>obj_id := x\<rparr>) = namespace_of b"
  by (simp add: namespace_of_def)

text \<open>The object just allocated for a resolved backend stands for that backend.\<close>

lemma backend_at_alloc_new:
  "obj_id b = length (objects h) \<Longrightarrow>
   backend_at (snd (alloc (namespace_of b) h)) (fst (alloc (namespace_of b) h)) = Some b"
  by (simp add: backend_at_def namespace_of_def) (simp add: alloc_def)

lemma backend_at_alloc_old [simp]:
  "present h a \<Longrightarrow> backend_at (snd (alloc ns h)) a = backend_at h a"
  by (simp add: backend_at_def)

text \<open>Fields of the record that the updates of the loader leave alone.\<close>

lemma backend_at_update [simp]:
  "backend_at (h\<lparr>cached_ref := c\<rparr>) a = backend_at h a"
  "backend_at (h\<lparr>heap_log := l\<rparr>) a = backend_at h a"
  by (simp_all add: backend_at_def)

section \<open>Facts on the loader\<close>

named_theorems load_ref_simps "one call of the loader over the store on each of its branches"

lemma build_ref_Inl: "build_backend env (length (objects h)) = Inl e \<Longrightarrow> build_ref env h = (Inl e, h)"
  by (simp add: build_ref_def)

lemma build_ref_Inr:
  "build_backend env (length (objects h)) = Inr b \<Longrightarrow>
   build_ref env h = (Inr (length (objects h)), h\<lparr>objects := objects h @ [namespace_of b]\<rparr>)"
  by (simp add: build_ref_def alloc_def)

lemma load_ref_cached [load_ref_simps]: "cached_ref h = Some a \<Longrightarrow> load_ref env h = (Inr a, h)"
  by (simp add: load_ref_def)

lemma load_ref_built [load_ref_simps]:
  "cached_ref h = None \<Longrightarrow> build_backend env (length (objects h)) = Inr b \<Longrightarrow>
   load_ref env h =
     (Inr (length (objects h)),
      h\<lparr>objects := objects h @ [namespace_of b], cached_ref := Some (length (objects h))\<rparr>)"
  by (simp add: load_ref_def build_ref_Inr)

lemma load_ref_failed [load_ref_simps]:
  "cached_ref h = None \<Longrightarrow> build_backend env (length (objects h)) = Inl e \<Longrightarrow>
   load_ref env h =
     (Inl e, if isinstance e MlxUnavailableError
             then h\<lparr>heap_log := heap_log h @ [unavailable_warning]\<rparr> else h)"
  by (simp add: load_ref_def build_ref_Inl)

text \<open>The loader allocates at most one object and never writes to an object.\<close>

lemma load_ref_frame:
  "\<exists>new. objects (snd (load_ref env h)) = objects h @ new \<and> length new \<le> 1"
proof (cases "cached_ref h")
  case None
  then show ?thesis
    by (cases "build_backend env (length (objects h))") (simp_all add: load_ref_simps)
next
  case (Some a)
  then show ?thesis by (simp add: load_ref_simps)
qed

lemma backend_at_built:
  assumes "build_backend env (length (objects h)) = Inr b"
  shows "backend_at (h\<lparr>objects := objects h @ [namespace_of b]\<rparr>) (length (objects h)) = Some b"
  using backend_at_alloc_new [of b h] build_backend_obj_id [OF assms]
  by (simp add: alloc_def)

lemma heap_inv_load: "heap_inv h \<Longrightarrow> heap_inv (snd (load_ref env h))"
proof (cases "cached_ref h")
  case None
  then show ?thesis
    by (cases "build_backend env (length (objects h))")
      (simp_all add: load_ref_simps heap_inv_def backend_at_built)
next
  case (Some a)
  assume "heap_inv h"
  with Some show ?thesis by (simp add: load_ref_simps)
qed

lemma heap_inv_setattr: "heap_inv h \<Longrightarrow> heap_inv (setattr_at a name v h)"
proof -
  have keeps: "\<exists>f'. getattr_at (setattr_at a name v h) a' n = Some f'"
    if "getattr_at h a' n = Some f" for a' n f
    using that by (cases "a' = a \<and> n = name") (auto dest: getattr_present)
  have cache: "cached_ref (setattr_at a name v h) = cached_ref h"
    by (simp add: setattr_at_def)
  assume "heap_inv h"
  then show ?thesis
    unfolding heap_inv_def cache backend_at_def
    by (auto simp: bind_eq_Some_conv split: option.splits dest!: keeps)
qed

text \<open>What an address stands for is not changed by later calls.\<close>

lemma backend_at_load: "present h a \<Longrightarrow> backend_at (snd (load_ref env h)) a = backend_at h a"
proof -
  obtain new where "objects (snd (load_ref env h)) = objects h @ new"
    using load_ref_frame by blast
  moreover assume "present h a"
  ultimately show ?thesis
    by (simp add: backend_at_def getattr_at_def present_def nth_append)
qed

lemma deref_load: "deref h r = Some x \<Longrightarrow> deref (snd (load_ref env h)) r = Some x"
proof (cases r)
  case (Inr a)
  assume "deref h r = Some x"
  with Inr obtain b where b: "backend_at h a = Some b" and x: "x = Inr b"
    by (auto simp: deref_def)
  from backend_at_load [OF backend_at_present [OF b], of env] b x Inr show ?thesis
    by (simp add: deref_def)
qed (simp add: deref_def)

lemma run_refs_Cons:
  "run_refs (env # envs) h =
     (fst (load_ref env h) # fst (run_refs envs (snd (load_ref env h))),
      snd (run_refs envs (snd (load_ref env h))))"
  by (simp split: prod.splits)

lemma deref_run: "deref h r = Some x \<Longrightarrow> deref (snd (run_refs envs h)) r = Some x"
  by (induction envs arbitrary: h) (simp_all add: run_refs_Cons deref_load del: run_refs.simps(2))

lemma run_refs_cached:
  "cached_ref h = Some a \<Longrightarrow> run_refs envs h = (replicate (length envs) (Inr a), h)"
  by (induction envs) (simp_all add: load_ref_cached)

text \<open>One call implements one call.\<close>

lemma load_ref_refines:
  assumes "heap_inv h"
  shows "deref (snd (load_ref env h)) (fst (load_ref env h)) =
           Some (fst (load_mlx_backend env (abs_heap h))) \<and>
         abs_heap (snd (load_ref env h)) = snd (load_mlx_backend env (abs_heap h))"
proof (cases "cached_ref h")
  case None
  then have abs: "cached (abs_heap h) = None" "next_id (abs_heap h) = length (objects h)"
    by (simp_all add: abs_heap_def)
  show ?thesis
  proof (cases "build_backend env (length (objects h))")
    case (Inl e)
    with None abs show ?thesis
      by (simp add: load_ref_simps load_mlx_backend_def deref_def abs_heap_def)
  next
    case (Inr b)
    with None abs backend_at_built [OF Inr] show ?thesis
      by (simp add: load_ref_simps load_mlx_backend_def deref_def abs_heap_def)
  qed
next
  case (Some a)
  with assms obtain b where "backend_at h a = Some b"
    by (auto simp: heap_inv_def)
  with Some show ?thesis
    by (simp add: load_ref_simps load_mlx_backend_def deref_def abs_heap_def)
qed

section \<open>Example\<close>

text \<open>A caller that replaces the generator in its handle.\<close>

definition patched_heap :: "nat heap" where
  "patched_heap = setattr_at 0 ''mlx_generate'' 99 (snd (load_ref example_darwin init_heap))"

lemma heap_inv_init [simp]: "heap_inv init_heap"
  by (simp add: heap_inv_def init_heap_def)

lemma load_ref_example:
  "load_ref example_darwin init_heap =
     (Inr 0, \<lparr>objects = [namespace_of example_backend], cached_ref = Some 0, heap_log = []\<rparr>)"
  by (simp add: load_ref_def build_ref_def alloc_def init_heap_def build_example_darwin)

section \<open>Properties\<close>

text \<open>
  The two models of the loader agree. From a store whose cached address refers
  to a complete namespace, a sequence of calls over the store returns the
  addresses of the handles that \<open>run_loads\<close> returns from the abstracted state,
  call by call, and raises the same exceptions, and it leaves a store that
  abstracts to the state \<open>run_loads\<close> leaves. This is a statement about the
  two models, not about the code: it is what allows a property to be proved
  over values and read over the store.
\<close>

lemma run_refs_refines_run_loads:
  assumes "heap_inv h"
  shows "map (deref (snd (run_refs envs h))) (fst (run_refs envs h)) =
           map Some (fst (run_loads envs (abs_heap h))) \<and>
         abs_heap (snd (run_refs envs h)) = snd (run_loads envs (abs_heap h))"
  using assms
proof (induction envs arbitrary: h)
  case Nil
  show ?case by simp
next
  case (Cons env envs)
  note one = load_ref_refines [OF Cons.prems, of env]
  note rest = Cons.IH [OF heap_inv_load [OF Cons.prems], of env]
  from one have "deref (snd (run_refs envs (snd (load_ref env h)))) (fst (load_ref env h)) =
      Some (fst (load_mlx_backend env (abs_heap h)))"
    by (intro deref_run) simp
  with one rest show ?case
    by (simp add: run_refs_Cons run_loads_Cons del: run_refs.simps(2) run_loads.simps(2))
qed

text \<open>
  C20 (safety). Every caller holds the cached object itself. Once a call has
  returned an address, all later calls return that address, under any hosts
  and also after a caller has assigned to an attribute of the object; and what
  was assigned is what is read at that address. So a caller that writes to its
  handle writes to the handle of all the others: the loader hands out no copy,
  and the namespace is not read-only.
\<close>

theorem handle_is_shared:
  assumes "heap_inv h" and "fst (load_ref env h) = Inr a"
  shows "run_refs envs (setattr_at a name v (snd (load_ref env h))) =
           (replicate (length envs) (Inr a), setattr_at a name v (snd (load_ref env h))) \<and>
         getattr_at (setattr_at a name v (snd (load_ref env h))) a name = Some v"
proof -
  let ?h = "snd (load_ref env h)"
  from assms have ref: "cached_ref ?h = Some a"
    by (cases "cached_ref h"; cases "build_backend env (length (objects h))")
      (auto simp: load_ref_simps split: if_splits)
  from heap_inv_load [OF assms(1), of env] ref have "present ?h a"
    by (auto simp: heap_inv_def dest: backend_at_present)
  moreover from ref have "cached_ref (setattr_at a name v ?h) = Some a"
    by (simp add: setattr_at_def)
  ultimately show ?thesis by (simp add: run_refs_cached)
qed

theorem handle_is_shared_witness:
  "run_refs [example_linux, example_darwin] patched_heap = ([Inr 0, Inr 0], patched_heap) \<and>
   getattr_at patched_heap 0 ''mlx_generate'' = Some 99"
  using handle_is_shared
    [of init_heap example_darwin 0 "[example_linux, example_darwin]" "''mlx_generate''" 99]
  by (simp add: patched_heap_def load_ref_example)

end
