(* ===== verification/Heap_Threads.thy ===== *)
theory Heap_Threads
  imports Loader_Threads Loader_Heap
begin

text \<open>
  Concurrent calls of \<^verbatim>\<open>load_mlx_backend\<close> over the store: the threads of
  \<open>Loader_Threads\<close> with the handles of \<open>Loader_Heap\<close>. A thread holds the
  address of the namespace it has built, the attribute \<^verbatim>\<open>_cached\<close> holds an
  address, and the scheduler is the one of \<open>Interleaving\<close>. The theory shows
  what the race of two first calls means for callers: how many namespaces
  concurrent first calls allocate, that after the race the callers hold two
  different objects, and that what the first caller assigns to its handle no
  later caller reads. The threads over the store are related to the threads
  over values by a simulation, which is used as a tool only: it carries the
  invariant of \<open>Loader_Threads\<close> over to the store.
\<close>

section \<open>Steps over the store\<close>

text \<open>One step of one call under the host of that moment (lines 46 to 53).\<close>

fun ref_step :: "'f import_env \<Rightarrow> addr pc \<Rightarrow> 'f heap \<Rightarrow> addr pc \<times> 'f heap" where
  "ref_step env AtCheck h = (if cached_ref h = None then AtBuild else AtReturn, h)"
| "ref_step env AtBuild h =
     (case build_ref env h of
        (Inl e, h') \<Rightarrow> (if isinstance e MlxUnavailableError then AtLog e else Done (Inl e), h')
      | (Inr a, h') \<Rightarrow> (AtStore a, h'))"
| "ref_step env (AtStore a) h = (AtReturn, h\<lparr>cached_ref := Some a\<rparr>)"
| "ref_step env (AtLog e) h = (Done (Inl e), h\<lparr>heap_log := heap_log h @ [unavailable_warning]\<rparr>)"
| "ref_step env AtReturn h =
     (case cached_ref h of
        None \<Rightarrow> (Done (Inl missing_attribute), h)
      | Some a \<Rightarrow> (Done (Inr a), h))"
| "ref_step env (Done r) h = (Done r, h)"

section \<open>From the store to values\<close>

text \<open>An address refers to a handle when the object there has its entry points.\<close>

definition refers :: "'f heap \<Rightarrow> addr \<Rightarrow> 'f backend \<Rightarrow> bool" where
  "refers h a b \<longleftrightarrow> backend_at h a = Some b"

text \<open>A store stands for a loader state when it is well-formed and abstracts to it.\<close>

definition abstracts :: "'f heap \<Rightarrow> 'f loader_state \<Rightarrow> bool" where
  "abstracts h st \<longleftrightarrow> heap_inv h \<and> abs_heap h = st"

text \<open>
  The store after the race of two first calls on a host, and the store after
  the first caller has then assigned \<open>v\<close> to the attribute \<open>name\<close> of its handle.
\<close>

definition raced :: "'f import_env \<Rightarrow> 'f heap" where
  "raced env = shared (exec ref_step (race env) (start 2 init_heap))"

definition first_writes :: "'f import_env \<Rightarrow> string \<Rightarrow> 'f \<Rightarrow> 'f heap" where
  "first_writes env name v = setattr_at 0 name v (raced env)"

text \<open>
  All \<open>n\<close> calls test the attribute before any of them has built: every thread
  in turn takes its first step, then every thread in turn its second.
\<close>

definition lockstep :: "nat \<Rightarrow> 'e \<Rightarrow> 'e schedule" where
  "lockstep n env = sweep n env @ sweep n env"

section \<open>One step\<close>

lemma refers_present: "refers h a b \<Longrightarrow> present h a"
  by (auto simp: refers_def dest: backend_at_present)

lemma build_ref_objects:
  "\<exists>new. objects (snd (build_ref env h)) = objects h @ new"
  by (cases "build_backend env (length (objects h))") (simp_all add: build_ref_Inl build_ref_Inr)

lemma ref_step_objects: "\<exists>new. objects (snd (ref_step env pc h)) = objects h @ new"
proof (cases pc)
  case AtBuild
  with build_ref_objects [of env h] show ?thesis by (auto split: prod.splits sum.splits)
qed (simp_all split: option.splits)

text \<open>A step never writes to an object: what an address refers to stays.\<close>

lemma refers_ref_step: "refers h a b \<Longrightarrow> refers (snd (ref_step env pc h)) a b"
proof -
  obtain new where "objects (snd (ref_step env pc h)) = objects h @ new"
    using ref_step_objects by blast
  moreover assume "refers h a b"
  moreover from this have "present h a" by (rule refers_present)
  ultimately show ?thesis
    by (simp add: refers_def backend_at_def getattr_at_def present_def nth_append)
qed

lemma abstracts_cached:
  "abstracts h st \<Longrightarrow>
   (case cached_ref h of None \<Rightarrow> cached st = None | Some a \<Rightarrow> \<exists>b. cached st = Some b \<and> refers h a b)"
  by (auto simp: abstracts_def heap_inv_def abs_heap_def refers_def split: option.splits)

lemma abstracts_next_id: "abstracts h st \<Longrightarrow> next_id st = length (objects h)"
  by (auto simp: abstracts_def abs_heap_def)

lemma abstracts_store:
  "abstracts h st \<Longrightarrow> refers h a b \<Longrightarrow> abstracts (h\<lparr>cached_ref := Some a\<rparr>) (st\<lparr>cached := Some b\<rparr>)"
  by (auto simp: abstracts_def heap_inv_def abs_heap_def refers_def)

lemma abstracts_log:
  "abstracts h st \<Longrightarrow> abstracts (h\<lparr>heap_log := heap_log h @ l\<rparr>) (st\<lparr>logged := logged st @ l\<rparr>)"
  by (auto simp: abstracts_def heap_inv_def abs_heap_def split: option.splits)

lemma abstracts_build:
  assumes "abstracts h st" and "build_backend env (length (objects h)) = Inr b"
  shows "abstracts (h\<lparr>objects := objects h @ [namespace_of b]\<rparr>) (st\<lparr>next_id := Suc (next_id st)\<rparr>) \<and>
         refers (h\<lparr>objects := objects h @ [namespace_of b]\<rparr>) (length (objects h)) b"
proof -
  let ?h = "h\<lparr>objects := objects h @ [namespace_of b]\<rparr>"
  have old: "backend_at ?h a = Some c" if "backend_at h a = Some c" for a c
    using that backend_at_alloc_old [OF backend_at_present [OF that], of "namespace_of b"]
    by (simp add: alloc_def)
  from assms(1) have "abstracts ?h (st\<lparr>next_id := Suc (next_id st)\<rparr>)"
    by (auto simp: abstracts_def heap_inv_def abs_heap_def old split: option.splits)
  with backend_at_built [OF assms(2)] show ?thesis by (simp add: refers_def)
qed

text \<open>A step over the store is the step over values.\<close>

lemma ref_step_simulates:
  assumes "abstracts h st" and "rel_pc (refers h) pc pc'"
  shows "abstracts (snd (ref_step env pc h)) (snd (thread_step env pc' st)) \<and>
         rel_pc (refers (snd (ref_step env pc h))) (fst (ref_step env pc h))
           (fst (thread_step env pc' st))"
proof (cases pc)
  case AtCheck
  with assms abstracts_cached [OF assms(1)] show ?thesis
    by (cases pc') (auto split: option.splits)
next
  case AtBuild
  with assms(2) have pc': "pc' = AtBuild" by (cases pc') simp_all
  show ?thesis
  proof (cases "build_backend env (length (objects h))")
    case (Inl e)
    with assms(1) AtBuild pc' show ?thesis
      by (simp add: build_ref_Inl abstracts_next_id)
  next
    case (Inr b)
    with abstracts_build [OF assms(1) Inr] assms(1) AtBuild pc' show ?thesis
      by (simp add: build_ref_Inr abstracts_next_id)
  qed
next
  case (AtStore a)
  with assms show ?thesis by (cases pc') (simp_all add: abstracts_store)
next
  case (AtLog e)
  with assms abstracts_log [OF assms(1), of "[unavailable_warning]"] show ?thesis
    by (cases pc') simp_all
next
  case AtReturn
  with assms abstracts_cached [OF assms(1)] show ?thesis
    by (cases pc') (auto split: option.splits)
next
  case (Done r)
  with assms show ?thesis by (cases pc') simp_all
qed

lemma rel_pc_ref_step:
  "rel_pc (refers h) u u' \<Longrightarrow> rel_pc (refers (snd (ref_step env pc h))) u u'"
  by (erule pc.rel_mono_strong) (auto intro: refers_ref_step elim!: sum.rel_mono_strong)

text \<open>Schedules: the rule of \<open>Interleaving\<close> with the two step functions.\<close>

lemma exec_ref_simulates:
  assumes "corresponds abstracts (\<lambda>h. rel_pc (refers h)) rcfg cfg"
  shows "corresponds abstracts (\<lambda>h. rel_pc (refers h))
           (exec ref_step sched rcfg) (exec thread_step sched cfg)"
  using assms
  by (rule exec_simulation [rotated 2]) (simp_all add: ref_step_simulates rel_pc_ref_step)

lemma corresponds_start:
  "heap_inv h \<Longrightarrow> corresponds abstracts (\<lambda>h. rel_pc (refers h)) (start n h) (start n (abs_heap h))"
  by (simp add: corresponds_def abstracts_def list_all2_conv_all_nth)

section \<open>Progress\<close>

lemma steps_left_ref_step: "steps_left (fst (ref_step env pc h)) \<le> steps_left pc - 1"
  by (cases pc) (auto split: prod.splits sum.splits option.splits)

lemmas steps_left_ref_exec = measure_exec [of steps_left ref_step, OF steps_left_ref_step]

text \<open>A call allocates at most once, and only while it has not built.\<close>

lemma ref_step_builds:
  "length (objects (snd (ref_step env pc h))) + builds_left (fst (ref_step env pc h))
     \<le> length (objects h) + builds_left pc"
proof (cases pc)
  case AtBuild
  then show ?thesis
    by (cases "build_backend env (length (objects h))") (simp_all add: build_ref_Inl build_ref_Inr)
qed (simp_all split: option.splits)

lemmas builds_ref_exec =
  potential_exec [of "\<lambda>h. length (objects h)" ref_step builds_left, OF ref_step_builds]

section \<open>What carries over from values\<close>

text \<open>
  The read of \<^verbatim>\<open>_cached\<close> for the result (line 53) cannot fail over the store
  either: by the simulation a thread at the read stands at the read over values,
  where the invariant of \<open>Loader_Threads\<close> says that the attribute is set.
\<close>

lemma store_read_finds_attribute:
  assumes "heap_inv h" and "loader_inv (abs_heap h)" and "i < n"
    and "threads (exec ref_step sched (start n h)) ! i = AtReturn"
  shows "cached_ref (shared (exec ref_step sched (start n h))) \<noteq> None"
proof -
  let ?r = "exec ref_step sched (start n h)" and ?v = "exec thread_step sched (start n (abs_heap h))"
  from exec_ref_simulates [OF corresponds_start [OF assms(1)], of sched n]
  have abs: "abs_heap (shared ?r) = shared ?v"
    and rel: "list_all2 (rel_pc (refers (shared ?r))) (threads ?r) (threads ?v)"
    by (simp_all add: corresponds_def abstracts_def)
  from list_all2_nthD [OF rel, of i] assms(3,4) have "threads ?v ! i = AtReturn"
    by (cases "threads ?v ! i") simp_all
  moreover from system_inv_exec [OF system_inv_start [OF assms(2)], of sched n] assms(3)
  have "pc_inv (shared ?v) (threads ?v ! i)"
    by (simp add: system_inv_def list_all_length)
  ultimately have "cached (abs_heap (shared ?r)) \<noteq> None" by (simp add: abs)
  then show ?thesis by (auto simp: abs_heap_def split: option.splits)
qed

text \<open>No handle dangles: an address that a call returned refers to a complete namespace.\<close>

lemma returned_address_refers:
  assumes "heap_inv h" and "i < n"
    and "threads (exec ref_step sched (start n h)) ! i = Done (Inr a)"
  shows "\<exists>b. backend_at (shared (exec ref_step sched (start n h))) a = Some b"
proof -
  let ?r = "exec ref_step sched (start n h)" and ?v = "exec thread_step sched (start n (abs_heap h))"
  from exec_ref_simulates [OF corresponds_start [OF assms(1)], of sched n]
  have "list_all2 (rel_pc (refers (shared ?r))) (threads ?r) (threads ?v)"
    by (simp add: corresponds_def)
  from list_all2_nthD [OF this, of i] assms(2,3) show ?thesis
    by (cases "threads ?v ! i") (auto simp: refers_def elim: rel_sum.cases)
qed

section \<open>The race over the store\<close>

text \<open>In lockstep every call builds.\<close>

lemma exec_lockstep:
  assumes "build_backend env 0 = Inr b"
  shows "exec ref_step (lockstep n env) (start n init_heap) =
           \<lparr>threads = map AtStore [0 ..< n],
            shared = \<lparr>objects = replicate n (namespace_of b), cached_ref = None, heap_log = []\<rparr>\<rparr>"
proof -
  let ?s = "\<lambda>j. \<lparr>objects = replicate j (namespace_of b), cached_ref = None, heap_log = []\<rparr>"
  have "exec ref_step (sweep n env) \<lparr>threads = replicate n AtCheck, shared = init_heap\<rparr> =
      \<lparr>threads = map (\<lambda>j. AtBuild) [0 ..< n] @ replicate (n - n) AtCheck, shared = init_heap\<rparr>"
    using exec_sweep [of n ref_step env AtCheck "\<lambda>j. init_heap" "\<lambda>j. AtBuild" n]
    by (simp add: init_heap_def)
  moreover have "exec ref_step (sweep n env) \<lparr>threads = replicate n AtBuild, shared = ?s 0\<rparr> =
      \<lparr>threads = map AtStore [0 ..< n] @ replicate (n - n) AtBuild, shared = ?s n\<rparr>"
    using build_backend_shift [OF assms]
    by (intro exec_sweep) (simp_all add: build_ref_Inr replicate_append_same)
  ultimately show ?thesis
    by (simp add: lockstep_def start_def init_heap_def map_replicate_const)
qed



lemma abs_heap_init [simp]: "abs_heap init_heap = init_loader"
  by (simp add: abs_heap_def init_heap_def init_loader_def)

lemma build_example_darwin_0: "build_backend example_darwin 0 = Inr example_backend"
  by (simp add: example_backend_def)

lemma namespace_of_example:
  "namespace_of example_backend =
     [(''initialize_mlx'', 1), (''mlx_force_oom'', 2), (''mlx_generate'', 3), (''warmup_inference'', 4)]"
  by (simp add: namespace_of_def example_backend_def)

text \<open>Both calls allocate; the attribute keeps the address assigned last.\<close>

lemma exec_race_ref:
  assumes "build_backend env 0 = Inr b"
  shows "exec ref_step (race env) (start 2 init_heap) =
           \<lparr>threads = [Done (Inr 0), Done (Inr 1)],
            shared = \<lparr>objects = [namespace_of b, namespace_of b], cached_ref = Some 1, heap_log = []\<rparr>\<rparr>"
  using assms build_backend_shift [OF assms, of "Suc 0"]
  by (simp add: sched_step_def race_def start_2 init_heap_def build_ref_Inr)

lemma raced_eq:
  "build_backend env 0 = Inr b \<Longrightarrow>
   raced env = \<lparr>objects = [namespace_of b, namespace_of b], cached_ref = Some 1, heap_log = []\<rparr>"
  by (simp add: raced_def exec_race_ref)

lemma first_writes_example:
  "first_writes example_darwin ''mlx_generate'' 99 =
     \<lparr>objects = [[(''initialize_mlx'', 1), (''mlx_force_oom'', 2), (''mlx_generate'', 99),
                  (''warmup_inference'', 4)],
                 [(''initialize_mlx'', 1), (''mlx_force_oom'', 2), (''mlx_generate'', 3),
                  (''warmup_inference'', 4)]],
      cached_ref = Some 1, heap_log = []\<rparr>"
  by (simp add: first_writes_def raced_eq [OF build_example_darwin_0] namespace_of_example
      setattr_at_def present_def)

section \<open>Properties of concurrent calls over the store\<close>

text \<open>
  C21 (bounds). How often concurrent first calls build. Under every schedule and
  whatever the hosts answer, \<open>n\<close> calls that start on an empty store allocate
  at most \<open>n\<close> namespaces, one for each call; and the bound is attained: on a
  host on which resolution succeeds, \<open>n\<close> calls in lockstep allocate \<open>n\<close>
  namespaces, each call holding its own. So the number of initialisations is
  bounded by the number of concurrent callers only, and not by one.
\<close>

theorem racing_calls_build_once_each:
  assumes "build_backend env 0 = Inr b"
  shows "length (objects (shared (exec ref_step sched (start n init_heap)))) \<le> n \<and>
         length (objects (shared (exec ref_step (lockstep n env) (start n init_heap)))) = n \<and>
         threads (exec ref_step (lockstep n env) (start n init_heap)) = map AtStore [0 ..< n]"
proof -
  from builds_ref_exec [of sched "start n init_heap"]
  have "length (objects (shared (exec ref_step sched (start n init_heap)))) \<le> n"
    by (simp add: init_heap_def sum_list_replicate)
  then show ?thesis by (simp add: exec_lockstep [OF assms])
qed

theorem racing_calls_build_once_each_witness:
  "length (objects (shared (exec ref_step (race example_darwin) (start 3 init_heap)))) \<le> 3 \<and>
   length (objects (shared (exec ref_step (lockstep 3 example_darwin) (start 3 init_heap)))) = 3 \<and>
   threads (exec ref_step (lockstep 3 example_darwin) (start 3 init_heap)) =
     [AtStore 0, AtStore 1, AtStore 2]"
  using racing_calls_build_once_each [OF build_example_darwin_0, of "race example_darwin" 3]
  by (simp add: upt_rec)

text \<open>
  C12 (safety). The race of two first calls can break the sharing of the handle.
  On any host on which resolution succeeds, after the two calls have run under
  the schedule \<open>race\<close> of \<open>Loader_Threads\<close> (both test the attribute before
  either assigns it, the first returns before the second assigns) the first
  caller holds object 0 and the second object 1, and the cache refers to
  object 1. When the first caller then assigns to an attribute of its handle,
  the assignment takes effect on object 0 only: every later call, on any host,
  returns object 1, whose attribute is still the entry point that was
  resolved. What the first caller configures, no other caller ever sees.
\<close>

theorem racing_write_is_lost:
  assumes "build_backend env 0 = Inr b"
  shows "threads (exec ref_step (race env) (start 2 init_heap)) = [Done (Inr 0), Done (Inr 1)] \<and>
         run_refs envs (first_writes env name v) =
           (replicate (length envs) (Inr 1), first_writes env name v) \<and>
         getattr_at (first_writes env name v) 0 name = Some v \<and>
         getattr_at (first_writes env name v) 1 name = map_of (namespace_of b) name"
proof -
  let ?h = "raced env"
  have present: "present ?h 0" "present ?h 1"
    by (simp_all add: raced_eq [OF assms] present_def)
  have "cached_ref (first_writes env name v) = Some 1"
    by (simp add: first_writes_def setattr_at_def raced_eq [OF assms])
  moreover have "getattr_at ?h 1 name = map_of (namespace_of b) name"
    by (simp add: getattr_at_def present_def raced_eq [OF assms])
  ultimately show ?thesis
    using present by (simp add: exec_race_ref [OF assms] run_refs_cached first_writes_def)
qed

theorem racing_write_is_lost_witness:
  "threads (exec ref_step (race example_darwin) (start 2 init_heap)) = [Done (Inr 0), Done (Inr 1)] \<and>
   run_refs [example_linux, example_darwin] (first_writes example_darwin ''mlx_generate'' 99) =
     ([Inr 1, Inr 1], first_writes example_darwin ''mlx_generate'' 99) \<and>
   getattr_at (first_writes example_darwin ''mlx_generate'' 99) 0 ''mlx_generate'' = Some 99 \<and>
   getattr_at (first_writes example_darwin ''mlx_generate'' 99) 1 ''mlx_generate'' = Some 3"
  using racing_write_is_lost
    [OF build_example_darwin_0, of "[example_linux, example_darwin]" "''mlx_generate''" 99]
  by (simp add: namespace_of_example)

end
