(* ===== verification/Py_Control.thy ===== *)
theory Py_Control
  imports Exo_Prelude
begin

text \<open>
  The control flow the polling loops of \<^verbatim>\<open>profile.py\<close> are written in:
  statements that may raise or return early, \<^verbatim>\<open>try\<close> with \<^verbatim>\<open>except\<close>
  clauses and a \<^verbatim>\<open>finally\<close> block, and \<^verbatim>\<open>while True\<close>. An action is
  the outcome of running a piece of code together with the events it caused, in
  order: calls of collaborators, invocations of the sink, log entries and
  sleeps. The sleeps are also the clock of a trace: nothing else takes time.
  What the collaborators answer is not decided here; the loops take it
  from their environment. The type variable \<open>'p\<close> is the record handed to the
  sink, \<open>'e\<close> the environment of one iteration.
\<close>

section \<open>Outcomes, events and actions\<close>

datatype 'a outcome = Value 'a | Returned | Raised exn

datatype callee =
    GetMetrics | GetNetworkInterfaces | GetModelAndChip | GetFriendlyName | GetMemoryProfile

datatype 'p event =
    Called callee
  | Sink 'p
  | Logged log_entry
  | Slept real

type_synonym ('a, 'p) act = "'a outcome \<times> 'p event list"

definition outcome_of :: "'a result \<Rightarrow> 'a outcome" where
  "outcome_of r = (case r of Inl e \<Rightarrow> Raised e | Inr x \<Rightarrow> Value x)"

text \<open>A call of a collaborator, the awaited sink, a log entry, a sleep, an early return.\<close>

definition call_act :: "callee \<Rightarrow> 'a result \<Rightarrow> ('a, 'p) act" where
  "call_act c r = (outcome_of r, [Called c])"

definition sink_act :: "'p \<Rightarrow> unit result \<Rightarrow> (unit, 'p) act" where
  "sink_act p r = (outcome_of r, [Sink p])"

definition log_act :: "log_entry \<Rightarrow> (unit, 'p) act" where
  "log_act l = (Value (), [Logged l])"

definition sleep_act :: "real \<Rightarrow> unit result \<Rightarrow> (unit, 'p) act" where
  "sleep_act d r = (outcome_of r, [Slept d])"

definition return_act :: "('a, 'p) act" where
  "return_act = (Returned, [])"

section \<open>Sequencing, handlers and cleanup\<close>

text \<open>Statement after statement: what follows runs only after a normal completion.\<close>

definition bind_act :: "('a, 'p) act \<Rightarrow> ('a \<Rightarrow> ('b, 'p) act) \<Rightarrow> ('b, 'p) act" where
  "bind_act m f =
     (case fst m of
        Value x \<Rightarrow> (fst (f x), snd m @ snd (f x))
      | Returned \<Rightarrow> (Returned, snd m)
      | Raised e \<Rightarrow> (Raised e, snd m))"

text \<open>The first \<^verbatim>\<open>except\<close> clause whose class the exception is an instance of.\<close>

fun find_handler :: "exn \<Rightarrow> (exn_class \<times> 'h) list \<Rightarrow> 'h option" where
  "find_handler e [] = None"
| "find_handler e ((c, h) # hs) = (if isinstance e c then Some h else find_handler e hs)"

text \<open>
  \<^verbatim>\<open>try: body except C1 as e: h1 except C2 as e: h2\<close>. An exception raised by a
  handler is not offered to the other clauses.
\<close>

definition try_except ::
  "('a, 'p) act \<Rightarrow> (exn_class \<times> (exn \<Rightarrow> ('a, 'p) act)) list \<Rightarrow> ('a, 'p) act" where
  "try_except body handlers =
     (case fst body of
        Raised e \<Rightarrow>
          (case find_handler e handlers of
             None \<Rightarrow> body
           | Some h \<Rightarrow> (fst (h e), snd body @ snd (h e)))
      | _ \<Rightarrow> body)"

text \<open>
  \<^verbatim>\<open>try: body finally: cleanup\<close>. The cleanup runs whatever the body did; when it
  completes normally the body's outcome stands (a value, a pending return or a
  pending exception), otherwise the cleanup's own exception or return replaces it.
\<close>

definition try_finally :: "('a, 'p) act \<Rightarrow> (unit, 'p) act \<Rightarrow> ('a, 'p) act" where
  "try_finally body cleanup =
     (case fst cleanup of
        Value u \<Rightarrow> (fst body, snd body @ snd cleanup)
      | Returned \<Rightarrow> (Returned, snd body @ snd cleanup)
      | Raised e \<Rightarrow> (Raised e, snd body @ snd cleanup))"

section \<open>The loop\<close>

text \<open>
  A loop is running, has returned, or has let an exception escape (which is also
  how the cancellation of its task shows).
\<close>

datatype loop_status = Running | Stopped | Failed exn

record 'p loop_state =
  status :: loop_status
  trace :: "'p event list"
  iterations :: nat

definition init_loop :: "'p loop_state" where
  "init_loop = \<lparr>status = Running, trace = [], iterations = 0\<rparr>"

definition status_of :: "unit outcome \<Rightarrow> loop_status" where
  "status_of out = (case out of Value u \<Rightarrow> Running | Returned \<Rightarrow> Stopped | Raised e \<Rightarrow> Failed e)"

text \<open>One iteration of \<^verbatim>\<open>while True: body\<close> from a running loop.\<close>

definition iterate :: "('e \<Rightarrow> (unit, 'p) act) \<Rightarrow> 'e \<Rightarrow> 'p loop_state \<Rightarrow> 'p loop_state" where
  "iterate body env st =
     \<lparr>status = status_of (fst (body env)),
      trace = trace st @ snd (body env),
      iterations = Suc (iterations st)\<rparr>"

text \<open>
  \<^verbatim>\<open>while True: body\<close> against the infinite sequence \<open>envs\<close> of what the world
  does in each iteration. The loop need not end: \<open>None\<close> is the loop that runs
  forever.
\<close>

partial_function (option) while_true ::
  "('e \<Rightarrow> (unit, 'p) act) \<Rightarrow> (nat \<Rightarrow> 'e) \<Rightarrow> 'p loop_state \<Rightarrow> 'p loop_state option" where
  "while_true body envs st =
     (if status st = Running
      then while_true body envs (iterate body (envs (iterations st)) st)
      else Some st)"

text \<open>
  The same loop cut off after \<open>n\<close> more iterations: the state in which an observer
  finds it then.
\<close>

fun run_for :: "nat \<Rightarrow> ('e \<Rightarrow> (unit, 'p) act) \<Rightarrow> (nat \<Rightarrow> 'e) \<Rightarrow> 'p loop_state \<Rightarrow> 'p loop_state" where
  "run_for 0 body envs st = st"
| "run_for (Suc n) body envs st =
     (if status st = Running
      then run_for n body envs (iterate body (envs (iterations st)) st)
      else st)"

section \<open>What a trace holds\<close>

definition sinks :: "'p event list \<Rightarrow> 'p list" where
  "sinks es = List.map_filter (\<lambda>ev. case ev of Sink p \<Rightarrow> Some p | _ \<Rightarrow> None) es"

definition sleeps :: "'p event list \<Rightarrow> real list" where
  "sleeps es = List.map_filter (\<lambda>ev. case ev of Slept d \<Rightarrow> Some d | _ \<Rightarrow> None) es"

definition logs :: "'p event list \<Rightarrow> log_entry list" where
  "logs es = List.map_filter (\<lambda>ev. case ev of Logged l \<Rightarrow> Some l | _ \<Rightarrow> None) es"

definition calls :: "'p event list \<Rightarrow> callee list" where
  "calls es = List.map_filter (\<lambda>ev. case ev of Called c \<Rightarrow> Some c | _ \<Rightarrow> None) es"

text \<open>
  Time enters through the sleeps only: everything else in a trace is taken to be
  instantaneous. The number of sink invocations of a trace that happen within
  the first \<open>T\<close> seconds.
\<close>

fun sinks_within :: "real \<Rightarrow> 'p event list \<Rightarrow> nat" where
  "sinks_within T [] = 0"
| "sinks_within T (Slept d # es) = (if d \<le> T then sinks_within (T - d) es else 0)"
| "sinks_within T (Sink p # es) = Suc (sinks_within T es)"
| "sinks_within T (Called c # es) = sinks_within T es"
| "sinks_within T (Logged l # es) = sinks_within T es"

text \<open>
  A trace is paced when a sleep lies between any two invocations of the sink; the
  flag says whether the sink may be invoked before the next sleep.
\<close>

fun paced :: "bool \<Rightarrow> 'p event list \<Rightarrow> bool" where
  "paced ok [] = True"
| "paced ok (Sink p # es) = (ok \<and> paced False es)"
| "paced ok (Slept d # es) = paced True es"
| "paced ok (Called c # es) = paced ok es"
| "paced ok (Logged l # es) = paced ok es"

section \<open>Facts on the combinators\<close>

named_theorems act_simps "evaluation of actions"

lemma outcome_of_simps [simp, act_simps]:
  "outcome_of (Inl e) = Raised e" "outcome_of (Inr x) = Value x"
  by (simp_all add: outcome_of_def)

lemma basic_act_simps [simp, act_simps]:
  "call_act c r = (outcome_of r, [Called c])"
  "sink_act p u = (outcome_of u, [Sink p])"
  "log_act l = (Value (), [Logged l])"
  "sleep_act d u = (outcome_of u, [Slept d])"
  "return_act = (Returned, [])"
  by (simp_all add: call_act_def sink_act_def log_act_def sleep_act_def return_act_def)

lemma bind_act_simps [simp, act_simps]:
  "bind_act (Value x, es) f = (fst (f x), es @ snd (f x))"
  "bind_act (Returned, es) f = (Returned, es)"
  "bind_act (Raised e, es) f = (Raised e, es)"
  by (simp_all add: bind_act_def)

lemma try_except_simps [simp, act_simps]:
  "try_except (Value x, es) hs = (Value x, es)"
  "try_except (Returned, es) hs = (Returned, es)"
  "try_except (Raised e, es) hs =
     (case find_handler e hs of
        None \<Rightarrow> (Raised e, es)
      | Some h \<Rightarrow> (fst (h e), es @ snd (h e)))"
  by (simp_all add: try_except_def split: option.splits)

lemma try_finally_simps [simp, act_simps]:
  "try_finally body (Value u, es) = (fst body, snd body @ es)"
  "try_finally body (Returned, es) = (Returned, snd body @ es)"
  "try_finally body (Raised e, es) = (Raised e, snd body @ es)"
  by (simp_all add: try_finally_def)

lemma snd_try_finally: "snd (try_finally body cleanup) = snd body @ snd cleanup"
  by (simp add: try_finally_def split: outcome.splits)

lemma fst_try_finally_Value: "fst cleanup = Value u \<Longrightarrow> fst (try_finally body cleanup) = fst body"
  by (simp add: try_finally_def)

lemma bind_act_assoc: "bind_act (bind_act m f) g = bind_act m (\<lambda>x. bind_act (f x) g)"
  by (cases m; cases "fst m") (auto simp: bind_act_def split: outcome.splits)

lemma bind_act_unit_left: "bind_act (Value x, []) f = f x"
  by simp

lemma bind_act_unit_right: "bind_act m (\<lambda>x. (Value x, [])) = m"
  by (cases m; cases "fst m") (auto simp: bind_act_def)

text \<open>The clause that takes an exception, in terms of the order of the classes.\<close>

lemma find_handler_find:
  "find_handler e hs = map_option snd (find (\<lambda>h. exn_cls e \<le> fst h) hs)"
  by (induction hs) (auto simp: isinstance_le)

lemma find_handler_None_iff: "find_handler e hs = None \<longleftrightarrow> (\<forall>h \<in> set hs. \<not> exn_cls e \<le> fst h)"
  by (induction hs) (auto simp: isinstance_le split: if_splits)

lemma find_handler_append:
  "find_handler e (hs @ hs') =
     (case find_handler e hs of None \<Rightarrow> find_handler e hs' | Some h \<Rightarrow> Some h)"
  by (induction hs) auto

text \<open>A clause behind a clause for a superclass is dead.\<close>

lemma find_handler_shadowed:
  assumes "c \<le> d"
  shows "find_handler e (hs @ (d, h) # hs' @ (c, h') # hs'') =
         find_handler e (hs @ (d, h) # hs' @ hs'')"
proof (cases "isinstance e d")
  case True
  then show ?thesis by (simp add: find_handler_append split: option.splits)
next
  case False
  with assms have "\<not> isinstance e c" by (auto dest: isinstance_mono)
  with False show ?thesis by (simp add: find_handler_append split: option.splits)
qed

text \<open>Two clauses that cannot both take the exception can be swapped.\<close>

lemma find_handler_swap:
  assumes "\<not> (exn_cls e \<le> c \<and> exn_cls e \<le> d)"
  shows "find_handler e ((c, h) # (d, h') # hs) = find_handler e ((d, h') # (c, h) # hs)"
  using assms by (auto simp: isinstance_le)

lemma try_except_no_handlers [simp]: "try_except body [] = body"
  by (cases body; cases "fst body") (auto simp: try_except_def)

lemma status_of_simps [simp]:
  "status_of (Value u) = Running" "status_of Returned = Stopped" "status_of (Raised e) = Failed e"
  by (simp_all add: status_of_def)

lemma status_of_Running [simp]: "status_of out = Running \<longleftrightarrow> (\<exists>u. out = Value u)"
  by (cases out) auto

lemma projections_Nil [simp]: "sinks [] = []" "sleeps [] = []" "logs [] = []" "calls [] = []"
  by (simp_all add: sinks_def sleeps_def logs_def calls_def)

lemma projections_append [simp]:
  "sinks (es @ es') = sinks es @ sinks es'"
  "sleeps (es @ es') = sleeps es @ sleeps es'"
  "logs (es @ es') = logs es @ logs es'"
  "calls (es @ es') = calls es @ calls es'"
  by (simp_all add: sinks_def sleeps_def logs_def calls_def)

lemma sinks_Cons [simp]:
  "sinks (Sink p # es) = p # sinks es" "sinks (Called c # es) = sinks es"
  "sinks (Logged l # es) = sinks es" "sinks (Slept d # es) = sinks es"
  by (simp_all add: sinks_def)

lemma sleeps_Cons [simp]:
  "sleeps (Slept d # es) = d # sleeps es" "sleeps (Called c # es) = sleeps es"
  "sleeps (Logged l # es) = sleeps es" "sleeps (Sink p # es) = sleeps es"
  by (simp_all add: sleeps_def)

lemma logs_Cons [simp]:
  "logs (Logged l # es) = l # logs es" "logs (Called c # es) = logs es"
  "logs (Slept d # es) = logs es" "logs (Sink p # es) = logs es"
  by (simp_all add: logs_def)

lemma calls_Cons [simp]:
  "calls (Called c # es) = c # calls es" "calls (Logged l # es) = calls es"
  "calls (Slept d # es) = calls es" "calls (Sink p # es) = calls es"
  by (simp_all add: calls_def)

section \<open>Facts on the loop\<close>

lemma iterate_simps [simp]:
  "status (iterate body env st) = status_of (fst (body env))"
  "trace (iterate body env st) = trace st @ snd (body env)"
  "iterations (iterate body env st) = Suc (iterations st)"
  by (simp_all add: iterate_def)

lemma run_for_stopped [simp]: "status st \<noteq> Running \<Longrightarrow> run_for n body envs st = st"
  by (cases n) auto

lemma run_for_Suc_Running:
  "status st = Running \<Longrightarrow>
   run_for (Suc n) body envs st = run_for n body envs (iterate body (envs (iterations st)) st)"
  by simp

lemma run_for_add: "run_for (m + n) body envs st = run_for n body envs (run_for m body envs st)"
  by (induction m arbitrary: st) auto

lemma run_for_Suc_end:
  "run_for (Suc n) body envs st = run_for (Suc 0) body envs (run_for n body envs st)"
  using run_for_add [of n "Suc 0" body envs st] by simp

lemma run_for_Suc_last:
  "run_for (Suc n) body envs st =
     (if status (run_for n body envs st) = Running
      then iterate body (envs (iterations (run_for n body envs st))) (run_for n body envs st)
      else run_for n body envs st)"
  by (simp add: run_for_Suc_end [of n] del: run_for.simps(2)) simp

lemma run_for_iterations_le: "iterations (run_for n body envs st) \<le> iterations st + n"
proof (induction n arbitrary: st)
  case 0
  then show ?case by simp
next
  case (Suc n)
  show ?case
  proof (cases "status st = Running")
    case True
    with Suc.IH [of "iterate body (envs (iterations st)) st"] show ?thesis by simp
  next
    case False
    then show ?thesis by simp
  qed
qed

lemma run_for_Running_iterations:
  "status (run_for n body envs st) = Running \<Longrightarrow> iterations (run_for n body envs st) = iterations st + n"
proof (induction n arbitrary: st)
  case 0
  then show ?case by simp
next
  case (Suc n)
  then show ?case by (cases "status st = Running") auto
qed

lemma run_for_Running_before:
  "status (run_for n body envs st) = Running \<Longrightarrow> m \<le> n \<Longrightarrow> status (run_for m body envs st) = Running"
proof (rule ccontr)
  assume run: "status (run_for n body envs st) = Running" and le: "m \<le> n"
    and stop: "status (run_for m body envs st) \<noteq> Running"
  from le obtain k where "n = m + k" by (auto simp: le_iff_add)
  with stop have "run_for n body envs st = run_for m body envs st" by (simp add: run_for_add)
  with run stop show False by simp
qed

lemma run_for_final:
  "status (run_for m body envs st) \<noteq> Running \<Longrightarrow> m \<le> n \<Longrightarrow> run_for n body envs st = run_for m body envs st"
  by (auto simp: le_iff_add run_for_add)

lemma run_for_trace_prefix: "\<exists>es. trace (run_for n body envs st) = trace st @ es"
proof (induction n arbitrary: st)
  case 0
  then show ?case by simp
next
  case (Suc n)
  show ?case
  proof (cases "status st = Running")
    case True
    from Suc.IH [of "iterate body (envs (iterations st)) st"] True show ?thesis by auto
  next
    case False
    then show ?thesis by simp
  qed
qed

lemma while_true_stopped [simp]: "status st \<noteq> Running \<Longrightarrow> while_true body envs st = Some st"
  by (subst while_true.simps) simp

lemma while_true_Running:
  "status st = Running \<Longrightarrow>
   while_true body envs st = while_true body envs (iterate body (envs (iterations st)) st)"
  by (subst while_true.simps) simp

lemma while_true_run_for: "while_true body envs (run_for n body envs st) = while_true body envs st"
proof (induction n arbitrary: st)
  case 0
  then show ?case by simp
next
  case (Suc n)
  show ?case
  proof (cases "status st = Running")
    case True
    then show ?thesis by (simp add: Suc.IH while_true_Running [symmetric])
  next
    case False
    then show ?thesis by simp
  qed
qed

lemma while_true_Some_run_for:
  assumes "while_true body envs st = Some st'"
  shows "\<exists>n. run_for n body envs st = st' \<and> status st' \<noteq> Running"
proof (rule while_true.raw_induct
    [where P = "\<lambda>body envs st st'. \<exists>n. run_for n body envs st = st' \<and> status st' \<noteq> Running",
     OF _ assms])
  fix f body envs st st'
  assume IH: "\<And>body envs st st'. f body envs st = Some st' \<Longrightarrow>
      \<exists>n. run_for n body envs st = st' \<and> status st' \<noteq> Running"
    and eq: "(if status st = Running then f body envs (iterate body (envs (iterations st)) st)
             else Some st) = Some st'"
  show "\<exists>n. run_for n body envs st = st' \<and> status st' \<noteq> Running"
  proof (cases "status st = Running")
    case True
    with eq have "f body envs (iterate body (envs (iterations st)) st) = Some st'" by simp
    then obtain n where "run_for n body envs (iterate body (envs (iterations st)) st) = st'"
      and "status st' \<noteq> Running" using IH by blast
    with True have "run_for (Suc n) body envs st = st' \<and> status st' \<noteq> Running" by simp
    then show ?thesis ..
  next
    case False
    with eq have "run_for 0 body envs st = st' \<and> status st' \<noteq> Running" by auto
    then show ?thesis ..
  qed
qed

lemma while_true_Some_iff:
  "while_true body envs st = Some st' \<longleftrightarrow>
     (\<exists>n. run_for n body envs st = st' \<and> status st' \<noteq> Running)"
proof
  assume "while_true body envs st = Some st'"
  then show "\<exists>n. run_for n body envs st = st' \<and> status st' \<noteq> Running"
    by (rule while_true_Some_run_for)
next
  assume "\<exists>n. run_for n body envs st = st' \<and> status st' \<noteq> Running"
  then obtain n where n: "run_for n body envs st = st'" and stop: "status st' \<noteq> Running" by blast
  have "while_true body envs st = while_true body envs (run_for n body envs st)"
    by (simp add: while_true_run_for)
  with n stop show "while_true body envs st = Some st'" by simp
qed

lemma while_true_None_iff:
  "while_true body envs st = None \<longleftrightarrow> (\<forall>n. status (run_for n body envs st) = Running)"
proof
  assume none: "while_true body envs st = None"
  show "\<forall>n. status (run_for n body envs st) = Running"
  proof (rule ccontr)
    assume "\<not> (\<forall>n. status (run_for n body envs st) = Running)"
    then obtain n where "status (run_for n body envs st) \<noteq> Running" by blast
    then have "while_true body envs st = Some (run_for n body envs st)"
      by (auto simp: while_true_Some_iff)
    with none show False by simp
  qed
next
  assume run: "\<forall>n. status (run_for n body envs st) = Running"
  show "while_true body envs st = None"
  proof (cases "while_true body envs st")
    case None
    then show ?thesis .
  next
    case (Some st')
    then obtain n where "run_for n body envs st = st'" "status st' \<noteq> Running"
      by (auto simp: while_true_Some_iff)
    with run show ?thesis by auto
  qed
qed

section \<open>Statements and runs as a whole\<close>

lemma fst_sleep_act [simp]: "fst (sleep_act d r) = outcome_of r"
  by simp

lemma snd_try_except:
  "snd (try_except body hs) =
     snd body @ (case fst body of
                   Raised e \<Rightarrow> (case find_handler e hs of None \<Rightarrow> [] | Some h \<Rightarrow> snd (h e))
                 | _ \<Rightarrow> [])"
  by (cases body; cases "fst body") (auto split: option.splits)

lemma fst_try_except:
  "fst (try_except body hs) =
     (case fst body of
        Raised e \<Rightarrow> (case find_handler e hs of None \<Rightarrow> Raised e | Some h \<Rightarrow> fst (h e))
      | out \<Rightarrow> out)"
  by (cases body; cases "fst body") (auto split: option.splits)

lemma fst_try_finally:
  "fst (try_finally body cleanup) =
     (case fst cleanup of Value u \<Rightarrow> fst body | Returned \<Rightarrow> Returned | Raised e \<Rightarrow> Raised e)"
  by (simp add: try_finally_def split: outcome.splits)

text \<open>The sleep of a \<^verbatim>\<open>finally\<close> block is the last event of the statement, and the only sleep
  when the block itself does not sleep.\<close>

lemma try_finally_sleep_last:
  "snd (try_finally body (sleep_act d r)) = snd body @ [Slept d]"
  by (simp add: snd_try_finally)

lemma run_for_values:
  assumes "\<forall>k < n. fst (body (envs (iterations st + k))) = Value ()"
    and "status st = Running"
  shows "run_for n body envs st =
           \<lparr>status = Running,
            trace = trace st @ concat (map (\<lambda>k. snd (body (envs k))) [iterations st ..< iterations st + n]),
            iterations = iterations st + n\<rparr>"
  using assms
proof (induction n arbitrary: st)
  case 0
  then show ?case by simp
next
  case (Suc n)
  let ?st = "iterate body (envs (iterations st)) st"
  from Suc.prems(1) have first: "fst (body (envs (iterations st))) = Value ()"
    by (metis add.right_neutral zero_less_Suc)
  have "run_for n body envs ?st =
      \<lparr>status = Running,
       trace = trace ?st @ concat (map (\<lambda>k. snd (body (envs k))) [iterations ?st ..< iterations ?st + n]),
       iterations = iterations ?st + n\<rparr>"
  proof (rule Suc.IH)
    show "\<forall>k<n. fst (body (envs (iterations ?st + k))) = Value ()"
      using Suc.prems(1) by (metis Suc_less_eq add_Suc_shift iterate_simps(3))
    show "status ?st = Running" using first by simp
  qed
  with Suc.prems(2) show ?case by (simp add: upt_rec [of "iterations st"])
qed

lemma while_true_forever:
  assumes "\<forall>k. fst (body (envs k)) = Value ()"
  shows "while_true body envs init_loop = None"
proof -
  have "status (run_for n body envs init_loop) = Running" for n
    using run_for_values [of n body envs init_loop] assms by (simp add: init_loop_def)
  then show ?thesis by (simp add: while_true_None_iff)
qed

lemma while_true_first_stop:
  assumes "\<forall>k < K. fst (body (envs k)) = Value ()"
    and "fst (body (envs K)) \<noteq> Value ()"
  shows "while_true body envs init_loop =
           Some \<lparr>status = status_of (fst (body (envs K))),
                 trace = concat (map (\<lambda>k. snd (body (envs k))) [0 ..< Suc K]),
                 iterations = Suc K\<rparr>"
proof -
  let ?st = "run_for K body envs init_loop"
  have st: "?st = \<lparr>status = Running, trace = concat (map (\<lambda>k. snd (body (envs k))) [0 ..< K]),
      iterations = K\<rparr>"
    using run_for_values [of K body envs init_loop] assms(1) by (simp add: init_loop_def)
  have "while_true body envs init_loop = while_true body envs ?st"
    by (simp add: while_true_run_for)
  also have "\<dots> = while_true body envs (iterate body (envs K) ?st)"
    using st by (simp add: while_true_Running)
  also have "\<dots> = Some (iterate body (envs K) ?st)"
    using assms(2) by (intro while_true_stopped) simp
  finally show ?thesis using st by (simp add: iterate_def)
qed

lemma while_true_None_values:
  assumes "while_true body envs init_loop = None"
  shows "fst (body (envs k)) = Value ()"
proof (rule ccontr)
  assume "fst (body (envs k)) \<noteq> Value ()"
  then have ex: "\<exists>k. fst (body (envs k)) \<noteq> Value ()" ..
  define K where "K = (LEAST k. fst (body (envs k)) \<noteq> Value ())"
  from ex have "fst (body (envs K)) \<noteq> Value ()" unfolding K_def by (rule LeastI_ex)
  moreover have "\<forall>k < K. fst (body (envs k)) = Value ()"
    unfolding K_def using not_less_Least by blast
  ultimately have "while_true body envs init_loop \<noteq> None"
    by (simp add: while_true_first_stop)
  with assms show False by simp
qed

lemma while_true_None_iff_values:
  "while_true body envs init_loop = None \<longleftrightarrow> (\<forall>k. fst (body (envs k)) = Value ())"
  using while_true_forever while_true_None_values by blast

lemma outcome_of_eq_Value [simp]: "outcome_of r = Value x \<longleftrightarrow> r = Inr x"
  by (cases r) auto

lemma outcome_of_eq_Raised [simp]: "outcome_of r = Raised e \<longleftrightarrow> r = Inl e"
  by (cases r) auto

lemma outcome_of_not_Returned [simp]: "outcome_of r \<noteq> Returned"
  by (cases r) auto

lemma sinks_map_Called [simp]: "sinks (map Called cs) = []"
  by (induction cs) auto

lemma sleeps_map_Called [simp]: "sleeps (map Called cs) = []"
  by (induction cs) auto

lemma logs_map_Called [simp]: "logs (map Called cs) = []"
  by (induction cs) auto

lemma calls_map_Called [simp]: "calls (map Called cs) = cs"
  by (induction cs) auto

text \<open>Projections of the trace of a whole run.\<close>

lemma sinks_concat: "sinks (concat ess) = concat (map sinks ess)"
  by (induction ess) auto

lemma sleeps_concat: "sleeps (concat ess) = concat (map sleeps ess)"
  by (induction ess) auto

lemma logs_concat: "logs (concat ess) = concat (map logs ess)"
  by (induction ess) auto

lemma concat_map_const_singleton: "concat (map (\<lambda>k. [c]) xs) = replicate (length xs) c"
  by (induction xs) auto

lemma length_concat_le:
  "\<forall>xs \<in> set xss. length xs \<le> 1 \<Longrightarrow> length (concat xss) \<le> length xss"
  by (induction xss) auto

lemma projections_map_Logged [simp]:
  "sinks (map Logged l) = []" "calls (map Logged l) = []" "sleeps (map Logged l) = []"
  by (induction l) auto

section \<open>The loop and its finite runs\<close>

text \<open>
  \<^verbatim>\<open>while True\<close> is decided by its finite runs: if some iteration does not
  complete normally, the loop ends in the state reached by running up to and
  including the first such iteration; otherwise it never returns.
\<close>

lemma while_true_decided_by_first_stop:
  "while_true body envs init_loop =
     (if \<exists>k. fst (body (envs k)) \<noteq> Value ()
      then Some (run_for (Suc (LEAST k. fst (body (envs k)) \<noteq> Value ())) body envs init_loop)
      else None)"
proof (cases "\<exists>k. fst (body (envs k)) \<noteq> Value ()")
  case True
  define K where "K = (LEAST k. fst (body (envs k)) \<noteq> Value ())"
  from True have stop: "fst (body (envs K)) \<noteq> Value ()" unfolding K_def by (rule LeastI_ex)
  have before: "\<forall>k < K. fst (body (envs k)) = Value ()"
    unfolding K_def using not_less_Least by blast
  have at_K: "run_for K body envs init_loop =
      \<lparr>status = Running, trace = concat (map (\<lambda>k. snd (body (envs k))) [0 ..< K]), iterations = K\<rparr>"
    using run_for_values [of K body envs init_loop] before by (simp add: init_loop_def)
  have "run_for (Suc K) body envs init_loop =
      run_for (Suc 0) body envs (run_for K body envs init_loop)"
    by (rule run_for_Suc_end)
  also have "\<dots> = \<lparr>status = status_of (fst (body (envs K))),
       trace = concat (map (\<lambda>k. snd (body (envs k))) [0 ..< Suc K]), iterations = Suc K\<rparr>"
    unfolding at_K by (simp add: iterate_def)
  finally show ?thesis
    using while_true_first_stop [of K body envs, OF before stop] True by (simp add: K_def)
next
  case False
  then show ?thesis by (simp add: while_true_forever)
qed

section \<open>The trace of a run, iteration by iteration\<close>

lemma run_for_trace:
  "trace (run_for n body envs init_loop) =
     concat (map (\<lambda>k. snd (body (envs k))) [0 ..< iterations (run_for n body envs init_loop)])"
proof (induction n)
  case 0
  show ?case by (simp add: init_loop_def)
next
  case (Suc n)
  show ?case
  proof (cases "status (run_for n body envs init_loop) = Running")
    case True
    with Suc show ?thesis by (simp add: run_for_Suc_last del: run_for.simps)
  next
    case False
    with Suc show ?thesis by (simp add: run_for_Suc_last del: run_for.simps)
  qed
qed

lemma paced_Called [simp]: "paced ok (map Called cs @ es) = paced ok es"
  by (induction cs) simp_all

lemma paced_Logged [simp]: "paced ok (map Logged ls @ es) = paced ok es"
  by (induction ls) simp_all

lemma paced_concat:
  assumes "\<And>k rest. paced True (f k @ rest) = paced True rest"
  shows "paced True (concat (map f ks))"
  by (induction ks) (simp_all add: assms)

text \<open>What holds of the records of every iteration holds of the records of a run.\<close>

lemma list_all_concat_map: "\<forall>k \<in> set ks. list_all P (f k) \<Longrightarrow> list_all P (concat (map f ks))"
  by (induction ks) simp_all

lemma run_sinks_all:
  assumes "\<forall>k < n. list_all P (sinks (snd (body (envs k))))"
  shows "list_all P (sinks (trace (run_for n body envs init_loop)))"
proof -
  have "iterations (run_for n body envs init_loop) \<le> n"
    using run_for_iterations_le [of n body envs init_loop] by (simp add: init_loop_def)
  with assms have "\<forall>k \<in> set [0 ..< iterations (run_for n body envs init_loop)].
      list_all P (sinks (snd (body (envs k))))"
    by simp
  then show ?thesis
    by (simp add: run_for_trace sinks_concat comp_def list_all_concat_map)
qed

end
