(* ===== verification/Metrics_Model.thy ===== *)
theory Metrics_Model
  imports Exo_Prelude
begin

text \<open>
  The records that travel from the metrics sources to the sink. Their classes
  live outside the two source files (\<^verbatim>\<open>macmon\<close>,
  \<^verbatim>\<open>exo.shared.types.profiling\<close>); the fields are those the source files
  write and read. The fields of \<^verbatim>\<open>SystemPerformanceProfile\<close> carry the
  prefix \<open>sp_\<close> because four of them share their name with a field of
  \<^verbatim>\<open>Metrics\<close>. Watts, degrees and percentages are reals.
\<close>

record TempMetrics =
  cpu_temp_avg :: real
  gpu_temp_avg :: real

record Metrics =
  all_power :: real
  ane_power :: real
  cpu_power :: real
  ecpu_usage :: "int \<times> real"
  gpu_power :: real
  gpu_ram_power :: real
  gpu_usage :: "int \<times> real"
  pcpu_usage :: "int \<times> real"
  ram_power :: real
  sys_power :: real
  temp :: TempMetrics
  timestamp :: string

record SystemPerformanceProfile =
  sp_gpu_usage :: real
  sp_temp :: real
  sp_sys_power :: real
  sp_pcpu_usage :: real
  sp_ecpu_usage :: real
  sp_ane_power :: real

text \<open>
  The memory profile reports one ceiling in bytes: what the host detected, or the
  operator's override in place of it.
\<close>

record host_memory =
  detected_bytes :: int

record MemoryPerformanceProfile =
  memory_bytes :: int

record 'i NodePerformanceProfile =
  model_id :: string
  chip_id :: string
  friendly_name :: string
  network_interfaces :: "'i list"
  memory :: MemoryPerformanceProfile
  system :: SystemPerformanceProfile

text \<open>
  The projection of a sample onto the system profile that
  \<^verbatim>\<open>start_polling_node_metrics\<close> builds: the percentage of each usage pair,
  the GPU temperature, system and ANE power.
\<close>

definition system_profile :: "Metrics \<Rightarrow> SystemPerformanceProfile" where
  "system_profile metrics =
     \<lparr>sp_gpu_usage = snd (gpu_usage metrics),
      sp_temp = gpu_temp_avg (temp metrics),
      sp_sys_power = sys_power metrics,
      sp_pcpu_usage = snd (pcpu_usage metrics),
      sp_ecpu_usage = snd (ecpu_usage metrics),
      sp_ane_power = ane_power metrics\<rparr>"

text \<open>\<^verbatim>\<open>Memory.from_mb(n).in_bytes\<close>, with binary megabytes.\<close>

definition from_mb :: "int \<Rightarrow> int" where
  "from_mb mb = mb * 1024 * 1024"

text \<open>\<^verbatim>\<open>MemoryPerformanceProfile.from_psutil(override_memory=...)\<close>.\<close>

definition from_psutil :: "host_memory \<Rightarrow> int option \<Rightarrow> MemoryPerformanceProfile" where
  "from_psutil hm override_memory =
     \<lparr>memory_bytes = (case override_memory of None \<Rightarrow> detected_bytes hm | Some b \<Rightarrow> b)\<rparr>"

lemma from_psutil_simps [simp]:
  "from_psutil hm None = \<lparr>memory_bytes = detected_bytes hm\<rparr>"
  "from_psutil hm (Some b) = \<lparr>memory_bytes = b\<rparr>"
  by (simp_all add: from_psutil_def)

lemma from_mb_inject [simp]: "from_mb a = from_mb b \<longleftrightarrow> a = b"
  by (simp add: from_mb_def)

lemma from_mb_mono: "a \<le> b \<Longrightarrow> from_mb a \<le> from_mb b"
  by (simp add: from_mb_def)

end
