(* ===== verification/Generic_Metrics.thy ===== *)
theory Generic_Metrics
  imports Metrics_Model "HOL-Library.Multiset"
begin

text \<open>
  The metrics source adapter of \<^verbatim>\<open>src/exo/worker/utils/profile.py\<close>:
  \<^verbatim>\<open>get_metrics_async\<close> chooses between the native collaborator (macmon, on
  macOS) and the fallback \<^verbatim>\<open>_collect_generic_metrics\<close> built on psutil.
  What psutil and macmon answer on one call is an explicit environment. Each of
  the three psutil calls may raise; only the temperature read sits inside the
  \<^verbatim>\<open>try\<close> of the source. What \<^verbatim>\<open>sensors_temperatures\<close> returns is a
  well-formed dictionary of lists of readings: the iteration over it, which is
  inside the \<^verbatim>\<open>try\<close> as well, cannot raise in the model, and
  \<^verbatim>\<open>run_sync\<close> is the plain call of the function it is given.
\<close>

section \<open>The environment of one sample\<close>

text \<open>A temperature reading; of psutil's \<^verbatim>\<open>shwtemp\<close> the code reads \<^verbatim>\<open>current\<close> only.\<close>

record shwtemp =
  current :: "real option"

text \<open>
  \<^verbatim>\<open>psutil.sensors_temperatures\<close> answers with a dictionary from sensor group to
  readings; iteration follows insertion order, so it is an association list.
\<close>

type_synonym sensor_groups = "(string \<times> shwtemp list) list"

record psutil_env =
  cpu_percent :: "real result"
  cpu_count :: "int option result"
  sensors_temperatures :: "sensor_groups result"

record metrics_env = host +
  macmon_get_metrics_async :: "Metrics option result"
  psutil :: psutil_env

section \<open>Operations\<close>

text \<open>The comprehension over all groups and readings, keeping the readings that have a value.\<close>

definition flat_temps :: "sensor_groups \<Rightarrow> real list" where
  "flat_temps temps = concat (map (\<lambda>(group, readings). List.map_filter current readings) temps)"

text \<open>\<^verbatim>\<open>float(sum(flat_temps) / len(flat_temps)) if flat_temps else 0.0\<close>.\<close>

definition average_temp :: "real list \<Rightarrow> real" where
  "average_temp ts = (if ts \<noteq> [] then sum_list ts / real (length ts) else 0)"

text \<open>
  The \<^verbatim>\<open>try\<close> block around the temperature read: \<^verbatim>\<open>NotImplementedError\<close>
  and \<^verbatim>\<open>psutil.Error\<close> leave the average at its initial \<open>0.0\<close>; any other
  exception is not caught.
\<close>

definition read_avg_temp :: "sensor_groups result \<Rightarrow> real result" where
  "read_avg_temp r =
     (case r of
        Inl e \<Rightarrow>
          if isinstance e NotImplementedError \<or> isinstance e PsutilError then Inr 0 else Inl e
      | Inr temps \<Rightarrow> Inr (average_temp (flat_temps temps)))"

text \<open>\<^verbatim>\<open>psutil.cpu_count(logical=True) or 0\<close>: \<open>None\<close> and \<open>0\<close> are both falsy.\<close>

definition or_zero :: "int option \<Rightarrow> int" where
  "or_zero c = (case c of None \<Rightarrow> 0 | Some n \<Rightarrow> if n \<noteq> 0 then n else 0)"

definition generic_metrics :: "int \<Rightarrow> real \<Rightarrow> real \<Rightarrow> Metrics" where
  "generic_metrics logical_cpus cpu_pct avg_temp =
     \<lparr>all_power = 0, ane_power = 0, cpu_power = 0, ecpu_usage = (0, 0),
      gpu_power = 0, gpu_ram_power = 0, gpu_usage = (0, 0),
      pcpu_usage = (logical_cpus, cpu_pct), ram_power = 0, sys_power = 0,
      temp = \<lparr>cpu_temp_avg = avg_temp, gpu_temp_avg = avg_temp\<rparr>,
      timestamp = []\<rparr>"

definition collect_generic_metrics :: "psutil_env \<Rightarrow> Metrics result" where
  "collect_generic_metrics env =
     bind_result (cpu_percent env) (\<lambda>cpu_pct.
     bind_result (cpu_count env) (\<lambda>logical_cpus.
     bind_result (read_avg_temp (sensors_temperatures env)) (\<lambda>avg_temp.
     Inr (generic_metrics (or_zero logical_cpus) cpu_pct avg_temp))))"

text \<open>
  \<^verbatim>\<open>get_metrics_async\<close>: macmon's answer on macOS, which may be \<open>None\<close>;
  elsewhere the fallback, run on a worker thread and awaited, whose value or
  exception is handed through.
\<close>

definition get_metrics_async :: "metrics_env \<Rightarrow> Metrics option result" where
  "get_metrics_async env =
     (let system = lower (platform_system env) in
      if system = ''darwin'' then macmon_get_metrics_async env
      else bind_result (collect_generic_metrics (psutil env)) (\<lambda>m. Inr (Some m)))"

section \<open>What the fallback promises\<close>

text \<open>
  The contract of the fallback sampler: both temperatures are the arithmetic mean
  of the readings that carry a value, \<open>0\<close> without any; the CPU pair is the
  logical CPU count and the utilisation; everything else is zero or empty.
\<close>

definition spec_generic_metrics :: "int \<Rightarrow> real \<Rightarrow> real list \<Rightarrow> Metrics" where
  "spec_generic_metrics cpus pct readings =
     (let mean = (if readings = [] then 0 else sum_list readings / real (length readings)) in
      \<lparr>all_power = 0, ane_power = 0, cpu_power = 0, ecpu_usage = (0, 0),
       gpu_power = 0, gpu_ram_power = 0, gpu_usage = (0, 0),
       pcpu_usage = (cpus, pct), ram_power = 0, sys_power = 0,
       temp = \<lparr>cpu_temp_avg = mean, gpu_temp_avg = mean\<rparr>,
       timestamp = []\<rparr>)"

text \<open>The power fields of a sample, for the statements that say they are all zero.\<close>

definition power_fields :: "Metrics \<Rightarrow> real list" where
  "power_fields m =
     [all_power m, ane_power m, cpu_power m, gpu_power m, gpu_ram_power m, ram_power m, sys_power m]"

section \<open>Facts on the operations\<close>

lemma flat_temps_Nil [simp]: "flat_temps [] = []"
  by (simp add: flat_temps_def)

lemma flat_temps_Cons [simp]:
  "flat_temps ((g, rs) # temps) = List.map_filter current rs @ flat_temps temps"
  by (simp add: flat_temps_def)

lemma flat_temps_append [simp]: "flat_temps (xs @ ys) = flat_temps xs @ flat_temps ys"
  by (simp add: flat_temps_def)

lemma average_temp_Nil [simp]: "average_temp [] = 0"
  by (simp add: average_temp_def)

lemma average_temp_mean: "ts \<noteq> [] \<Longrightarrow> average_temp ts = sum_list ts / real (length ts)"
  by (simp add: average_temp_def)

lemma average_temp_times_length: "average_temp ts * real (length ts) = sum_list ts"
  by (cases ts) (simp_all add: average_temp_def)

lemma average_temp_ge:
  assumes "ts \<noteq> []" and "\<forall>t \<in> set ts. lo \<le> t"
  shows "lo \<le> average_temp ts"
proof -
  from assms(1) have pos: "0 < real (length ts)" by simp
  from sum_list_ge_length_mult [OF assms(2)] have "lo * real (length ts) \<le> sum_list ts"
    by (simp add: mult.commute)
  with pos have "lo \<le> sum_list ts / real (length ts)" by (simp add: pos_le_divide_eq)
  with assms(1) show ?thesis by (simp add: average_temp_def)
qed

lemma average_temp_le:
  assumes "ts \<noteq> []" and "\<forall>t \<in> set ts. t \<le> hi"
  shows "average_temp ts \<le> hi"
proof -
  from assms(1) have pos: "0 < real (length ts)" by simp
  from sum_list_le_length_mult [OF assms(2)] have "sum_list ts \<le> hi * real (length ts)"
    by (simp add: mult.commute)
  with pos have "sum_list ts / real (length ts) \<le> hi" by (simp add: pos_divide_le_eq)
  with assms(1) show ?thesis by (simp add: average_temp_def)
qed

lemma read_avg_temp_Inr [simp]: "read_avg_temp (Inr temps) = Inr (average_temp (flat_temps temps))"
  by (simp add: read_avg_temp_def)

lemma read_avg_temp_Inl:
  "read_avg_temp (Inl e) =
     (if isinstance e NotImplementedError \<or> isinstance e PsutilError then Inr 0 else Inl e)"
  by (simp add: read_avg_temp_def)

lemma or_zero_simps [simp]: "or_zero None = 0" "or_zero (Some n) = n"
  by (simp_all add: or_zero_def)

lemma collect_generic_metrics_Inr_iff:
  "collect_generic_metrics env = Inr m \<longleftrightarrow>
     (\<exists>pct logical_cpus avg. cpu_percent env = Inr pct \<and> cpu_count env = Inr logical_cpus \<and>
        read_avg_temp (sensors_temperatures env) = Inr avg \<and>
        m = generic_metrics (or_zero logical_cpus) pct avg)"
  by (auto simp: collect_generic_metrics_def bind_result_eq_Inr)

lemma generic_metrics_eq_spec:
  "generic_metrics cpus pct (average_temp ts) = spec_generic_metrics cpus pct ts"
  by (simp add: generic_metrics_def spec_generic_metrics_def average_temp_def Let_def)

lemma get_metrics_async_darwin:
  "lower (platform_system env) = ''darwin'' \<Longrightarrow> get_metrics_async env = macmon_get_metrics_async env"
  by (simp add: get_metrics_async_def)

lemma get_metrics_async_generic:
  "lower (platform_system env) \<noteq> ''darwin'' \<Longrightarrow>
   get_metrics_async env = bind_result (collect_generic_metrics (psutil env)) (\<lambda>m. Inr (Some m))"
  by (simp add: get_metrics_async_def)

lemma flat_temps_concat:
  "flat_temps temps = List.map_filter current (concat (map snd temps))"
  by (induction temps) auto

lemma mset_map_filter:
  "mset (List.map_filter f xs) = image_mset (the \<circ> f) (filter_mset (\<lambda>x. f x \<noteq> None) (mset xs))"
  by (simp add: List.map_filter_def)

lemma mset_map_filter_cong:
  "mset xs = mset ys \<Longrightarrow> mset (List.map_filter f xs) = mset (List.map_filter f ys)"
  by (simp add: mset_map_filter)

lemma average_temp_mset:
  assumes "mset xs = mset ys"
  shows "average_temp xs = average_temp ys"
proof -
  from assms have "length xs = length ys" by (rule mset_eq_length)
  moreover from assms have "sum_list xs = sum_list ys"
    by (metis sum_mset_sum_list)
  ultimately show ?thesis by (auto simp: average_temp_def)
qed

lemma collect_generic_metrics_ok:
  "cpu_percent env = Inr pct \<Longrightarrow> cpu_count env = Inr logical_cpus \<Longrightarrow>
   read_avg_temp (sensors_temperatures env) = Inr avg \<Longrightarrow>
   collect_generic_metrics env = Inr (generic_metrics (or_zero logical_cpus) pct avg)"
  by (simp add: collect_generic_metrics_def)

lemma collect_generic_metrics_sensor_error:
  "cpu_percent env = Inr pct \<Longrightarrow> cpu_count env = Inr logical_cpus \<Longrightarrow>
   read_avg_temp (sensors_temperatures env) = Inl e \<Longrightarrow>
   collect_generic_metrics env = Inl e"
  by (simp add: collect_generic_metrics_def)

lemma power_fields_generic [simp]:
  "power_fields (generic_metrics cpus pct avg) = replicate 7 0"
  by (simp add: power_fields_def generic_metrics_def numeral_eq_Suc)

section \<open>Example hosts\<close>

text \<open>
  A Linux host with two sensor groups, one reading of which has no value, and
  four logical CPUs at 12.5 percent; and the same host with a psutil that has no
  \<^verbatim>\<open>sensors_temperatures\<close> at all, so that the attribute read raises.
\<close>

definition example_sensors :: sensor_groups where
  "example_sensors =
     [(''coretemp'', [\<lparr>current = Some 40\<rparr>, \<lparr>current = Some 50\<rparr>, \<lparr>current = None\<rparr>]),
      (''acpitz'', [\<lparr>current = Some 60\<rparr>])]"

definition example_psutil :: psutil_env where
  "example_psutil =
     \<lparr>cpu_percent = Inr (25 / 2), cpu_count = Inr (Some 4),
      sensors_temperatures = Inr example_sensors\<rparr>"

definition example_metrics_env :: metrics_env where
  "example_metrics_env =
     \<lparr>platform_system = ''Linux'', macmon_get_metrics_async = Inr None, psutil = example_psutil\<rparr>"

definition no_sensors_attribute :: exn where
  "no_sensors_attribute = Exn AttributeError ''sensors_temperatures'' None"

lemma flat_temps_example [simp]: "flat_temps example_sensors = [40, 50, 60]"
  by (simp add: example_sensors_def)

lemmas example_metrics_defs [exo_defs] =
  example_psutil_def example_metrics_env_def no_sensors_attribute_def

section \<open>Properties of the metrics source\<close>

text \<open>
  C6 (functional). When the three psutil calls answer, the fallback sampler
  returns the sample of its contract: both temperatures the mean of the readings
  that carry a value (zero without any), the performance-CPU pair the logical
  CPU count (zero when psutil does not know it) and the utilisation, every power
  field zero and the timestamp empty.
\<close>

theorem fallback_sample_meets_contract:
  assumes "cpu_percent env = Inr pct"
    and "cpu_count env = Inr logical_cpus"
    and "sensors_temperatures env = Inr temps"
  shows "collect_generic_metrics env =
           Inr (spec_generic_metrics (case logical_cpus of None \<Rightarrow> 0 | Some n \<Rightarrow> n) pct
                  (List.map_filter current (concat (map snd temps))))"
  using assms
  by (cases logical_cpus)
    (simp_all add: collect_generic_metrics_ok generic_metrics_eq_spec flat_temps_concat)

theorem fallback_sample_meets_contract_witness:
  "collect_generic_metrics example_psutil =
     Inr \<lparr>all_power = 0, ane_power = 0, cpu_power = 0, ecpu_usage = (0, 0),
          gpu_power = 0, gpu_ram_power = 0, gpu_usage = (0, 0),
          pcpu_usage = (4, 25 / 2), ram_power = 0, sys_power = 0,
          temp = \<lparr>cpu_temp_avg = 50, gpu_temp_avg = 50\<rparr>, timestamp = []\<rparr>"
  using fallback_sample_meets_contract [of example_psutil "25 / 2" "Some 4" example_sensors]
  by (simp add: example_psutil_def spec_generic_metrics_def flat_temps_concat [symmetric])

text \<open>
  The temperature the fallback reports lies between the smallest and
  the largest reading that carries a value.
\<close>

lemma reported_temperature_within_readings:
  assumes "collect_generic_metrics env = Inr m"
    and "sensors_temperatures env = Inr temps"
    and "flat_temps temps \<noteq> []"
  shows "Min (set (flat_temps temps)) \<le> gpu_temp_avg (temp m) \<and>
         gpu_temp_avg (temp m) \<le> Max (set (flat_temps temps)) \<and>
         cpu_temp_avg (temp m) = gpu_temp_avg (temp m)"
proof -
  from assms(1,2) obtain cpus pct where
    m: "m = generic_metrics cpus pct (average_temp (flat_temps temps))"
    by (auto simp: collect_generic_metrics_Inr_iff)
  have "Min (set (flat_temps temps)) \<le> average_temp (flat_temps temps)"
    using assms(3) by (intro average_temp_ge) auto
  moreover have "average_temp (flat_temps temps) \<le> Max (set (flat_temps temps))"
    using assms(3) by (intro average_temp_le) auto
  ultimately show ?thesis by (simp add: m generic_metrics_def)
qed

text \<open>
  C25 (error). A host without temperature sensors still yields a sample: when
  psutil raises \<^verbatim>\<open>NotImplementedError\<close> or a \<^verbatim>\<open>psutil.Error\<close>, or
  answers with no reading that carries a value, both temperatures are \<open>0\<close>
  and nothing is raised.
\<close>

theorem sensor_absence_degrades_to_zero:
  assumes "cpu_percent env = Inr pct"
    and "cpu_count env = Inr logical_cpus"
    and "(\<exists>e. sensors_temperatures env = Inl e \<and>
              (isinstance e NotImplementedError \<or> isinstance e PsutilError)) \<or>
         (\<exists>temps. sensors_temperatures env = Inr temps \<and> flat_temps temps = [])"
  shows "collect_generic_metrics env = Inr (generic_metrics (or_zero logical_cpus) pct 0)"
  using assms
  by (auto simp: collect_generic_metrics_ok read_avg_temp_Inl)

theorem sensor_absence_degrades_to_zero_witness:
  "collect_generic_metrics
     (example_psutil\<lparr>sensors_temperatures := Inl (Exn NotImplementedError [] None)\<rparr>) =
   Inr (generic_metrics 4 (25 / 2) 0)"
  using sensor_absence_degrades_to_zero
    [of "example_psutil\<lparr>sensors_temperatures := Inl (Exn NotImplementedError [] None)\<rparr>"
        "25 / 2" "Some 4"]
  by (simp add: example_psutil_def)

text \<open>Off macOS \<^verbatim>\<open>get_metrics_async\<close> never answers \<^verbatim>\<open>None\<close>.\<close>

lemma fallback_never_absent:
  assumes "lower (platform_system env) \<noteq> ''darwin''"
  shows "get_metrics_async env \<noteq> Inr None"
  using assms
  by (cases "collect_generic_metrics (psutil env)") (simp_all add: get_metrics_async_generic)

text \<open>
  C33 (error). An exception of the temperature read that is neither
  \<^verbatim>\<open>NotImplementedError\<close> nor a \<^verbatim>\<open>psutil.Error\<close> is not absorbed: off
  macOS it leaves \<^verbatim>\<open>get_metrics_async\<close> unchanged. This is the case of a
  psutil build that does not define \<^verbatim>\<open>sensors_temperatures\<close>, where the
  call raises \<^verbatim>\<open>AttributeError\<close>.
\<close>

theorem uncaught_sensor_exception_propagates:
  assumes "lower (platform_system env) \<noteq> ''darwin''"
    and "cpu_percent (psutil env) = Inr pct"
    and "cpu_count (psutil env) = Inr logical_cpus"
    and "sensors_temperatures (psutil env) = Inl e"
    and "\<not> isinstance e NotImplementedError" and "\<not> isinstance e PsutilError"
  shows "get_metrics_async env = Inl e"
  using assms
  by (simp add: get_metrics_async_generic collect_generic_metrics_sensor_error read_avg_temp_Inl)

theorem uncaught_sensor_exception_propagates_witness:
  "get_metrics_async
     (example_metrics_env\<lparr>psutil := example_psutil\<lparr>sensors_temperatures := Inl no_sensors_attribute\<rparr>\<rparr>) =
   Inl no_sensors_attribute"
  using uncaught_sensor_exception_propagates
    [of "example_metrics_env\<lparr>psutil := example_psutil\<lparr>sensors_temperatures := Inl no_sensors_attribute\<rparr>\<rparr>"
        "25 / 2" "Some 4" no_sensors_attribute]
  by (simp add: exo_defs exn_simps lower_eval)

text \<open>
  The reported mean depends only on which readings the sensors deliver, not on
  how they are grouped or ordered: two answers of \<^verbatim>\<open>sensors_temperatures\<close>
  that hold the same readings, each as often, give the same temperature.
\<close>

lemma mean_ignores_grouping:
  assumes "mset (concat (map snd temps)) = mset (concat (map snd temps'))"
  shows "average_temp (flat_temps temps) = average_temp (flat_temps temps')"
  unfolding flat_temps_concat
  by (intro average_temp_mset mset_map_filter_cong assms)

end
