(* ===== verification/Memory_Profile.thy ===== *)
theory Memory_Profile
  imports Metrics_Model
begin

text \<open>
  \<^verbatim>\<open>get_memory_profile\<close> of \<^verbatim>\<open>src/exo/worker/utils/profile.py\<close>: the
  memory profile of the host, with the operator's override read from the
  environment variable \<^verbatim>\<open>OVERRIDE_MEMORY_MB\<close> on every call. The variable is
  text; the code converts it with \<^verbatim>\<open>int\<close>, which raises
  \<^verbatim>\<open>ValueError\<close> on anything but a decimal literal. \<^verbatim>\<open>int\<close> is modelled
  for ASCII strings: surrounding whitespace, an optional sign, decimal digits
  with single underscores between them, and the interpreter's limit of 4300
  digits, checked in the order of CPython 3.12: the form of the literal first,
  the number of its digits second. The messages of the two errors are shortened
  (Python quotes the literal with \<^verbatim>\<open>repr\<close> and reports the number of
  digits); the code never reads them. \<^verbatim>\<open>int\<close> is the interpreter's and not
  code of the repository: \<open>py_int\<close> is written from its documented behaviour,
  and the theorems on \<^verbatim>\<open>get_memory_profile\<close> hold as far as it is faithful.
  \<open>py_str\<close> names the decimal numeral of an integer; it is the vocabulary for
  "the override holds a decimal numeral" and models no code.
\<close>

section \<open>Decimal literals\<close>

text \<open>
  The ASCII characters that \<^verbatim>\<open>str.isspace\<close> accepts and that \<^verbatim>\<open>int\<close> strips:
  tab to carriage return, the four separators \<^verbatim>\<open>0x1C\<close> to \<^verbatim>\<open>0x1F\<close>, and the blank.
\<close>

definition is_space :: "char \<Rightarrow> bool" where
  "is_space c \<longleftrightarrow>
     (9 \<le> (of_char c :: nat) \<and> (of_char c :: nat) \<le> 13) \<or>
     (28 \<le> (of_char c :: nat) \<and> (of_char c :: nat) \<le> 32)"

definition is_digit :: "char \<Rightarrow> bool" where
  "is_digit c \<longleftrightarrow> 48 \<le> (of_char c :: nat) \<and> (of_char c :: nat) \<le> 57"

definition digit_value :: "char \<Rightarrow> nat" where
  "digit_value c = of_char c - 48"

definition strip :: "string \<Rightarrow> string" where
  "strip s = rev (dropWhile is_space (rev (dropWhile is_space s)))"

text \<open>
  The digit part of a literal: it starts and ends with a digit, and an
  underscore stands between two digits only.
\<close>

fun digit_groups :: "string \<Rightarrow> bool" where
  "digit_groups [] = False"
| "digit_groups [c] = is_digit c"
| "digit_groups (c # d # cs) =
     (is_digit c \<and> (if d = CHR ''_'' then digit_groups cs else digit_groups (d # cs)))"

definition decimal_value :: "string \<Rightarrow> nat" where
  "decimal_value ds = foldl (\<lambda>acc c. 10 * acc + digit_value c) 0 ds"

definition int_max_str_digits :: nat where
  "int_max_str_digits = 4300"

definition invalid_literal :: "string \<Rightarrow> exn" where
  "invalid_literal s = Exn ValueError (''invalid literal for int() with base 10: '' @ s) None"

definition too_many_digits :: exn where
  "too_many_digits = Exn ValueError ''Exceeds the limit (4300 digits) for integer string conversion'' None"

text \<open>The sign of a literal and what follows it.\<close>

fun split_sign :: "string \<Rightarrow> bool \<times> string" where
  "split_sign [] = (False, [])"
| "split_sign (c # cs) =
     (if c = CHR ''-'' then (True, cs) else if c = CHR ''+'' then (False, cs) else (False, c # cs))"

definition py_int :: "string \<Rightarrow> int result" where
  "py_int s =
     (let (negative, body) = split_sign (strip s);
          ds = filter is_digit body
      in if \<not> digit_groups body then Inl (invalid_literal s)
         else if int_max_str_digits < length ds then Inl too_many_digits
         else Inr (if negative then - int (decimal_value ds) else int (decimal_value ds)))"

section \<open>The memory profile\<close>

text \<open>What one call reads: the environment variable and the host's memory.\<close>

record memory_env =
  getenv_override :: "string option"
  virtual_memory :: host_memory

text \<open>
  The override in bytes: none when the variable is unset or empty (an empty
  string is falsy), otherwise the megabytes it spells, converted.
\<close>

definition override_memory :: "string option \<Rightarrow> int option result" where
  "override_memory override_memory_env =
     (case override_memory_env of
        None \<Rightarrow> Inr None
      | Some s \<Rightarrow>
          if s \<noteq> [] then bind_result (py_int s) (\<lambda>mb. Inr (Some (from_mb mb))) else Inr None)"

definition get_memory_profile :: "memory_env \<Rightarrow> MemoryPerformanceProfile result" where
  "get_memory_profile env =
     bind_result (override_memory (getenv_override env)) (\<lambda>override.
     Inr (from_psutil (virtual_memory env) override))"

section \<open>Printing, to state what \<open>py_int\<close> reads\<close>

text \<open>The decimal numeral of a natural number, most significant digit first.\<close>

definition digit_char :: "nat \<Rightarrow> char" where
  "digit_char d = char_of (48 + d)"

fun decimal :: "nat \<Rightarrow> string" where
  "decimal n = (if n < 10 then [digit_char n] else decimal (n div 10) @ [digit_char (n mod 10)])"

declare decimal.simps [simp del]

definition py_str :: "int \<Rightarrow> string" where
  "py_str i = (if i < 0 then CHR ''-'' # decimal (nat (- i)) else decimal (nat i))"

section \<open>Facts on decimal literals\<close>

lemma of_char_digit_char: "d < 10 \<Longrightarrow> (of_char (digit_char d) :: nat) = 48 + d"
  by (simp add: digit_char_def)

lemma is_digit_digit_char [simp]: "d < 10 \<Longrightarrow> is_digit (digit_char d)"
  by (simp add: is_digit_def of_char_digit_char)

lemma digit_value_digit_char [simp]: "d < 10 \<Longrightarrow> digit_value (digit_char d) = d"
  by (simp add: digit_value_def of_char_digit_char)

lemma is_digit_not_special:
  assumes "is_digit c"
  shows "\<not> is_space c" and "c \<noteq> CHR ''_''" and "c \<noteq> CHR ''-''" and "c \<noteq> CHR ''+''"
  using assms by (auto simp: is_digit_def is_space_def)

lemma decimal_not_Nil [simp]: "decimal n \<noteq> []"
  by (subst decimal.simps) simp

lemma decimal_digits: "c \<in> set (decimal n) \<Longrightarrow> is_digit c"
proof (induction n arbitrary: c rule: decimal.induct)
  case (1 n)
  show ?case
  proof (cases "n < 10")
    case True
    with "1.prems" show ?thesis by (simp add: decimal.simps [of n])
  next
    case False
    with "1.prems" "1.IH" show ?thesis by (auto simp: decimal.simps [of n])
  qed
qed

lemma decimal_value_snoc [simp]:
  "decimal_value (ds @ [c]) = 10 * decimal_value ds + digit_value c"
  by (simp add: decimal_value_def)

lemma decimal_value_Nil [simp]: "decimal_value [] = 0"
  by (simp add: decimal_value_def)

lemma decimal_value_decimal [simp]: "decimal_value (decimal n) = n"
proof (induction n rule: decimal.induct)
  case (1 n)
  show ?case
  proof (cases "n < 10")
    case True
    then show ?thesis
      using decimal_value_snoc [of "[]" "digit_char n"] by (simp add: decimal.simps [of n])
  next
    case False
    with "1.IH" show ?thesis by (simp add: decimal.simps [of n])
  qed
qed

lemma digit_groups_digits: "ds \<noteq> [] \<Longrightarrow> \<forall>c \<in> set ds. is_digit c \<Longrightarrow> digit_groups ds"
  by (induction ds rule: digit_groups.induct) (auto simp: is_digit_not_special)

lemma digit_groups_decimal [simp]: "digit_groups (decimal n)"
  by (rule digit_groups_digits) (auto simp: decimal_digits)

lemma filter_digits_decimal [simp]: "filter is_digit (decimal n) = decimal n"
  by (simp add: filter_id_conv decimal_digits)

lemma dropWhile_hd: "xs \<noteq> [] \<Longrightarrow> \<not> P (hd xs) \<Longrightarrow> dropWhile P xs = xs"
  by (cases xs) auto

lemma dropWhile_all: "\<forall>x \<in> set xs. P x \<Longrightarrow> dropWhile P (xs @ ys) = dropWhile P ys"
  by (rule dropWhile_append2) auto

lemma strip_padded:
  assumes "s \<noteq> []" and "\<not> is_space (hd s)" and "\<not> is_space (last s)"
    and "\<forall>c \<in> set l. is_space c" and "\<forall>c \<in> set r. is_space c"
  shows "strip (l @ s @ r) = s"
proof -
  have "dropWhile is_space (l @ s @ r) = s @ r"
    using assms(1,2,4) by (simp add: dropWhile_all dropWhile_hd)
  moreover have "dropWhile is_space (rev r @ rev s) = rev s"
    using assms(1,3,5) by (simp add: dropWhile_all dropWhile_hd hd_rev)
  ultimately show ?thesis by (simp add: strip_def)
qed

lemma strip_id: "s \<noteq> [] \<Longrightarrow> \<not> is_space (hd s) \<Longrightarrow> \<not> is_space (last s) \<Longrightarrow> strip s = s"
  using strip_padded [of s "[]" "[]"] by simp

lemma hd_decimal_digit: "is_digit (hd (decimal n))"
  by (rule decimal_digits [where n = n]) simp

lemma last_decimal_digit: "is_digit (last (decimal n))"
  by (rule decimal_digits [where n = n]) simp

lemma split_sign_decimal [simp]: "split_sign (decimal n) = (False, decimal n)"
  using hd_decimal_digit [of n] by (cases "decimal n") (auto simp: is_digit_not_special)

lemma split_sign_py_str:
  "split_sign (py_str i) = (i < 0, decimal (nat \<bar>i\<bar>))"
  by (simp add: py_str_def)

lemma py_str_ends:
  "py_str i \<noteq> []" "\<not> is_space (hd (py_str i))" "\<not> is_space (last (py_str i))"
proof -
  show "py_str i \<noteq> []" by (simp add: py_str_def)
  have minus: "\<not> is_space CHR ''-''" by (simp add: is_space_def)
  show "\<not> is_space (hd (py_str i))"
    using hd_decimal_digit [of "nat i"] minus by (simp add: py_str_def is_digit_not_special)
  show "\<not> is_space (last (py_str i))"
    using last_decimal_digit [of "nat i"] last_decimal_digit [of "nat (- i)"]
    by (simp add: py_str_def is_digit_not_special)
qed

lemma py_int_py_str_padded:
  assumes "length (decimal (nat \<bar>i\<bar>)) \<le> int_max_str_digits"
    and "\<forall>c \<in> set l. is_space c" and "\<forall>c \<in> set r. is_space c"
  shows "py_int (l @ py_str i @ r) = Inr i"
proof -
  have "strip (l @ py_str i @ r) = py_str i"
    using assms(2,3) by (intro strip_padded py_str_ends)
  with assms(1) show ?thesis
    by (simp add: py_int_def split_sign_py_str Let_def)
qed

lemma py_int_empty: "py_int [] = Inl (invalid_literal [])"
  by (simp add: py_int_def strip_def)

lemma override_memory_simps [simp]:
  "override_memory None = Inr None"
  "override_memory (Some []) = Inr None"
  "s \<noteq> [] \<Longrightarrow> override_memory (Some s) = bind_result (py_int s) (\<lambda>mb. Inr (Some (from_mb mb)))"
  by (simp_all add: override_memory_def)

lemma get_memory_profile_unset [simp]:
  "getenv_override env = None \<Longrightarrow>
   get_memory_profile env = Inr \<lparr>memory_bytes = detected_bytes (virtual_memory env)\<rparr>"
  by (simp add: get_memory_profile_def)

lemma get_memory_profile_parsed:
  "getenv_override env = Some s \<Longrightarrow> s \<noteq> [] \<Longrightarrow> py_int s = Inr mb \<Longrightarrow>
   get_memory_profile env = Inr \<lparr>memory_bytes = from_mb mb\<rparr>"
  by (simp add: get_memory_profile_def)

lemma get_memory_profile_invalid:
  "getenv_override env = Some s \<Longrightarrow> s \<noteq> [] \<Longrightarrow> py_int s = Inl e \<Longrightarrow>
   get_memory_profile env = Inl e"
  by (simp add: get_memory_profile_def)

lemma py_int_4096 [simp]: "py_int ''4096'' = Inr 4096"
  by (simp add: py_int_def strip_def is_space_def is_digit_def decimal_value_def digit_value_def
      int_max_str_digits_def)

lemma py_int_Inl_ValueError: "py_int s = Inl e \<Longrightarrow> exn_cls e = ValueError"
  by (auto simp: py_int_def invalid_literal_def too_many_digits_def Let_def split: prod.splits if_splits)

lemma py_int_malformed:
  "\<not> digit_groups (snd (split_sign (strip s))) \<Longrightarrow> py_int s = Inl (invalid_literal s)"
  by (auto simp: py_int_def Let_def split: prod.splits)

text \<open>What evaluates \<^const>\<open>py_int\<close> on a literal.\<close>

lemmas py_int_eval =
  py_int_def strip_def is_space_def is_digit_def decimal_value_def digit_value_def
  int_max_str_digits_def invalid_literal_def

section \<open>Properties of the memory profile\<close>

text \<open>
  C23 (functional). With \<^verbatim>\<open>OVERRIDE_MEMORY_MB\<close> set to a decimal numeral, the
  profile reports that many megabytes whatever the host's memory is: the
  override replaces the detected value and does not adjust it.
\<close>

theorem override_replaces_detected_memory:
  assumes "getenv_override env = Some s" and "s \<noteq> []" and "py_int s = Inr mb"
  shows "get_memory_profile (env\<lparr>virtual_memory := hm\<rparr>) = Inr \<lparr>memory_bytes = from_mb mb\<rparr>"
  using assms by (simp add: get_memory_profile_parsed)

theorem override_replaces_detected_memory_witness:
  "get_memory_profile
     \<lparr>getenv_override = Some ''4096'', virtual_memory = \<lparr>detected_bytes = 17179869184\<rparr>\<rparr> =
   Inr \<lparr>memory_bytes = 4294967296\<rparr>"
  using override_replaces_detected_memory
    [of "\<lparr>getenv_override = Some ''4096'', virtual_memory = \<lparr>detected_bytes = 0\<rparr>\<rparr>"
        "''4096''" 4096 "\<lparr>detected_bytes = 17179869184\<rparr>"]
  by (simp add: from_mb_def)

text \<open>
  A value of \<^verbatim>\<open>OVERRIDE_MEMORY_MB\<close> that is not a decimal literal makes
  \<^verbatim>\<open>get_memory_profile\<close> raise \<^verbatim>\<open>ValueError\<close>; no profile is produced.
\<close>

lemma malformed_override_raises:
  assumes "getenv_override env = Some s" and "s \<noteq> []"
    and "\<not> digit_groups (snd (split_sign (strip s)))"
  shows "get_memory_profile env = Inl (invalid_literal s)"
  using assms by (simp add: get_memory_profile_invalid py_int_malformed)

end
