(* ===== verification/Polling.thy ===== *)
theory Polling
  imports Py_Control Generic_Metrics Memory_Profile
begin

text \<open>
  The polling engine of \<^verbatim>\<open>src/exo/worker/utils/profile.py\<close>:
  \<^verbatim>\<open>start_polling_memory_metrics\<close> and \<^verbatim>\<open>start_polling_node_metrics\<close>.
  Each is \<^verbatim>\<open>while True\<close> around a \<^verbatim>\<open>try\<close> that samples and awaits the
  sink, \<^verbatim>\<open>except\<close> clauses that log the recoverable faults, and a
  \<^verbatim>\<open>finally\<close> that sleeps. One iteration is an action over the environment of
  that iteration: what the collaborators, the sink and the sleep do when they are
  called then (a sleep that raises is the cancellation of the task).
\<close>

section \<open>The environment of one iteration\<close>

record memory_tick_env =
  mem_env :: memory_env
  callback_result :: "unit result"
  sleep_result :: "unit result"

record 'i node_tick_env = memory_tick_env +
  metrics_source :: metrics_env
  get_network_interfaces :: "'i list result"
  get_model_and_chip :: "(string \<times> string) result"
  get_friendly_name :: "string result"

section \<open>The memory loop\<close>

definition default_poll_interval_s :: real where
  "default_poll_interval_s = 1 / 2"

text \<open>The entry of \<^verbatim>\<open>logger.opt(exception=e).error(...)\<close>: the message with the exception.\<close>

definition memory_error :: "exn \<Rightarrow> log_entry" where
  "memory_error e = Log ERROR ''Memory Monitor encountered error'' (Some e)"

text \<open>The \<^verbatim>\<open>try\<close> block: the profile, then the sink.\<close>

definition memory_body :: "'a memory_tick_env_scheme \<Rightarrow> (unit, MemoryPerformanceProfile) act" where
  "memory_body env =
     bind_act (call_act GetMemoryProfile (get_memory_profile (mem_env env))) (\<lambda>mem.
     sink_act mem (callback_result env))"

text \<open>One iteration: the block, its \<^verbatim>\<open>except MacMonError\<close>, and the sleep in \<^verbatim>\<open>finally\<close>.\<close>

definition memory_tick ::
  "real \<Rightarrow> 'a memory_tick_env_scheme \<Rightarrow> (unit, MemoryPerformanceProfile) act" where
  "memory_tick poll_interval_s env =
     try_finally
       (try_except (memory_body env) [(MacMonError, \<lambda>e. log_act (memory_error e))])
       (sleep_act poll_interval_s (sleep_result env))"

definition start_polling_memory_metrics ::
  "real \<Rightarrow> (nat \<Rightarrow> memory_tick_env) \<Rightarrow> MemoryPerformanceProfile loop_state option" where
  "start_polling_memory_metrics poll_interval_s envs =
     while_true (memory_tick poll_interval_s) envs init_loop"

section \<open>The node loop\<close>

definition node_poll_interval_s :: real where
  "node_poll_interval_s = 1"

definition timeout_warning :: log_entry where
  "timeout_warning =
     Log WARNING ''[resource_monitor] Operation timed out after 30s, skipping this cycle.'' None"

definition resource_error :: "exn \<Rightarrow> log_entry" where
  "resource_error e = Log ERROR ''Resource Monitor encountered error'' (Some e)"

text \<open>The record handed to the sink.\<close>

definition node_profile ::
  "Metrics \<Rightarrow> 'i list \<Rightarrow> string \<times> string \<Rightarrow> string \<Rightarrow> MemoryPerformanceProfile \<Rightarrow>
   'i NodePerformanceProfile" where
  "node_profile metrics interfaces model_chip name memory_profile =
     \<lparr>model_id = fst model_chip, chip_id = snd model_chip, friendly_name = name,
      network_interfaces = interfaces, memory = memory_profile,
      system = system_profile metrics\<rparr>"

text \<open>
  The \<^verbatim>\<open>try\<close> block: the sample (an absent sample returns from the function),
  the interfaces, model and chip, the friendly name, the memory profile last, and
  the sink.
\<close>

definition node_body :: "'i node_tick_env \<Rightarrow> (unit, 'i NodePerformanceProfile) act" where
  "node_body env =
     bind_act (call_act GetMetrics (get_metrics_async (metrics_source env))) (\<lambda>metrics.
     case metrics of
       None \<Rightarrow> return_act
     | Some m \<Rightarrow>
         bind_act (call_act GetNetworkInterfaces (get_network_interfaces env)) (\<lambda>interfaces.
         bind_act (call_act GetModelAndChip (get_model_and_chip env)) (\<lambda>model_chip.
         bind_act (call_act GetFriendlyName (get_friendly_name env)) (\<lambda>name.
         bind_act (call_act GetMemoryProfile (get_memory_profile (mem_env env))) (\<lambda>memory_profile.
         sink_act (node_profile m interfaces model_chip name memory_profile)
           (callback_result env))))))"

text \<open>The collaborators in the order in which an iteration calls them.\<close>

definition node_call_order :: "callee list" where
  "node_call_order =
     [GetMetrics, GetNetworkInterfaces, GetModelAndChip, GetFriendlyName, GetMemoryProfile]"

definition node_tick :: "'i node_tick_env \<Rightarrow> (unit, 'i NodePerformanceProfile) act" where
  "node_tick env =
     try_finally
       (try_except (node_body env)
          [(TimeoutError, \<lambda>e. log_act timeout_warning),
           (MacMonError, \<lambda>e. log_act (resource_error e))])
       (sleep_act node_poll_interval_s (sleep_result env))"

definition start_polling_node_metrics ::
  "(nat \<Rightarrow> 'i node_tick_env) \<Rightarrow> 'i NodePerformanceProfile loop_state option" where
  "start_polling_node_metrics envs = while_true node_tick envs init_loop"

section \<open>Kinds of iterations\<close>

text \<open>
  An exception is recoverable for a loop when one of the loop's \<^verbatim>\<open>except\<close>
  clauses takes it.
\<close>

definition memory_recoverable :: "exn \<Rightarrow> bool" where
  "memory_recoverable e \<longleftrightarrow> isinstance e MacMonError"

definition node_recoverable :: "exn \<Rightarrow> bool" where
  "node_recoverable e \<longleftrightarrow> isinstance e TimeoutError \<or> isinstance e MacMonError"

text \<open>
  An iteration is benign when its sleep is not cancelled and its block neither
  returns nor raises anything but a recoverable fault.
\<close>

definition benign :: "(exn \<Rightarrow> bool) \<Rightarrow> ('a, 'p) act \<Rightarrow> unit result \<Rightarrow> bool" where
  "benign recoverable body sleep \<longleftrightarrow>
     sleep = Inr () \<and>
     (case fst body of Value x \<Rightarrow> True | Returned \<Rightarrow> False | Raised e \<Rightarrow> recoverable e)"

definition benign_memory_tick :: "'a memory_tick_env_scheme \<Rightarrow> bool" where
  "benign_memory_tick env = benign memory_recoverable (memory_body env) (sleep_result env)"

definition benign_node_tick :: "'i node_tick_env \<Rightarrow> bool" where
  "benign_node_tick env = benign node_recoverable (node_body env) (sleep_result env)"

section \<open>Facts on the memory loop\<close>

lemma memory_body_simps:
  "get_memory_profile (mem_env env) = Inl e \<Longrightarrow>
   memory_body env = (Raised e, [Called GetMemoryProfile])"
  "get_memory_profile (mem_env env) = Inr mem \<Longrightarrow>
   memory_body env = (outcome_of (callback_result env), [Called GetMemoryProfile, Sink mem])"
  by (simp_all add: memory_body_def)

lemma memory_body_not_Returned: "fst (memory_body env) \<noteq> Returned"
  by (cases "get_memory_profile (mem_env env)"; cases "callback_result env")
    (simp_all add: memory_body_simps)

text \<open>The outcome of an iteration, for both loops: the cancelled sleep wins, then
  what the block and its handlers left.\<close>

lemma fst_memory_tick:
  "fst (memory_tick i env) =
     (case sleep_result env of
        Inl c \<Rightarrow> Raised c
      | Inr u \<Rightarrow>
          (case fst (memory_body env) of
             Raised e \<Rightarrow> if memory_recoverable e then Value () else Raised e
           | out \<Rightarrow> out))"
  by (cases "sleep_result env"; cases "fst (memory_body env)")
    (simp_all add: memory_tick_def fst_try_finally fst_try_except memory_recoverable_def)

lemma snd_memory_tick:
  "snd (memory_tick i env) =
     snd (memory_body env) @
     (case fst (memory_body env) of
        Raised e \<Rightarrow> if memory_recoverable e then [Logged (memory_error e)] else []
      | _ \<Rightarrow> []) @
     [Slept i]"
  by (cases "fst (memory_body env)")
    (simp_all add: memory_tick_def snd_try_finally snd_try_except memory_recoverable_def)

lemma memory_tick_Value_iff: "fst (memory_tick i env) = Value () \<longleftrightarrow> benign_memory_tick env"
  by (cases "sleep_result env"; cases "fst (memory_body env)")
    (auto simp: fst_memory_tick benign_memory_tick_def benign_def)

lemma memory_tick_not_Returned: "fst (memory_tick i env) \<noteq> Returned"
  using memory_body_not_Returned [of env]
  by (cases "sleep_result env"; cases "fst (memory_body env)") (auto simp: fst_memory_tick)

lemma get_memory_profile_error: "get_memory_profile env = Inl e \<Longrightarrow> exn_cls e = ValueError"
  by (auto simp: get_memory_profile_def override_memory_def bind_result_eq_Inl
      dest: py_int_Inl_ValueError split: option.splits if_splits)

lemma get_memory_profile_unrecoverable:
  "get_memory_profile env = Inl e \<Longrightarrow> \<not> memory_recoverable e \<and> \<not> node_recoverable e"
  by (drule get_memory_profile_error)
    (simp add: memory_recoverable_def node_recoverable_def isinstance_def exn_simps)

text \<open>\<^verbatim>\<open>CancelledError\<close> derives from \<^verbatim>\<open>BaseException\<close>: no clause takes it.\<close>

lemma cancelled_unrecoverable:
  "isinstance c CancelledError \<Longrightarrow> \<not> memory_recoverable c \<and> \<not> node_recoverable c"
  by (cases "exn_cls c")
    (simp_all add: memory_recoverable_def node_recoverable_def isinstance_def exn_simps)

lemma benign_memory_tick_profile:
  assumes "benign_memory_tick env"
  obtains mem where "get_memory_profile (mem_env env) = Inr mem"
proof (cases "get_memory_profile (mem_env env)")
  case (Inl e)
  with assms get_memory_profile_unrecoverable [OF Inl] show ?thesis
    by (simp add: benign_memory_tick_def benign_def memory_body_simps)
next
  case (Inr mem)
  then show ?thesis by (rule that)
qed

lemma sinks_memory_tick:
  "map Inr (sinks (snd (memory_tick i env))) =
     (case get_memory_profile (mem_env env) of Inl e \<Rightarrow> [] | Inr mem \<Rightarrow> [Inr mem])"
  by (cases "get_memory_profile (mem_env env)"; cases "callback_result env")
    (auto simp: snd_memory_tick memory_body_simps)

lemma sleeps_memory_tick [simp]: "sleeps (snd (memory_tick i env)) = [i]"
  by (cases "get_memory_profile (mem_env env)"; cases "callback_result env")
    (auto simp: snd_memory_tick memory_body_simps)

lemma sinks_benign_memory_tick:
  "benign_memory_tick env \<Longrightarrow>
   map Inr (sinks (snd (memory_tick i env))) = [get_memory_profile (mem_env env)]"
  by (erule benign_memory_tick_profile) (simp add: sinks_memory_tick)

section \<open>Facts on the node loop\<close>

lemma node_body_unfold:
  "node_body env =
     (case get_metrics_async (metrics_source env) of
        Inl e \<Rightarrow> (Raised e, [Called GetMetrics])
      | Inr None \<Rightarrow> (Returned, [Called GetMetrics])
      | Inr (Some m) \<Rightarrow>
     (case get_network_interfaces env of
        Inl e \<Rightarrow> (Raised e, map Called (take 2 node_call_order))
      | Inr ni \<Rightarrow>
     (case get_model_and_chip env of
        Inl e \<Rightarrow> (Raised e, map Called (take 3 node_call_order))
      | Inr mc \<Rightarrow>
     (case get_friendly_name env of
        Inl e \<Rightarrow> (Raised e, map Called (take 4 node_call_order))
      | Inr name \<Rightarrow>
     (case get_memory_profile (mem_env env) of
        Inl e \<Rightarrow> (Raised e, map Called node_call_order)
      | Inr mp \<Rightarrow>
          (outcome_of (callback_result env),
           map Called node_call_order @ [Sink (node_profile m ni mc name mp)]))))))"
  by (simp add: node_body_def node_call_order_def numeral_eq_Suc split: sum.splits option.splits)

lemma node_body_Returned_iff:
  "fst (node_body env) = Returned \<longleftrightarrow> get_metrics_async (metrics_source env) = Inr None"
  by (auto simp: node_body_unfold split: sum.splits option.splits)

lemma node_body_absent:
  "get_metrics_async (metrics_source env) = Inr None \<Longrightarrow>
   node_body env = (Returned, [Called GetMetrics])"
  by (simp add: node_body_unfold)

lemma fst_node_tick:
  "fst (node_tick env) =
     (case sleep_result env of
        Inl c \<Rightarrow> Raised c
      | Inr u \<Rightarrow>
          (case fst (node_body env) of
             Raised e \<Rightarrow> if node_recoverable e then Value () else Raised e
           | out \<Rightarrow> out))"
  by (cases "sleep_result env"; cases "fst (node_body env)")
    (simp_all add: node_tick_def fst_try_finally fst_try_except node_recoverable_def)

lemma snd_node_tick:
  "snd (node_tick env) =
     snd (node_body env) @
     (case fst (node_body env) of
        Raised e \<Rightarrow>
          if isinstance e TimeoutError then [Logged timeout_warning]
          else if isinstance e MacMonError then [Logged (resource_error e)] else []
      | _ \<Rightarrow> []) @
     [Slept node_poll_interval_s]"
  by (cases "fst (node_body env)")
    (simp_all add: node_tick_def snd_try_finally snd_try_except)

lemma node_tick_Value_iff: "fst (node_tick env) = Value () \<longleftrightarrow> benign_node_tick env"
  by (cases "sleep_result env"; cases "fst (node_body env)")
    (auto simp: fst_node_tick benign_node_tick_def benign_def)

lemma node_tick_Returned_iff:
  "fst (node_tick env) = Returned \<longleftrightarrow>
     sleep_result env = Inr () \<and> get_metrics_async (metrics_source env) = Inr None"
  using node_body_Returned_iff [of env]
  by (cases "sleep_result env"; cases "fst (node_body env)") (auto simp: fst_node_tick)

lemma sleeps_node_body [simp]: "sleeps (snd (node_body env)) = []"
  by (simp add: node_body_unfold split: sum.splits option.splits)

lemma sleeps_node_tick [simp]: "sleeps (snd (node_tick env)) = [node_poll_interval_s]"
  by (cases "fst (node_body env)") (simp_all add: snd_node_tick)

lemma sinks_node_tick_le: "length (sinks (snd (node_tick env))) \<le> 1"
  by (cases "fst (node_body env)")
    (auto simp: snd_node_tick node_body_unfold split: sum.splits option.splits)

lemma sinks_node_tick_absent:
  "get_metrics_async (metrics_source env) = Inr None \<Longrightarrow> sinks (snd (node_tick env)) = []"
  by (simp add: snd_node_tick node_body_absent)

section \<open>Facts on whole runs\<close>

lemma memory_run_benign:
  assumes "\<forall>k < n. benign_memory_tick (envs k)"
  shows "run_for n (memory_tick i) envs init_loop =
     \<lparr>status = Running,
      trace = concat (map (\<lambda>k. snd (memory_tick i (envs k))) [0 ..< n]),
      iterations = n\<rparr>"
  using run_for_values [of n "memory_tick i" envs init_loop] assms
  by (simp add: memory_tick_Value_iff init_loop_def)

lemma node_run_benign:
  assumes "\<forall>k < n. benign_node_tick (envs k)"
  shows "run_for n node_tick envs init_loop =
     \<lparr>status = Running,
      trace = concat (map (\<lambda>k. snd (node_tick (envs k))) [0 ..< n]),
      iterations = n\<rparr>"
  using run_for_values [of n node_tick envs init_loop] assms
  by (simp add: node_tick_Value_iff init_loop_def)

lemma node_loop_first_stop:
  assumes "\<forall>k < K. benign_node_tick (envs k)" and "\<not> benign_node_tick (envs K)"
  shows "start_polling_node_metrics envs =
     Some \<lparr>status = status_of (fst (node_tick (envs K))),
           trace = concat (map (\<lambda>k. snd (node_tick (envs k))) [0 ..< Suc K]),
           iterations = Suc K\<rparr>"
  unfolding start_polling_node_metrics_def
  using assms by (intro while_true_first_stop) (simp_all add: node_tick_Value_iff)

lemma memory_loop_first_stop:
  assumes "\<forall>k < K. benign_memory_tick (envs k)" and "\<not> benign_memory_tick (envs K)"
  shows "start_polling_memory_metrics i envs =
     Some \<lparr>status = status_of (fst (memory_tick i (envs K))),
           trace = concat (map (\<lambda>k. snd (memory_tick i (envs k))) [0 ..< Suc K]),
           iterations = Suc K\<rparr>"
  unfolding start_polling_memory_metrics_def
  using assms by (intro while_true_first_stop) (simp_all add: memory_tick_Value_iff)

lemma absent_not_benign:
  "get_metrics_async (metrics_source env) = Inr None \<Longrightarrow> \<not> benign_node_tick env"
  by (simp add: benign_node_tick_def benign_def node_body_absent)

lemma sinks_node_run_le:
  "length (sinks (concat (map (\<lambda>k. snd (node_tick (envs k))) ks))) \<le> length ks"
proof (induction ks)
  case Nil
  then show ?case by simp
next
  case (Cons a ks)
  with sinks_node_tick_le [of "envs a"] show ?case by simp
qed

lemma sinks_node_tick_Value:
  "fst (node_body env) = Value () \<Longrightarrow> length (sinks (snd (node_tick env))) = 1"
  by (auto simp: snd_node_tick node_body_unfold split: sum.splits option.splits)

lemma snd_node_tick_shape:
  "\<exists>l. snd (node_tick env) = snd (node_body env) @ map Logged l @ [Slept node_poll_interval_s]"
proof -
  have "\<exists>l. (case fst (node_body env) of
          Raised e \<Rightarrow>
            if isinstance e TimeoutError then [Logged timeout_warning]
            else if isinstance e MacMonError then [Logged (resource_error e)] else []
        | _ \<Rightarrow> []) = map Logged l"
    by (cases "fst (node_body env)") (auto intro: exI [of _ "[]"] exI [of _ "[l]" for l])
  then show ?thesis by (auto simp: snd_node_tick)
qed

lemma node_body_sink:
  "sinks (snd (node_body env)) = [p] \<Longrightarrow> snd (node_body env) = map Called node_call_order @ [Sink p]"
  by (auto simp: node_body_unfold split: sum.splits option.splits)

text \<open>The trace of the block: calls only, or all five calls and the sink.\<close>

lemma node_body_shape:
  "(\<exists>cs. snd (node_body env) = map Called cs) \<or>
   (\<exists>p. snd (node_body env) = map Called node_call_order @ [Sink p])"
proof -
  have one: "\<exists>cs. [Called GetMetrics :: 'a NodePerformanceProfile event] = map Called cs"
    by (rule exI [of _ "[GetMetrics]"]) simp
  show ?thesis
    unfolding node_body_unfold using one
    by (auto split: sum.splits option.splits)
qed

section \<open>Rounds\<close>

text \<open>
  The trace of an iteration that invokes the sink, in either loop: the calls of
  the block, the sink, what a handler logs, the sleep.
\<close>

definition round :: "callee list \<Rightarrow> 'p \<Rightarrow> log_entry list \<Rightarrow> real \<Rightarrow> 'p event list" where
  "round cs p l i = map Called cs @ Sink p # map Logged l @ [Slept i]"

text \<open>A benign iteration of the memory loop is a round with one call.\<close>

lemma memory_tick_round:
  assumes "benign_memory_tick env"
  shows "\<exists>p l. snd (memory_tick i env) = round [GetMemoryProfile] p l i \<and> length l \<le> 1"
proof -
  from assms obtain mem where mem: "get_memory_profile (mem_env env) = Inr mem"
    using benign_memory_tick_profile by blast
  have "\<exists>l. snd (memory_tick i env) = round [GetMemoryProfile] mem l i \<and> length l \<le> 1"
  proof (cases "fst (memory_body env)")
    case (Raised e)
    then show ?thesis
      by (auto simp: snd_memory_tick memory_body_simps mem round_def
          intro: exI [of _ "[]"] exI [of _ "[memory_error e]"])
  qed (auto simp: snd_memory_tick memory_body_simps mem round_def intro: exI [of _ "[]"])
  then show ?thesis ..
qed

text \<open>
  So is an iteration of the node loop that invokes the sink, with the five calls
  of the block.
\<close>

lemma node_tick_round:
  assumes "sinks (snd (node_body env)) \<noteq> []"
  shows "\<exists>p l. snd (node_tick env) = round node_call_order p l node_poll_interval_s \<and> length l \<le> 1"
proof -
  from assms node_body_shape [of env] obtain p
    where p: "snd (node_body env) = map Called node_call_order @ [Sink p]"
    by auto
  have "\<exists>l. snd (node_tick env) = round node_call_order p l node_poll_interval_s \<and> length l \<le> 1"
  proof (cases "fst (node_body env)")
    case (Raised e)
    then show ?thesis
      by (auto simp: snd_node_tick p round_def
          intro: exI [of _ "[]"] exI [of _ "[timeout_warning]"] exI [of _ "[resource_error e]"])
  qed (auto simp: snd_node_tick p round_def intro: exI [of _ "[]"])
  then show ?thesis ..
qed

text \<open>On the clock of the sleeps a round invokes the sink at once and takes the interval.\<close>

lemma sinks_within_round:
  "sinks_within T (round cs p l i @ rest) = Suc (if i \<le> T then sinks_within (T - i) rest else 0)"
proof -
  have calls: "sinks_within T (map Called cs @ es) = sinks_within T es" for cs T and es :: "'a event list"
    by (induction cs) simp_all
  have logs: "sinks_within T (map Logged l @ es) = sinks_within T es" for l T and es :: "'a event list"
    by (induction l) simp_all
  show ?thesis by (simp add: round_def calls logs)
qed

lemma sinks_within_rounds:
  assumes "\<forall>k \<in> set ks. \<exists>p l. f k = round cs p l i \<and> length l \<le> 1" and "0 < i" and "0 \<le> T"
  shows "sinks_within T (concat (map f ks)) = min (length ks) (Suc (nat \<lfloor>T / i\<rfloor>))"
  using assms
proof (induction ks arbitrary: T)
  case Nil
  show ?case by simp
next
  case (Cons k ks)
  from Cons.prems obtain p l where k: "f k = round cs p l i" by auto
  show ?case
  proof (cases "i \<le> T")
    case True
    with Cons.prems Cons.IH [of "T - i"] show ?thesis
      by (simp add: k sinks_within_round floor_div_step)
  next
    case False
    with Cons.prems show ?thesis
      by (simp add: k sinks_within_round floor_div_less)
  qed
qed

section \<open>Example iterations\<close>

text \<open>
  A Linux host whose collaborators all answer, for both loops; the same
  iteration on macOS with macmon reporting no sample; a fault of macmon and the
  cancellation of the task as exceptions.
\<close>

definition example_memory_env :: memory_env where
  "example_memory_env = \<lparr>getenv_override = None, virtual_memory = \<lparr>detected_bytes = 8589934592\<rparr>\<rparr>"

definition macmon_fault :: exn where
  "macmon_fault = Exn MacMonError ''macmon exited'' None"

definition cancelled :: exn where
  "cancelled = Exn CancelledError [] None"

definition good_memory_tick :: memory_tick_env where
  "good_memory_tick =
     \<lparr>mem_env = example_memory_env, callback_result = Inr (), sleep_result = Inr ()\<rparr>"

definition good_node_tick :: "string node_tick_env" where
  "good_node_tick =
     \<lparr>mem_env = example_memory_env, callback_result = Inr (), sleep_result = Inr (),
      metrics_source = example_metrics_env,
      get_network_interfaces = Inr [''en0''],
      get_model_and_chip = Inr (''Mac15,6'', ''Apple M3''),
      get_friendly_name = Inr ''studio''\<rparr>"

definition absent_node_tick :: "string node_tick_env" where
  "absent_node_tick =
     good_node_tick\<lparr>metrics_source := example_metrics_env\<lparr>platform_system := ''Darwin''\<rparr>\<rparr>"

definition example_profile :: "string NodePerformanceProfile" where
  "example_profile =
     node_profile (generic_metrics 4 (25 / 2) 50) [''en0''] (''Mac15,6'', ''Apple M3'') ''studio''
       \<lparr>memory_bytes = 8589934592\<rparr>"

lemma get_metrics_example [simp]:
  "get_metrics_async example_metrics_env = Inr (Some (generic_metrics 4 (25 / 2) 50))"
  by (simp add: get_metrics_async_def example_metrics_env_def lower_eval
      collect_generic_metrics_def example_psutil_def average_temp_def)

lemma get_metrics_example_darwin [simp]:
  "get_metrics_async (example_metrics_env\<lparr>platform_system := ''Darwin''\<rparr>) = Inr None"
  by (simp add: get_metrics_async_def example_metrics_env_def lower_eval)

lemma get_memory_example [simp]:
  "get_memory_profile example_memory_env = Inr \<lparr>memory_bytes = 8589934592\<rparr>"
  by (simp add: example_memory_env_def)

lemma good_memory_tick_simps [simp]:
  "mem_env good_memory_tick = example_memory_env"
  "callback_result good_memory_tick = Inr ()"
  "sleep_result good_memory_tick = Inr ()"
  by (simp_all add: good_memory_tick_def)

lemma good_node_tick_simps [simp]:
  "mem_env good_node_tick = example_memory_env"
  "callback_result good_node_tick = Inr ()"
  "sleep_result good_node_tick = Inr ()"
  "metrics_source good_node_tick = example_metrics_env"
  "get_network_interfaces good_node_tick = Inr [''en0'']"
  "get_model_and_chip good_node_tick = Inr (''Mac15,6'', ''Apple M3'')"
  "get_friendly_name good_node_tick = Inr ''studio''"
  by (simp_all add: good_node_tick_def)

lemma absent_node_tick_simps [simp]:
  "metrics_source absent_node_tick = example_metrics_env\<lparr>platform_system := ''Darwin''\<rparr>"
  "sleep_result absent_node_tick = Inr ()"
  by (simp_all add: absent_node_tick_def)

lemma node_body_good [simp]:
  "node_body good_node_tick = (Value (), map Called node_call_order @ [Sink example_profile])"
  by (simp add: node_body_unfold example_profile_def)

lemma benign_good_node_tick [simp]: "benign_node_tick good_node_tick"
  by (simp add: benign_node_tick_def benign_def)

lemma benign_good_memory_tick [simp]: "benign_memory_tick good_memory_tick"
  by (simp add: benign_memory_tick_def benign_def memory_body_simps)

section \<open>Properties of single iterations\<close>

text \<open>
  C5 (safety). The sleep is unconditional: whatever the block of an iteration
  did (delivered, raised a recoverable or any other exception, returned), the
  iteration has slept exactly once, for the loop's interval, and that sleep is
  the last thing it did.
\<close>

theorem every_tick_sleeps_last:
  "sleeps (snd (memory_tick i menv)) = [i] \<and> last (snd (memory_tick i menv)) = Slept i \<and>
   sleeps (snd (node_tick nenv)) = [node_poll_interval_s] \<and>
   last (snd (node_tick nenv)) = Slept node_poll_interval_s"
proof -
  have "last (snd (memory_tick i menv)) = Slept i"
    by (simp add: snd_memory_tick)
  moreover have "last (snd (node_tick nenv)) = Slept node_poll_interval_s"
    by (simp add: snd_node_tick)
  ultimately show ?thesis by simp
qed

text \<open>
  C22 (functional). When every collaborator answers and the sink returns, an
  iteration of the node loop calls the metrics source, the interfaces, model and
  chip, the friendly name and the memory profile in this order, hands the sink
  one record assembled from exactly these answers, with the system profile
  projected from the sample, sleeps one second and continues.
\<close>

theorem node_tick_success:
  assumes "get_metrics_async (metrics_source env) = Inr (Some m)"
    and "get_network_interfaces env = Inr ni"
    and "get_model_and_chip env = Inr mc"
    and "get_friendly_name env = Inr name"
    and "get_memory_profile (mem_env env) = Inr mp"
    and "callback_result env = Inr ()"
    and "sleep_result env = Inr ()"
  shows "node_tick env =
     (Value (),
      map Called node_call_order @
      [Sink \<lparr>model_id = fst mc, chip_id = snd mc, friendly_name = name,
             network_interfaces = ni, memory = mp, system = system_profile m\<rparr>,
       Slept node_poll_interval_s])"
  using assms
  by (simp add: prod_eq_iff fst_node_tick snd_node_tick node_body_unfold node_profile_def)

theorem node_tick_success_witness:
  "node_tick good_node_tick =
     (Value (), map Called node_call_order @ [Sink example_profile, Slept node_poll_interval_s])"
  using node_tick_success [of good_node_tick "generic_metrics 4 (25 / 2) 50" "[''en0'']"
      "(''Mac15,6'', ''Apple M3'')" "''studio''" "\<lparr>memory_bytes = 8589934592\<rparr>"]
  by (simp add: example_profile_def node_profile_def)

text \<open>
  Whenever an iteration of the node loop reaches the sink, the five collaborator
  calls came before it in their fixed order, the memory profile being read last,
  directly before the sink; nothing is called and no further record is delivered
  afterwards.
\<close>

lemma memory_read_is_last:
  assumes "sinks (snd (node_tick env)) = [p]"
  shows "\<exists>rest. snd (node_tick env) = map Called node_call_order @ Sink p # rest \<and>
           calls rest = [] \<and> sinks rest = []"
proof -
  obtain l where shape: "snd (node_tick env) =
      snd (node_body env) @ map Logged l @ [Slept node_poll_interval_s]"
    using snd_node_tick_shape by blast
  with assms have "sinks (snd (node_body env)) = [p]" by simp
  then have "snd (node_body env) = map Called node_call_order @ [Sink p]" by (rule node_body_sink)
  with shape have "snd (node_tick env) =
      map Called node_call_order @ Sink p # (map Logged l @ [Slept node_poll_interval_s])"
    by simp
  moreover have "calls (map Logged l @ [Slept node_poll_interval_s]) = []"
    and "sinks (map Logged l @ [Slept node_poll_interval_s]) = []"
    by simp_all
  ultimately show ?thesis by blast
qed

text \<open>
  C9 (error). A fault of the telemetry collaborator or a timeout, raised
  anywhere in the block of a node iteration, does not leave the iteration: it is
  logged once (a warning for the timeout, an error that carries the exception
  for the collaborator's fault) and the loop continues.
\<close>

theorem recoverable_fault_is_isolated:
  assumes "fst (node_body env) = Raised e"
    and "node_recoverable e"
    and "sleep_result env = Inr ()"
  shows "fst (node_tick env) = Value () \<and>
         logs (snd (node_tick env)) =
           logs (snd (node_body env)) @
           [if isinstance e TimeoutError then timeout_warning else resource_error e]"
  using assms by (auto simp: fst_node_tick snd_node_tick node_recoverable_def)

theorem recoverable_fault_is_isolated_witness:
  "fst (node_tick (good_node_tick\<lparr>get_friendly_name := Inl macmon_fault\<rparr>)) = Value () \<and>
   logs (snd (node_tick (good_node_tick\<lparr>get_friendly_name := Inl macmon_fault\<rparr>))) =
     [resource_error macmon_fault]"
  using recoverable_fault_is_isolated
    [of "good_node_tick\<lparr>get_friendly_name := Inl macmon_fault\<rparr>" macmon_fault]
  by (simp add: node_body_unfold node_recoverable_def macmon_fault_def exn_simps)

text \<open>
  C31 (error). Cancellation ends the loop wherever it is delivered. No clause of
  either loop takes \<^verbatim>\<open>CancelledError\<close>; so when an awaited collaborator, the
  sink or the sleep raises it, the loop ends with an exception. A cancellation
  that arrives in the block does not end the iteration at once: the sleep of
  the \<^verbatim>\<open>finally\<close> clause runs first, and if that sleep is cancelled as well,
  its exception is the one the loop ends with.
\<close>

theorem cancellation_ends_loop:
  assumes "isinstance c CancelledError"
    and "fst (memory_body menv) = Raised c \<or> sleep_result menv = Inl c"
    and "fst (node_body nenv) = Raised c \<or> sleep_result nenv = Inl c"
  shows "status_of (fst (memory_tick i menv)) =
           Failed (case sleep_result menv of Inl c' \<Rightarrow> c' | Inr u \<Rightarrow> c) \<and>
         last (snd (memory_tick i menv)) = Slept i \<and>
         status_of (fst (node_tick nenv)) =
           Failed (case sleep_result nenv of Inl c' \<Rightarrow> c' | Inr u \<Rightarrow> c) \<and>
         last (snd (node_tick nenv)) = Slept node_poll_interval_s"
  using assms cancelled_unrecoverable [OF assms(1)]
  by (auto simp: fst_memory_tick fst_node_tick snd_memory_tick snd_node_tick split: sum.splits)

theorem cancellation_ends_loop_witness:
  "status_of (fst (memory_tick (1 / 2) (good_memory_tick\<lparr>callback_result := Inl cancelled\<rparr>))) =
     Failed cancelled \<and>
   last (snd (memory_tick (1 / 2) (good_memory_tick\<lparr>callback_result := Inl cancelled\<rparr>))) =
     Slept (1 / 2) \<and>
   status_of (fst (node_tick (absent_node_tick\<lparr>sleep_result := Inl cancelled\<rparr>))) =
     Failed cancelled \<and>
   last (snd (node_tick (absent_node_tick\<lparr>sleep_result := Inl cancelled\<rparr>))) =
     Slept node_poll_interval_s"
  using cancellation_ends_loop
    [of cancelled "good_memory_tick\<lparr>callback_result := Inl cancelled\<rparr>"
        "absent_node_tick\<lparr>sleep_result := Inl cancelled\<rparr>" "1 / 2"]
  by (simp add: cancelled_def isinstance_def memory_body_simps)

section \<open>Properties of the loops\<close>

text \<open>
  C1 (liveness). The memory loop never returns exactly when every iteration is
  benign: the sleep is not cancelled and the block raises nothing but the
  collaborator's recoverable fault. Recoverable faults, however many, never stop
  the loop.
\<close>

theorem memory_loop_runs_forever_iff:
  "start_polling_memory_metrics i envs = None \<longleftrightarrow> (\<forall>k. benign_memory_tick (envs k))"
  by (simp add: start_polling_memory_metrics_def while_true_None_iff_values memory_tick_Value_iff)

text \<open>
  C7 (functional). After \<open>n\<close> benign iterations the memory loop is still running,
  has slept \<open>n\<close> times for its interval, and has invoked the sink exactly
  once per iteration, each time with the profile computed in that iteration
  (so a change of the override shows in the next record).
\<close>

theorem memory_loop_delivers_every_tick:
  assumes "\<forall>k < n. benign_memory_tick (envs k)"
  shows "status (run_for n (memory_tick i) envs init_loop) = Running \<and>
         iterations (run_for n (memory_tick i) envs init_loop) = n \<and>
         map Inr (sinks (trace (run_for n (memory_tick i) envs init_loop))) =
           map (\<lambda>k. get_memory_profile (mem_env (envs k))) [0 ..< n] \<and>
         sleeps (trace (run_for n (memory_tick i) envs init_loop)) = replicate n i"
proof -
  have "map Inr (sinks (concat (map (\<lambda>k. snd (memory_tick i (envs k))) [0 ..< n]))) =
      concat (map (\<lambda>k. map Inr (sinks (snd (memory_tick i (envs k))))) [0 ..< n])"
    by (simp add: sinks_concat map_concat comp_def)
  also have "\<dots> = concat (map (\<lambda>k. [get_memory_profile (mem_env (envs k))]) [0 ..< n])"
    using assms by (intro arg_cong [where f = concat] map_cong) (simp_all add: sinks_benign_memory_tick)
  also have "\<dots> = map (\<lambda>k. get_memory_profile (mem_env (envs k))) [0 ..< n]"
    by (induction n) simp_all
  finally show ?thesis
    by (simp add: memory_run_benign [OF assms] sleeps_concat comp_def map_replicate_const)
qed

theorem memory_loop_delivers_every_tick_witness:
  "status (run_for 3 (memory_tick (1 / 2)) (\<lambda>k. good_memory_tick) init_loop) = Running \<and>
   sinks (trace (run_for 3 (memory_tick (1 / 2)) (\<lambda>k. good_memory_tick) init_loop)) =
     replicate 3 \<lparr>memory_bytes = 8589934592\<rparr> \<and>
   sleeps (trace (run_for 3 (memory_tick (1 / 2)) (\<lambda>k. good_memory_tick) init_loop)) =
     replicate 3 (1 / 2)"
proof -
  have "\<forall>k < 3. benign_memory_tick ((\<lambda>k. good_memory_tick) k)" by simp
  note run = memory_loop_delivers_every_tick [OF this, of "1 / 2"]
  from run have "map Inr (sinks (trace (run_for 3 (memory_tick (1 / 2)) (\<lambda>k. good_memory_tick) init_loop))) =
      replicate 3 (Inr \<lparr>memory_bytes = 8589934592\<rparr> :: MemoryPerformanceProfile result)"
    by (simp add: map_replicate_const)
  then have "map (Inr :: _ \<Rightarrow> MemoryPerformanceProfile result)
        (sinks (trace (run_for 3 (memory_tick (1 / 2)) (\<lambda>k. good_memory_tick) init_loop))) =
      map Inr (replicate 3 \<lparr>memory_bytes = 8589934592\<rparr>)"
    by simp
  then have "sinks (trace (run_for 3 (memory_tick (1 / 2)) (\<lambda>k. good_memory_tick) init_loop)) =
      replicate 3 \<lparr>memory_bytes = 8589934592\<rparr>"
    by (simp only: inj_map_eq_map [OF inj_Inr])
  with run show ?thesis by simp
qed

text \<open>
  C8 (bounds). The cadence of the memory loop. With a positive interval \<open>i\<close>
  and benign iterations, the sink has been invoked \<open>\<lfloor>T / i\<rfloor> + 1\<close> times within the
  first \<open>T\<close> seconds (at the times \<open>0\<close>, \<open>i\<close>, \<open>2 i\<close>, and so on), faults of
  the sink included, as long as the run is long enough to get there. Only the
  sleeps take time here.
\<close>

theorem memory_loop_cadence:
  assumes "\<forall>k < n. benign_memory_tick (envs k)" and "0 < i" and "0 \<le> T"
  shows "sinks_within T (trace (run_for n (memory_tick i) envs init_loop)) =
           min n (Suc (nat \<lfloor>T / i\<rfloor>))"
proof -
  have "\<forall>k \<in> set [0 ..< n]. \<exists>p l.
      snd (memory_tick i (envs k)) = round [GetMemoryProfile] p l i \<and> length l \<le> 1"
    by (intro ballI memory_tick_round) (simp add: assms(1))
  from sinks_within_rounds [OF this assms(2,3)] assms(1) show ?thesis
    by (simp add: memory_run_benign)
qed

theorem memory_loop_cadence_witness:
  "sinks_within 2 (trace (run_for 10 (memory_tick (1 / 2)) (\<lambda>k. good_memory_tick) init_loop)) = 5"
  using memory_loop_cadence [of 10 "\<lambda>k. good_memory_tick" "1 / 2" 2]
  by simp

text \<open>
  C35 (safety). The memory loop has no way to return: if it ends at all, an
  exception has left it.
\<close>

theorem memory_loop_ends_only_by_exception:
  assumes "start_polling_memory_metrics i envs = Some st"
  shows "\<exists>e. status st = Failed e"
proof -
  from assms obtain n where n: "run_for n (memory_tick i) envs init_loop = st"
    and stop: "status st \<noteq> Running"
    by (auto simp: start_polling_memory_metrics_def while_true_Some_iff)
  have "status (run_for n (memory_tick i) envs st0) \<noteq> Stopped" if "status st0 \<noteq> Stopped" for st0
    using that
  proof (induction n arbitrary: st0)
    case 0
    then show ?case by simp
  next
    case (Suc n)
    show ?case
    proof (cases "status st0 = Running")
      case True
      have "status (iterate (memory_tick i) (envs (iterations st0)) st0) \<noteq> Stopped"
        using memory_tick_not_Returned [of i "envs (iterations st0)"]
        by (cases "fst (memory_tick i (envs (iterations st0)))") simp_all
      from Suc.IH [OF this] True show ?thesis by simp
    next
      case False
      with Suc.prems show ?thesis by simp
    qed
  qed
  from this [of init_loop] n have "status st \<noteq> Stopped" by (simp add: init_loop_def)
  with stop show ?thesis by (cases "status st") auto
qed

theorem memory_loop_ends_only_by_exception_witness:
  "\<exists>e. status (the (start_polling_memory_metrics (1 / 2)
          (\<lambda>k. good_memory_tick\<lparr>sleep_result := Inl cancelled\<rparr>))) = Failed e"
proof -
  have "\<not> benign_memory_tick (good_memory_tick\<lparr>sleep_result := Inl cancelled\<rparr>)"
    by (simp add: benign_memory_tick_def benign_def)
  from memory_loop_first_stop [of 0 "\<lambda>k. good_memory_tick\<lparr>sleep_result := Inl cancelled\<rparr>" "1 / 2"] this
  have "start_polling_memory_metrics (1 / 2) (\<lambda>k. good_memory_tick\<lparr>sleep_result := Inl cancelled\<rparr>) =
      Some (the (start_polling_memory_metrics (1 / 2) (\<lambda>k. good_memory_tick\<lparr>sleep_result := Inl cancelled\<rparr>)))"
    by simp
  then show ?thesis by (rule memory_loop_ends_only_by_exception)
qed

text \<open>
  C32 (error). A value of \<^verbatim>\<open>OVERRIDE_MEMORY_MB\<close> that is not a decimal literal
  ends the memory loop: in the first iteration that reads it the
  \<^verbatim>\<open>ValueError\<close> of the conversion is not among the recoverable faults, the
  sink is not invoked, the iteration still sleeps, and the exception leaves the
  loop.
\<close>

theorem malformed_override_ends_memory_loop:
  assumes "\<forall>k < K. benign_memory_tick (envs k)"
    and "getenv_override (mem_env (envs K)) = Some s" and "s \<noteq> []"
    and "\<not> digit_groups (snd (split_sign (strip s)))"
    and "sleep_result (envs K) = Inr ()"
  shows "\<exists>st. start_polling_memory_metrics i envs = Some st \<and>
           status st = Failed (invalid_literal s) \<and> iterations st = Suc K \<and>
           trace st = trace (run_for K (memory_tick i) envs init_loop) @
                      [Called GetMemoryProfile, Slept i]"
proof -
  have raise: "get_memory_profile (mem_env (envs K)) = Inl (invalid_literal s)"
    using assms(2-4) by (simp add: get_memory_profile_invalid py_int_malformed)
  then have body: "memory_body (envs K) = (Raised (invalid_literal s), [Called GetMemoryProfile])"
    by (simp add: memory_body_simps)
  have unrec: "\<not> memory_recoverable (invalid_literal s)"
    using get_memory_profile_unrecoverable [OF raise] by simp
  then have "\<not> benign_memory_tick (envs K)"
    by (simp add: benign_memory_tick_def benign_def body)
  from memory_loop_first_stop [OF assms(1) this, of i] unrec assms(5) show ?thesis
    by (simp add: fst_memory_tick snd_memory_tick body memory_run_benign [OF assms(1)])
qed

theorem malformed_override_ends_memory_loop_witness:
  "\<exists>st. start_polling_memory_metrics (1 / 2)
          (\<lambda>k. if k < 1 then good_memory_tick
               else good_memory_tick\<lparr>mem_env := example_memory_env\<lparr>getenv_override := Some ''4GB''\<rparr>\<rparr>) =
          Some st \<and>
        status st = Failed (invalid_literal ''4GB'') \<and> iterations st = 2"
  using malformed_override_ends_memory_loop [of 1
      "\<lambda>k. if k < 1 then good_memory_tick
           else good_memory_tick\<lparr>mem_env := example_memory_env\<lparr>getenv_override := Some ''4GB''\<rparr>\<rparr>"
      "''4GB''" "1 / 2"]
  by (auto simp: strip_def is_space_def is_digit_def)

text \<open>
  C30 (liveness). The node loop never returns exactly when every iteration is
  benign: the sample is never absent, the sleep is not cancelled, and the block
  raises nothing but a timeout or the collaborator's recoverable fault.
\<close>

theorem node_loop_runs_forever_iff:
  "start_polling_node_metrics envs = None \<longleftrightarrow> (\<forall>k. benign_node_tick (envs k))"
  by (simp add: start_polling_node_metrics_def while_true_None_iff_values node_tick_Value_iff)

text \<open>
  C2 (termination). If the iterations before the \<open>K\<close>-th are benign and the
  \<open>K\<close>-th sample is absent, the node loop returns: it ends in the state
  \<open>Stopped\<close> after \<open>K + 1\<close> iterations, having slept in each of them,
  without a log entry for the absent sample, and with at most \<open>K\<close> records
  delivered (exactly \<open>K\<close> when no earlier iteration met a fault).
\<close>

theorem node_loop_stops_on_absent:
  assumes "\<forall>k < K. benign_node_tick (envs k)"
    and "get_metrics_async (metrics_source (envs K)) = Inr None"
    and "sleep_result (envs K) = Inr ()"
  shows "\<exists>st. start_polling_node_metrics envs = Some st \<and> status st = Stopped \<and>
           iterations st = Suc K \<and> logs (trace st) = logs (trace (run_for K node_tick envs init_loop)) \<and>
           length (sinks (trace st)) \<le> K \<and>
           sleeps (trace st) = replicate (Suc K) node_poll_interval_s \<and>
           ((\<forall>k < K. fst (node_body (envs k)) = Value ()) \<longrightarrow> length (sinks (trace st)) = K)"
proof -
  let ?tr = "\<lambda>n. concat (map (\<lambda>k. snd (node_tick (envs k))) [0 ..< n])"
  let ?st = "\<lparr>status = Stopped, trace = ?tr (Suc K), iterations = Suc K\<rparr>"
  have ret: "fst (node_tick (envs K)) = Returned"
    using assms(2,3) by (simp add: node_tick_Returned_iff)
  have "start_polling_node_metrics envs = Some ?st"
    using node_loop_first_stop [OF assms(1) absent_not_benign [OF assms(2)]] ret by simp
  moreover have "length (sinks (?tr (Suc K))) \<le> K"
    using sinks_node_run_le [of envs "[0 ..< K]"] by (simp add: sinks_node_tick_absent [OF assms(2)])
  moreover have "sleeps (?tr (Suc K)) = replicate (Suc K) node_poll_interval_s"
    by (simp add: sleeps_concat comp_def map_replicate_const replicate_append_same)
  moreover have "logs (?tr (Suc K)) = logs (trace (run_for K node_tick envs init_loop))"
    using assms(2) by (simp add: node_run_benign [OF assms(1)] snd_node_tick node_body_absent)
  moreover have "length (sinks (?tr (Suc K))) = K" if "\<forall>k < K. fst (node_body (envs k)) = Value ()"
  proof -
    have "length (sinks (?tr K)) = K"
      using that
    proof (induction K)
      case 0
      then show ?case by simp
    next
      case (Suc K)
      then show ?case by (simp add: sinks_node_tick_Value)
    qed
    then show ?thesis by (simp add: sinks_node_tick_absent [OF assms(2)])
  qed
  ultimately show ?thesis by auto
qed

theorem node_loop_stops_on_absent_witness:
  "\<exists>st. start_polling_node_metrics (\<lambda>k. if k < 2 then good_node_tick else absent_node_tick) = Some st \<and>
        status st = Stopped \<and> iterations st = 3 \<and> length (sinks (trace st)) = 2"
  using node_loop_stops_on_absent [of 2 "\<lambda>k. if k < 2 then good_node_tick else absent_node_tick"]
  by (auto simp: numeral_3_eq_3)

end
