(* ===== verification/Loop_Spec.thy ===== *)
theory Loop_Spec
  imports Polling
begin

text \<open>
  The state machine the polling loops are specified by, and the loops of
  \<^verbatim>\<open>profile.py\<close> as an implementation of it. The machine has two states; a
  loop stays in \<open>SpecRunning\<close> on a successful iteration and on a recoverable
  fault, and goes to \<open>SpecStopped\<close> when the metrics source is absent (the node
  loop only) or when its task is cancelled. An iteration of the code is read as
  one labelled step of the machine; an iteration that lets any other exception
  escape has no label, because the machine has no step for it.
\<close>

section \<open>The machine\<close>

datatype loop_kind = MemoryLoop | NodeLoop

datatype phase = SpecRunning | SpecStopped

datatype tick_kind = Success | RecoverableFault | Absent | Cancelled

inductive spec_step :: "loop_kind \<Rightarrow> phase \<Rightarrow> tick_kind \<Rightarrow> phase \<Rightarrow> bool" where
  tick_success: "spec_step k SpecRunning Success SpecRunning"
| tick_fault: "spec_step k SpecRunning RecoverableFault SpecRunning"
| tick_absent: "spec_step NodeLoop SpecRunning Absent SpecStopped"
| tick_cancelled: "spec_step k SpecRunning Cancelled SpecStopped"

code_pred spec_step .

inductive_simps spec_step_from_stopped [simp]: "spec_step k SpecStopped l s"
inductive_cases spec_step_absent: "spec_step k s Absent s'"

text \<open>A path of the machine: the labels of consecutive steps.\<close>

inductive spec_path :: "loop_kind \<Rightarrow> phase \<Rightarrow> tick_kind list \<Rightarrow> phase \<Rightarrow> bool" where
  path_nil: "spec_path k s [] s"
| path_cons: "spec_step k s l s' \<Longrightarrow> spec_path k s' ls s'' \<Longrightarrow> spec_path k s (l # ls) s''"

code_pred spec_path .

inductive_simps spec_path_Nil [simp]: "spec_path k s [] s'"
inductive_simps spec_path_Cons [simp]: "spec_path k s (l # ls) s'"

section \<open>The loops seen as the machine\<close>

text \<open>
  The state of a loop as a state of the machine. A loop that an exception has
  left has stopped; whether the machine allows the step that led there is the
  matter of the label.
\<close>

fun phase_of :: "loop_status \<Rightarrow> phase" where
  "phase_of Running = SpecRunning"
| "phase_of Stopped = SpecStopped"
| "phase_of (Failed e) = SpecStopped"

text \<open>
  The label of an iteration, from what its block and its sleep did: cancelled
  when \<^verbatim>\<open>CancelledError\<close> leaves it, none when another exception does.
\<close>

definition escape_kind :: "exn \<Rightarrow> tick_kind option" where
  "escape_kind e = (if isinstance e CancelledError then Some Cancelled else None)"

definition classify :: "(exn \<Rightarrow> bool) \<Rightarrow> ('a, 'p) act \<Rightarrow> unit result \<Rightarrow> tick_kind option" where
  "classify recoverable body sleep =
     (case sleep of
        Inl c \<Rightarrow> escape_kind c
      | Inr u \<Rightarrow>
          (case fst body of
             Value x \<Rightarrow> Some Success
           | Returned \<Rightarrow> Some Absent
           | Raised e \<Rightarrow> if recoverable e then Some RecoverableFault else escape_kind e))"

definition memory_tick_kind :: "'a memory_tick_env_scheme \<Rightarrow> tick_kind option" where
  "memory_tick_kind env = classify memory_recoverable (memory_body env) (sleep_result env)"

definition node_tick_kind :: "'i node_tick_env \<Rightarrow> tick_kind option" where
  "node_tick_kind env = classify node_recoverable (node_body env) (sleep_result env)"

text \<open>The labels of the first \<open>n\<close> iterations.\<close>

definition kinds :: "('e \<Rightarrow> tick_kind option) \<Rightarrow> (nat \<Rightarrow> 'e) \<Rightarrow> nat \<Rightarrow> tick_kind list" where
  "kinds kind_of envs n = map (\<lambda>k. the (kind_of (envs k))) [0 ..< n]"

section \<open>Facts on the machine\<close>

lemma spec_path_snoc:
  "spec_path k s ls s' \<Longrightarrow> spec_step k s' l s'' \<Longrightarrow> spec_path k s (ls @ [l]) s''"
  by (induction rule: spec_path.induct) (auto intro: spec_path.intros)

lemma spec_path_stopped: "spec_path k SpecStopped ls s \<Longrightarrow> ls = [] \<and> s = SpecStopped"
  by (cases ls) auto

lemma spec_step_deterministic: "spec_step k s l s' \<Longrightarrow> spec_step k s l s'' \<Longrightarrow> s' = s''"
  by (auto elim!: spec_step.cases)

lemma memory_machine_never_absent: "\<not> spec_step MemoryLoop s Absent s'"
  by (auto elim: spec_step_absent)

lemma kinds_Suc: "kinds kind_of envs (Suc n) = kinds kind_of envs n @ [the (kind_of (envs n))]"
  by (simp add: kinds_def)

section \<open>One iteration is one step\<close>

lemma escape_kind_step:
  "escape_kind e = Some l \<Longrightarrow> spec_step k SpecRunning l (phase_of (Failed e))"
  by (auto simp: escape_kind_def intro: spec_step.intros split: if_splits)

lemma node_tick_step:
  assumes "node_tick_kind env = Some l"
  shows "spec_step NodeLoop SpecRunning l (phase_of (status_of (fst (node_tick env))))"
  using assms
  by (cases "sleep_result env"; cases "fst (node_body env)")
    (auto simp: node_tick_kind_def classify_def fst_node_tick
      intro: spec_step.intros escape_kind_step [simplified] split: if_splits)

lemma memory_tick_step:
  assumes "memory_tick_kind env = Some l"
  shows "spec_step MemoryLoop SpecRunning l (phase_of (status_of (fst (memory_tick i env))))"
  using assms memory_body_not_Returned [of env]
  by (cases "sleep_result env"; cases "fst (memory_body env)")
    (auto simp: memory_tick_kind_def classify_def fst_memory_tick
      intro: spec_step.intros escape_kind_step [simplified] split: if_splits)

section \<open>Runs are paths\<close>

lemma run_refines:
  assumes sim: "\<And>env l. kind_of env = Some l \<Longrightarrow>
      spec_step K SpecRunning l (phase_of (status_of (fst (body env))))"
    and labelled: "\<forall>k < n. kind_of (envs k) \<noteq> None"
  shows "spec_path K SpecRunning
           (kinds kind_of envs (iterations (run_for n body envs init_loop)))
           (phase_of (status (run_for n body envs init_loop)))"
  using labelled
proof (induction n)
  case 0
  show ?case by (simp add: init_loop_def kinds_def path_nil)
next
  case (Suc n)
  let ?st = "run_for n body envs init_loop"
  from Suc have path: "spec_path K SpecRunning (kinds kind_of envs (iterations ?st)) (phase_of (status ?st))"
    by simp
  note last = run_for_Suc_last [of n body envs init_loop]
  show ?case
  proof (cases "status ?st = Running")
    case False
    with path show ?thesis by (simp add: last del: run_for.simps)
  next
    case True
    then have n: "iterations ?st = n"
      using run_for_Running_iterations [of n body envs init_loop] by (simp add: init_loop_def)
    from Suc.prems obtain l where l: "kind_of (envs n) = Some l" by auto
    from path True n sim [OF l] l show ?thesis
      by (simp add: last kinds_Suc spec_path_snoc del: run_for.simps)
  qed
qed

lemma memory_loop_refines_state_machine:
  assumes "\<forall>k < n. memory_tick_kind (envs k) \<noteq> None"
  shows "spec_path MemoryLoop SpecRunning
           (kinds memory_tick_kind envs (iterations (run_for n (memory_tick i) envs init_loop)))
           (phase_of (status (run_for n (memory_tick i) envs init_loop)))"
  using memory_tick_step assms by (rule run_refines)

section \<open>Between two invocations of the sink\<close>

lemma paced_node_tick: "paced True (snd (node_tick env) @ rest) = paced True rest"
proof -
  obtain l where l: "snd (node_tick env) = snd (node_body env) @ map Logged l @ [Slept node_poll_interval_s]"
    using snd_node_tick_shape by blast
  from node_body_shape [of env] show ?thesis
    by (auto simp: l)
qed

lemma paced_memory_tick: "paced True (snd (memory_tick i env) @ rest) = paced True rest"
  by (cases "get_memory_profile (mem_env env)"; cases "callback_result env")
    (simp_all add: snd_memory_tick memory_body_simps)

section \<open>Properties of the loops as state machines\<close>

text \<open>
  C14 (refinement). The node loop implements the state machine of its
  specification: as long as no iteration lets an exception other than the
  cancellation escape, the iterations of a run are, label by label, a path of
  the machine from \<open>SpecRunning\<close> to the state the loop is in. So the loop is
  stopped only after an absent sample or a cancellation, and recoverable faults
  keep it running.
\<close>

theorem node_loop_refines_state_machine:
  assumes "\<forall>k < n. node_tick_kind (envs k) \<noteq> None"
  shows "spec_path NodeLoop SpecRunning
           (kinds node_tick_kind envs (iterations (run_for n node_tick envs init_loop)))
           (phase_of (status (run_for n node_tick envs init_loop)))"
  using node_tick_step assms by (rule run_refines)

theorem node_loop_refines_state_machine_witness:
  "spec_path NodeLoop SpecRunning
     (kinds node_tick_kind (\<lambda>k. if k < 2 then good_node_tick else absent_node_tick)
        (iterations (run_for 5 node_tick (\<lambda>k. if k < 2 then good_node_tick else absent_node_tick)
           init_loop)))
     (phase_of (status (run_for 5 node_tick
        (\<lambda>k. if k < 2 then good_node_tick else absent_node_tick) init_loop))) \<and>
   kinds node_tick_kind (\<lambda>k. if k < 2 then good_node_tick else absent_node_tick)
     (iterations (run_for 5 node_tick (\<lambda>k. if k < 2 then good_node_tick else absent_node_tick)
        init_loop)) = [Success, Success, Absent] \<and>
   status (run_for 5 node_tick (\<lambda>k. if k < 2 then good_node_tick else absent_node_tick)
     init_loop) = Stopped"
proof -
  let ?E = "\<lambda>k :: nat. if k < 2 then good_node_tick else absent_node_tick"
  have kind: "node_tick_kind (?E k) \<noteq> None" for k
    by (simp add: node_tick_kind_def classify_def node_body_absent)
  have run: "iterations (run_for 5 node_tick ?E init_loop) = 3 \<and>
      status (run_for 5 node_tick ?E init_loop) = Stopped"
    by (simp add: eval_nat_numeral init_loop_def iterate_def fst_node_tick node_body_absent
        node_recoverable_def)
  have "kinds node_tick_kind ?E 3 = [Success, Success, Absent]"
    by (simp add: kinds_def eval_nat_numeral node_tick_kind_def classify_def node_body_absent)
  with run node_loop_refines_state_machine [of 5 ?E] kind show ?thesis by simp
qed

text \<open>
  C15 (safety). A loop never invokes its sink twice without sleeping in between,
  whatever the collaborators, the sink and the sleep do and however the
  iterations end: the trace of every run of either loop is paced.
\<close>

theorem sink_invocations_are_paced:
  "paced True (trace (run_for n node_tick nenvs init_loop)) \<and>
   paced True (trace (run_for m (memory_tick i) menvs init_loop))"
  by (simp add: run_for_trace paced_concat paced_node_tick paced_memory_tick)

end
