(* ===== verification/Wellformed.thy ===== *)
theory Wellformed
  imports Polling
begin

text \<open>
  Well-formedness of the records that travel through the telemetry core, and
  its preservation by every operation on the way from the collaborators to the
  sink: the fallback sampler, the choice of the metrics source, the memory
  profile with its override, the projection onto the system profile, and an
  iteration of either loop. What the collaborators must deliver for this is
  stated as well-formedness of the environment.
\<close>

section \<open>Well-formed records\<close>

text \<open>A usage pair: a count of units and a percentage.\<close>

definition wf_usage :: "int \<times> real \<Rightarrow> bool" where
  "wf_usage u \<longleftrightarrow> 0 \<le> fst u \<and> 0 \<le> snd u \<and> snd u \<le> 100"

text \<open>A sample: no negative power, usage pairs well-formed. Temperatures are free.\<close>

definition wf_metrics :: "Metrics \<Rightarrow> bool" where
  "wf_metrics m \<longleftrightarrow>
     list_all (\<lambda>p. 0 \<le> p) (power_fields m) \<and>
     wf_usage (ecpu_usage m) \<and> wf_usage (gpu_usage m) \<and> wf_usage (pcpu_usage m)"

definition wf_system :: "SystemPerformanceProfile \<Rightarrow> bool" where
  "wf_system s \<longleftrightarrow>
     list_all (\<lambda>u. 0 \<le> u \<and> u \<le> 100) [sp_gpu_usage s, sp_pcpu_usage s, sp_ecpu_usage s] \<and>
     0 \<le> sp_sys_power s \<and> 0 \<le> sp_ane_power s"

definition wf_memory :: "MemoryPerformanceProfile \<Rightarrow> bool" where
  "wf_memory p \<longleftrightarrow> 0 \<le> memory_bytes p"

definition wf_node_profile :: "'i NodePerformanceProfile \<Rightarrow> bool" where
  "wf_node_profile r \<longleftrightarrow> wf_memory (memory r) \<and> wf_system (system r)"

section \<open>Well-formed environments\<close>

text \<open>
  psutil reports a utilisation between 0 and 100 and no negative number of
  CPUs; macmon reports well-formed samples.
\<close>

definition wf_psutil :: "psutil_env \<Rightarrow> bool" where
  "wf_psutil env \<longleftrightarrow>
     (case cpu_percent env of Inl e \<Rightarrow> True | Inr pct \<Rightarrow> 0 \<le> pct \<and> pct \<le> 100) \<and>
     (case cpu_count env of Inr (Some n) \<Rightarrow> 0 \<le> n | _ \<Rightarrow> True)"

definition wf_metrics_env :: "metrics_env \<Rightarrow> bool" where
  "wf_metrics_env env \<longleftrightarrow>
     wf_psutil (psutil env) \<and>
     (case macmon_get_metrics_async env of Inr (Some m) \<Rightarrow> wf_metrics m | _ \<Rightarrow> True)"

text \<open>
  The host detects no negative amount of memory, and the override, when it is
  set, carries no minus sign.
\<close>

definition wf_memory_env :: "memory_env \<Rightarrow> bool" where
  "wf_memory_env env \<longleftrightarrow>
     0 \<le> detected_bytes (virtual_memory env) \<and>
     (case getenv_override env of None \<Rightarrow> True | Some s \<Rightarrow> \<not> fst (split_sign (strip s)))"

definition wf_node_env :: "'i node_tick_env \<Rightarrow> bool" where
  "wf_node_env env \<longleftrightarrow> wf_metrics_env (metrics_source env) \<and> wf_memory_env (mem_env env)"

section \<open>Every operation keeps records well-formed\<close>

lemma wf_generic_metrics:
  "0 \<le> cpus \<Longrightarrow> 0 \<le> pct \<Longrightarrow> pct \<le> 100 \<Longrightarrow> wf_metrics (generic_metrics cpus pct t)"
  by (simp add: wf_metrics_def wf_usage_def generic_metrics_def power_fields_def)

lemma or_zero_nonneg: "(case c of Some n \<Rightarrow> 0 \<le> n | None \<Rightarrow> True) \<Longrightarrow> 0 \<le> or_zero c"
  by (cases c) (simp_all add: or_zero_def)

lemma collect_generic_metrics_wf:
  assumes "wf_psutil env" and "collect_generic_metrics env = Inr m"
  shows "wf_metrics m"
proof -
  from assms(2) obtain pct c avg where "cpu_percent env = Inr pct" "cpu_count env = Inr c"
    and m: "m = generic_metrics (or_zero c) pct avg"
    by (auto simp: collect_generic_metrics_Inr_iff)
  with assms(1) have "0 \<le> pct" "pct \<le> 100" "0 \<le> or_zero c"
    by (auto simp: wf_psutil_def intro!: or_zero_nonneg split: option.splits)
  then show ?thesis unfolding m by (intro wf_generic_metrics)
qed

lemma get_metrics_async_wf:
  assumes "wf_metrics_env env" and "get_metrics_async env = Inr (Some m)"
  shows "wf_metrics m"
proof (cases "lower (platform_system env) = ''darwin''")
  case True
  with assms show ?thesis by (simp add: get_metrics_async_darwin wf_metrics_env_def)
next
  case False
  with assms(2) have "collect_generic_metrics (psutil env) = Inr m"
    by (cases "collect_generic_metrics (psutil env)") (simp_all add: get_metrics_async_generic)
  with assms(1) show ?thesis by (auto simp: wf_metrics_env_def intro: collect_generic_metrics_wf)
qed

lemma system_profile_wf: "wf_metrics m \<Longrightarrow> wf_system (system_profile m)"
  by (simp add: wf_metrics_def wf_system_def wf_usage_def system_profile_def power_fields_def)

lemma py_int_unsigned: "py_int s = Inr n \<Longrightarrow> \<not> fst (split_sign (strip s)) \<Longrightarrow> 0 \<le> n"
  by (auto simp: py_int_def Let_def split: prod.splits if_splits)

lemma get_memory_profile_wf:
  assumes "wf_memory_env env" and "get_memory_profile env = Inr p"
  shows "wf_memory p"
proof (cases "getenv_override env")
  case None
  with assms show ?thesis by (auto simp: wf_memory_env_def wf_memory_def)
next
  case (Some s)
  show ?thesis
  proof (cases "s = []")
    case True
    with Some assms show ?thesis
      by (auto simp: wf_memory_env_def wf_memory_def get_memory_profile_def)
  next
    case False
    with Some assms(2) obtain mb where mb: "py_int s = Inr mb" and p: "p = \<lparr>memory_bytes = from_mb mb\<rparr>"
      by (cases "py_int s") (auto simp: get_memory_profile_invalid get_memory_profile_parsed)
    from assms(1) Some have "0 \<le> mb" by (auto simp: wf_memory_env_def intro: py_int_unsigned [OF mb])
    then show ?thesis by (simp add: p wf_memory_def from_mb_def)
  qed
qed

lemma node_profile_wf:
  "wf_metrics m \<Longrightarrow> wf_memory p \<Longrightarrow> wf_node_profile (node_profile m ni mc name p)"
  by (simp add: wf_node_profile_def node_profile_def system_profile_wf)

lemma node_tick_wf:
  assumes "wf_node_env env"
  shows "list_all wf_node_profile (sinks (snd (node_tick env)))"
proof -
  have "list_all wf_node_profile (sinks (snd (node_body env)))"
    using assms
    by (auto simp: node_body_unfold wf_node_env_def
        intro!: node_profile_wf get_metrics_async_wf get_memory_profile_wf
        split: sum.splits option.splits)
  then show ?thesis
    by (cases "fst (node_body env)") (simp_all add: snd_node_tick)
qed

lemma memory_tick_wf:
  assumes "wf_memory_env (mem_env env)"
  shows "list_all wf_memory (sinks (snd (memory_tick i env)))"
  using assms
  by (cases "get_memory_profile (mem_env env)"; cases "callback_result env")
    (auto simp: snd_memory_tick memory_body_simps intro: get_memory_profile_wf)

lemma memory_records_wellformed:
  assumes "\<forall>k < n. wf_memory_env (mem_env (envs k))"
  shows "list_all wf_memory (sinks (trace (run_for n (memory_tick i) envs init_loop)))"
  using assms by (intro run_sinks_all) (simp add: memory_tick_wf)

section \<open>What the override must not be\<close>

lemma negative_override_ill_formed:
  assumes "0 < n" and "length (decimal (nat n)) \<le> int_max_str_digits"
  shows "\<exists>p. get_memory_profile \<lparr>getenv_override = Some (py_str (- n)), virtual_memory = hm\<rparr> = Inr p \<and>
             \<not> wf_memory p"
proof -
  from assms have "py_int (py_str (- n)) = Inr (- n)"
    using py_int_py_str_padded [of "- n" "[]" "[]"] by simp
  moreover have "py_str (- n) \<noteq> []" using assms(1) by (simp add: py_str_def)
  ultimately show ?thesis
    using assms(1) by (simp add: get_memory_profile_parsed wf_memory_def from_mb_def)
qed

section \<open>Example environments are well-formed\<close>

lemma wf_good_node_tick [simp]: "wf_node_env good_node_tick"
  by (simp add: wf_node_env_def wf_metrics_env_def wf_psutil_def wf_memory_env_def
      example_metrics_env_def example_psutil_def example_memory_env_def)

section \<open>Properties\<close>

text \<open>
  C18 (type). Every record the node loop hands to its sink is well-formed: the
  memory ceiling is not negative, the usages lie between 0 and 100 and no power
  is negative, provided that the collaborators deliver well-formed answers
  (psutil a utilisation between 0 and 100 and no negative CPU count, macmon
  well-formed samples, the host no negative memory) and the override carries no
  minus sign. No exception, recoverable or not, changes this.
\<close>

theorem delivered_records_wellformed:
  assumes "\<forall>k < n. wf_node_env (envs k)"
  shows "list_all wf_node_profile (sinks (trace (run_for n node_tick envs init_loop)))"
  using assms by (intro run_sinks_all) (simp add: node_tick_wf)

theorem delivered_records_wellformed_witness:
  "list_all wf_node_profile (sinks (trace (run_for 3 node_tick (\<lambda>k. good_node_tick) init_loop)))"
  using delivered_records_wellformed [of 3 "\<lambda>k. good_node_tick"] by simp

end
