(* ===== verification/Joint_Loops.thy ===== *)
theory Joint_Loops
  imports Polling
begin

text \<open>
  The two loops in one process. They are separate tasks of one scheduler and
  share no variable; what they share is the host: each iteration of either loop
  calls \<^verbatim>\<open>get_memory_profile\<close>, which reads the variable
  \<^verbatim>\<open>OVERRIDE_MEMORY_MB\<close> and the memory of the host as they are at that
  moment. A schedule says whose iteration comes next; the host is a function of
  the time, and time advances by one with every turn. An iteration reads the
  host once, so the order of the iterations is all that an interleaving at the
  suspension points can change in what the loops deliver.
\<close>

section \<open>The process\<close>

datatype turn = MemoryTurn | NodeTurn

record 'i joint =
  memory_loop :: "MemoryPerformanceProfile loop_state"
  node_loop :: "'i NodePerformanceProfile loop_state"
  clock :: nat

text \<open>
  What the process meets: the host at every instant, and for each loop what its
  other collaborators do in each of its iterations.
\<close>

record 'i joint_env =
  world :: "nat \<Rightarrow> memory_env"
  memory_envs :: "nat \<Rightarrow> memory_tick_env"
  node_envs :: "nat \<Rightarrow> 'i node_tick_env"
  interval :: real

definition init_joint :: "'i joint" where
  "init_joint = \<lparr>memory_loop = init_loop, node_loop = init_loop, clock = 0\<rparr>"

text \<open>The environment of an iteration that runs at time \<open>t\<close>.\<close>

definition memory_env_at :: "'i joint_env \<Rightarrow> nat \<Rightarrow> nat \<Rightarrow> memory_tick_env" where
  "memory_env_at E t k = (memory_envs E k)\<lparr>mem_env := world E t\<rparr>"

definition node_env_at :: "'i joint_env \<Rightarrow> nat \<Rightarrow> nat \<Rightarrow> 'i node_tick_env" where
  "node_env_at E t k = (node_envs E k)\<lparr>mem_env := world E t\<rparr>"

text \<open>One turn: the loop whose turn it is runs one iteration, unless it has ended.\<close>

definition joint_step :: "'i joint_env \<Rightarrow> turn \<Rightarrow> 'i joint \<Rightarrow> 'i joint" where
  "joint_step E t j =
     (case t of
        MemoryTurn \<Rightarrow>
          j\<lparr>memory_loop :=
              run_for 1 (memory_tick (interval E)) (memory_env_at E (clock j)) (memory_loop j),
            clock := Suc (clock j)\<rparr>
      | NodeTurn \<Rightarrow>
          j\<lparr>node_loop := run_for 1 node_tick (node_env_at E (clock j)) (node_loop j),
            clock := Suc (clock j)\<rparr>)"

definition joint_run :: "'i joint_env \<Rightarrow> turn list \<Rightarrow> 'i joint" where
  "joint_run E sched = fold (joint_step E) sched init_joint"

text \<open>The times of the turns of one loop, and the environments it meets then.\<close>

definition turn_times :: "turn \<Rightarrow> turn list \<Rightarrow> nat list" where
  "turn_times t sched = filter (\<lambda>k. sched ! k = t) [0 ..< length sched]"

definition memory_view :: "'i joint_env \<Rightarrow> turn list \<Rightarrow> nat \<Rightarrow> memory_tick_env" where
  "memory_view E sched k = memory_env_at E (turn_times MemoryTurn sched ! k) k"

definition node_view :: "'i joint_env \<Rightarrow> turn list \<Rightarrow> nat \<Rightarrow> 'i node_tick_env" where
  "node_view E sched k = node_env_at E (turn_times NodeTurn sched ! k) k"

section \<open>Facts on schedules\<close>

lemma joint_run_Nil [simp]: "joint_run E [] = init_joint"
  by (simp add: joint_run_def)

lemma joint_run_snoc [simp]: "joint_run E (sched @ [t]) = joint_step E t (joint_run E sched)"
  by (simp add: joint_run_def)

lemma turn_times_Nil [simp]: "turn_times t [] = []"
  by (simp add: turn_times_def)

lemma turn_times_snoc:
  "turn_times t (sched @ [x]) = turn_times t sched @ (if x = t then [length sched] else [])"
proof -
  have "filter (\<lambda>k. (sched @ [x]) ! k = t) [0 ..< length sched] =
      filter (\<lambda>k. sched ! k = t) [0 ..< length sched]"
    by (rule filter_cong) (simp_all add: nth_append)
  then show ?thesis by (simp add: turn_times_def)
qed

lemma clock_joint_run [simp]: "clock (joint_run E sched) = length sched"
  by (induction sched rule: rev_induct) (simp_all add: init_joint_def joint_step_def split: turn.splits)

text \<open>A run reads its environments only at the iterations it performs.\<close>

lemma run_for_cong:
  assumes "\<And>k. iterations st \<le> k \<Longrightarrow> k < iterations st + n \<Longrightarrow> envs k = envs' k"
  shows "run_for n body envs st = run_for n body envs' st"
  using assms
proof (induction n arbitrary: st)
  case 0
  show ?case by simp
next
  case (Suc n)
  show ?case
  proof (cases "status st = Running")
    case True
    have "envs (iterations st) = envs' (iterations st)" by (rule Suc.prems) simp_all
    moreover have "run_for n body envs (iterate body (envs' (iterations st)) st) =
        run_for n body envs' (iterate body (envs' (iterations st)) st)"
      by (rule Suc.IH) (simp add: Suc.prems)
    ultimately show ?thesis using True by simp
  next
    case False
    then show ?thesis by simp
  qed
qed

text \<open>One more turn of a loop is one more iteration of its run alone.\<close>

lemma run_for_extend:
  assumes same: "\<And>k. k < m \<Longrightarrow> envs' k = envs k"
    and new: "envs' m = envs'' m"
  shows "run_for (Suc m) body envs' init_loop =
         run_for 1 body envs'' (run_for m body envs init_loop)"
proof -
  let ?st = "run_for m body envs init_loop"
  have "run_for m body envs' init_loop = ?st"
    by (rule run_for_cong) (simp add: same init_loop_def)
  moreover have "run_for 1 body envs' ?st = run_for 1 body envs'' ?st"
  proof (cases "status ?st = Running")
    case True
    then have "iterations ?st = m"
      using run_for_Running_iterations [of m body envs init_loop] by (simp add: init_loop_def)
    with True new show ?thesis by simp
  next
    case False
    then show ?thesis by simp
  qed
  ultimately show ?thesis using run_for_Suc_end [of m body envs' init_loop] by simp
qed

section \<open>The views of the loops\<close>

lemma memory_view_snoc:
  "memory_view E (sched @ [NodeTurn]) = memory_view E sched"
  "k < length (turn_times MemoryTurn sched) \<Longrightarrow>
     memory_view E (sched @ [MemoryTurn]) k = memory_view E sched k"
  "memory_view E (sched @ [MemoryTurn]) (length (turn_times MemoryTurn sched)) =
     memory_env_at E (length sched) (length (turn_times MemoryTurn sched))"
  by (simp_all add: memory_view_def turn_times_snoc fun_eq_iff nth_append)

lemma node_view_snoc:
  "node_view E (sched @ [MemoryTurn]) = node_view E sched"
  "k < length (turn_times NodeTurn sched) \<Longrightarrow>
     node_view E (sched @ [NodeTurn]) k = node_view E sched k"
  "node_view E (sched @ [NodeTurn]) (length (turn_times NodeTurn sched)) =
     node_env_at E (length sched) (length (turn_times NodeTurn sched))"
  by (simp_all add: node_view_def turn_times_snoc fun_eq_iff nth_append)

text \<open>
  The loops do not interfere: after any schedule each loop is where its run
  alone would be after as many iterations as it had turns, in the environments
  it met at the times of its turns.
\<close>

lemma joint_run_decomposes:
  "memory_loop (joint_run E sched) =
     run_for (length (turn_times MemoryTurn sched)) (memory_tick (interval E))
       (memory_view E sched) init_loop \<and>
   node_loop (joint_run E sched) =
     run_for (length (turn_times NodeTurn sched)) node_tick (node_view E sched) init_loop"
proof (induction sched rule: rev_induct)
  case Nil
  show ?case by (simp add: init_joint_def)
next
  case (snoc t sched)
  show ?case
  proof (cases t)
    case MemoryTurn
    have "run_for (Suc (length (turn_times MemoryTurn sched))) (memory_tick (interval E))
        (memory_view E (sched @ [MemoryTurn])) init_loop =
      run_for 1 (memory_tick (interval E)) (memory_env_at E (length sched))
        (run_for (length (turn_times MemoryTurn sched)) (memory_tick (interval E))
           (memory_view E sched) init_loop)"
      by (rule run_for_extend) (simp_all add: memory_view_snoc)
    with snoc MemoryTurn show ?thesis
      by (simp add: joint_step_def turn_times_snoc node_view_snoc del: run_for.simps One_nat_def)
  next
    case NodeTurn
    have "run_for (Suc (length (turn_times NodeTurn sched))) node_tick
        (node_view E (sched @ [NodeTurn])) init_loop =
      run_for 1 node_tick (node_env_at E (length sched))
        (run_for (length (turn_times NodeTurn sched)) node_tick (node_view E sched) init_loop)"
      by (rule run_for_extend) (simp_all add: node_view_snoc)
    with snoc NodeTurn show ?thesis
      by (simp add: joint_step_def turn_times_snoc memory_view_snoc del: run_for.simps One_nat_def)
  qed
qed

section \<open>What the loops deliver\<close>

lemma memory_tick_sinks:
  "list_all (\<lambda>p. Inr p = get_memory_profile (mem_env env)) (sinks (snd (memory_tick i env)))"
  by (cases "get_memory_profile (mem_env env)"; cases "callback_result env")
    (simp_all add: snd_memory_tick memory_body_simps)

lemma node_tick_sinks:
  "list_all (\<lambda>r. Inr (memory r) = get_memory_profile (mem_env env)) (sinks (snd (node_tick env)))"
proof -
  have "list_all (\<lambda>r. Inr (memory r) = get_memory_profile (mem_env env)) (sinks (snd (node_body env)))"
    by (auto simp: node_body_unfold node_profile_def split: sum.splits option.splits)
  then show ?thesis
    by (cases "fst (node_body env)") (simp_all add: snd_node_tick)
qed

lemma mem_env_views [simp]:
  "mem_env (memory_view E sched k) = world E (turn_times MemoryTurn sched ! k)"
  "mem_env (node_view E sched k) = world E (turn_times NodeTurn sched ! k)"
  by (simp_all add: memory_view_def node_view_def memory_env_at_def node_env_at_def)

section \<open>An example process\<close>

definition example_joint_env :: "string joint_env" where
  "example_joint_env =
     \<lparr>world = (\<lambda>t. \<lparr>getenv_override = Some ''4096'', virtual_memory = \<lparr>detected_bytes = int t\<rparr>\<rparr>),
      memory_envs = (\<lambda>k. good_memory_tick),
      node_envs = (\<lambda>k. good_node_tick),
      interval = 1 / 2\<rparr>"

section \<open>Properties of the two loops together\<close>

text \<open>
  C17 (functional). The override governs every memory profile of the process:
  while \<^verbatim>\<open>OVERRIDE_MEMORY_MB\<close> holds a decimal numeral, every record that the
  memory loop delivers and the memory profile of every record that the node loop
  delivers report exactly that many megabytes, however the two loops are
  scheduled and whatever memory the host reports in between.
\<close>

theorem override_governs_every_profile:
  assumes "\<forall>t. getenv_override (world E t) = Some s" and "s \<noteq> []" and "py_int s = Inr mb"
  shows "list_all (\<lambda>p. memory_bytes p = from_mb mb)
           (sinks (trace (memory_loop (joint_run E sched)))) \<and>
         list_all (\<lambda>r. memory_bytes (memory r) = from_mb mb)
           (sinks (trace (node_loop (joint_run E sched))))"
proof -
  have profile: "get_memory_profile (world E t) = Inr \<lparr>memory_bytes = from_mb mb\<rparr>" for t
    using assms by (simp add: get_memory_profile_parsed)
  have "list_all (\<lambda>p. memory_bytes p = from_mb mb)
      (sinks (snd (memory_tick (interval E) (memory_view E sched k))))" for k
    using memory_tick_sinks [of "memory_view E sched k" "interval E"]
    by (auto simp: list_all_iff profile)
  moreover have "list_all (\<lambda>r. memory_bytes (memory r) = from_mb mb)
      (sinks (snd (node_tick (node_view E sched k))))" for k
    using node_tick_sinks [of "node_view E sched k"]
    by (auto simp: list_all_iff profile)
  ultimately show ?thesis
    by (simp add: joint_run_decomposes run_sinks_all)
qed

theorem override_governs_every_profile_witness:
  "list_all (\<lambda>p. memory_bytes p = 4294967296)
     (sinks (trace (memory_loop (joint_run example_joint_env [MemoryTurn, NodeTurn, MemoryTurn])))) \<and>
   list_all (\<lambda>r. memory_bytes (memory r) = 4294967296)
     (sinks (trace (node_loop (joint_run example_joint_env [MemoryTurn, NodeTurn, MemoryTurn]))))"
  using override_governs_every_profile
    [of example_joint_env "''4096''" 4096 "[MemoryTurn, NodeTurn, MemoryTurn]"]
  by (simp add: example_joint_env_def from_mb_def)

end
