(* ===== verification/Suspension.thy ===== *)
theory Suspension
  imports Joint_Loops
begin

text \<open>
  Inside an iteration. The two loops are tasks of one cooperative scheduler:
  the other task can run only while this one is suspended in an \<^verbatim>\<open>await\<close>.
  Of the calls of an iteration the source awaits the metrics source (line 117),
  model and chip (line 123), the friendly name (line 124), the sink (lines 104
  and 129) and the sleep (lines 108 and 154); the network interfaces (line 121)
  and the memory profile (lines 103 and 127) are plain calls. A trace is cut
  into blocks after every awaited event, and a schedule merges the blocks of the
  two tasks. What is shown is the purpose of doing the memory profile last:
  nothing of the other task comes between the reading of the memory and the
  invocation of the sink with it.
\<close>

section \<open>Suspension points and blocks\<close>

fun awaited :: "callee \<Rightarrow> bool" where
  "awaited GetMetrics = True"
| "awaited GetNetworkInterfaces = False"
| "awaited GetModelAndChip = True"
| "awaited GetFriendlyName = True"
| "awaited GetMemoryProfile = False"

text \<open>
  What matters of an event here: whose it is, whether it reads the memory or
  delivers a record, and whether the task is suspended in it.
\<close>

datatype mark = Reads turn | Delivers turn | Other turn bool

fun mark_of :: "turn \<Rightarrow> 'p event \<Rightarrow> mark" where
  "mark_of w (Called c) = (if c = GetMemoryProfile then Reads w else Other w (awaited c))"
| "mark_of w (Sink p) = Delivers w"
| "mark_of w (Logged l) = Other w False"
| "mark_of w (Slept d) = Other w True"

fun suspends :: "mark \<Rightarrow> bool" where
  "suspends (Reads w) = False"
| "suspends (Delivers w) = True"
| "suspends (Other w b) = b"

text \<open>The blocks of a trace: each ends with the event in which the task is suspended.\<close>

fun segments :: "mark list \<Rightarrow> mark list list" where
  "segments [] = []"
| "segments (x # xs) =
     (if suspends x then [x] # segments xs
      else (case segments xs of [] \<Rightarrow> [[x]] | s # ss \<Rightarrow> (x # s) # ss))"

definition blocks :: "turn \<Rightarrow> 'p event list \<Rightarrow> mark list list" where
  "blocks w es = segments (map (mark_of w) es)"

text \<open>
  The trace of the process under a schedule: at each turn the next block of the
  task whose turn it is, if it has one left.
\<close>

fun merge :: "turn list \<Rightarrow> 'a list list \<Rightarrow> 'a list list \<Rightarrow> 'a list" where
  "merge [] ms ns = []"
| "merge (MemoryTurn # ts) [] ns = merge ts [] ns"
| "merge (MemoryTurn # ts) (m # ms) ns = m @ merge ts ms ns"
| "merge (NodeTurn # ts) ms [] = merge ts ms []"
| "merge (NodeTurn # ts) ms (n # ns) = n @ merge ts ms ns"

text \<open>
  Every delivery follows directly on a reading of the memory by the same task;
  the first argument is the event before.
\<close>

fun fresh :: "mark option \<Rightarrow> mark list \<Rightarrow> bool" where
  "fresh prev [] = True"
| "fresh prev (Delivers w # ms) = (prev = Some (Reads w) \<and> fresh (Some (Delivers w)) ms)"
| "fresh prev (Reads w # ms) = fresh (Some (Reads w)) ms"
| "fresh prev (Other w b # ms) = fresh (Some (Other w b)) ms"

section \<open>Facts on blocks and merges\<close>

lemma fresh_head: "fresh None b \<Longrightarrow> fresh q b"
proof (cases b)
  case Nil
  then show ?thesis by simp
next
  case (Cons x xs)
  assume "fresh None b"
  with Cons show ?thesis by (cases x) simp_all
qed

lemma fresh_after_suspension: "fresh (Some x) b \<Longrightarrow> suspends x \<Longrightarrow> fresh q b"
proof (cases b)
  case Nil
  then show ?thesis by simp
next
  case (Cons y ys)
  assume "fresh (Some x) b" and "suspends x"
  with Cons show ?thesis by (cases y) auto
qed

lemma fresh_append: "fresh q b \<Longrightarrow> (\<And>p. fresh p rest) \<Longrightarrow> fresh q (b @ rest)"
  by (induction q b rule: fresh.induct) simp_all

lemma fresh_merge:
  assumes "list_all (fresh None) ms" and "list_all (fresh None) ns"
  shows "fresh q (merge sched ms ns)"
  using assms
  by (induction sched ms ns arbitrary: q rule: merge.induct)
    (simp_all add: fresh_append fresh_head)

lemma segments_fresh:
  "fresh q xs \<Longrightarrow>
   (case segments xs of [] \<Rightarrow> True | b # bs \<Rightarrow> fresh q b \<and> list_all (fresh None) bs)"
proof (induction xs arbitrary: q)
  case Nil
  show ?case by simp
next
  case (Cons x xs)
  from Cons.prems have rest: "fresh (Some x) xs" by (cases x) simp_all
  note IH = Cons.IH [OF rest]
  show ?case
  proof (cases "suspends x")
    case True
    with IH have "list_all (fresh None) (segments xs)"
      by (cases "segments xs") (auto intro: fresh_after_suspension)
    with True Cons.prems show ?thesis by (cases x) simp_all
  next
    case False
    with IH Cons.prems show ?thesis by (cases x) (auto split: list.splits)
  qed
qed

lemma blocks_fresh: "fresh None (map (mark_of w) es) \<Longrightarrow> list_all (fresh None) (blocks w es)"
  using segments_fresh [of None "map (mark_of w) es"]
  by (auto simp: blocks_def split: list.splits)

lemma concat_segments [simp]: "concat (segments xs) = xs"
  by (induction xs) (auto split: list.splits)

text \<open>Run one after the other, the tasks leave their traces one after the other.\<close>

lemma merge_serial:
  "merge (replicate (length ms) MemoryTurn @ replicate (length ns) NodeTurn) ms ns =
     concat ms @ concat ns"
proof (induction ms)
  case Nil
  show ?case by (induction ns) simp_all
next
  case (Cons m ms)
  then show ?case by simp
qed

section \<open>The traces of the loops\<close>

lemma fresh_calls:
  "(\<And>p. fresh p rest) \<Longrightarrow> fresh q (map (mark_of w) (map Called cs) @ rest)"
  by (induction cs arbitrary: q) simp_all

lemma fresh_logs:
  "(\<And>p. fresh p rest) \<Longrightarrow> fresh q (map (mark_of w) (map Logged ls) @ rest)"
  by (induction ls arbitrary: q) simp_all

lemma fresh_concat:
  assumes "\<And>k q rest. (\<And>p. fresh p rest) \<Longrightarrow> fresh q (map (mark_of w) (f k) @ rest)"
  shows "fresh q (map (mark_of w) (concat (map f ks)))"
proof -
  have "fresh q (map (mark_of w) (concat (map f ks)) @ [])"
    by (induction ks arbitrary: q) (simp_all add: assms)
  then show ?thesis by simp
qed

lemma fresh_node_tick:
  assumes "\<And>p. fresh p rest"
  shows "fresh q (map (mark_of w) (snd (node_tick env)) @ rest)"
proof -
  obtain l where l: "snd (node_tick env) =
      snd (node_body env) @ map Logged l @ [Slept node_poll_interval_s]"
    using snd_node_tick_shape by blast
  have tail: "fresh p (map (mark_of w) (map Logged l) @ mark_of w (Slept node_poll_interval_s) # rest)" for p
    by (rule fresh_logs) (simp add: assms)
  from node_body_shape [of env] show ?thesis
  proof
    assume "\<exists>cs. snd (node_body env) = map Called cs"
    then obtain cs where "snd (node_body env) = map Called cs" ..
    with fresh_calls [of _ q w cs, OF tail] show ?thesis by (simp add: l)
  next
    assume "\<exists>p. snd (node_body env) = map Called node_call_order @ [Sink p]"
    then obtain p where "snd (node_body env) = map Called node_call_order @ [Sink p]" ..
    with tail show ?thesis by (simp add: l node_call_order_def)
  qed
qed

lemma fresh_memory_tick:
  assumes "\<And>p. fresh p rest"
  shows "fresh q (map (mark_of w) (snd (memory_tick i env)) @ rest)"
  by (cases "get_memory_profile (mem_env env)"; cases "callback_result env")
    (simp_all add: snd_memory_tick memory_body_simps assms)

text \<open>The blocks of an iteration of the node loop in which every collaborator answers.\<close>

lemma blocks_good_node_tick:
  "blocks NodeTurn (snd (node_tick good_node_tick)) =
     [[Other NodeTurn True], [Other NodeTurn False, Other NodeTurn True], [Other NodeTurn True],
      [Reads NodeTurn, Delivers NodeTurn], [Other NodeTurn True]]"
  by (simp add: blocks_def snd_node_tick node_call_order_def)

section \<open>Property of the interleaved loops\<close>

text \<open>
  C16 (safety). The memory profile a loop delivers is fresh. Under every schedule
  of the two tasks that switches only where a task is suspended, in every run and
  whatever the collaborators do, each invocation of a sink follows directly on
  the reading of the memory by the same task: no step of the other loop, and
  no other step of the same loop, lies between reading the memory and handing
  it to the sink. This is what doing the memory profile last achieves.
\<close>

theorem delivered_memory_is_fresh:
  "fresh None
     (merge sched
        (blocks MemoryTurn (trace (run_for m (memory_tick i) menvs init_loop)))
        (blocks NodeTurn (trace (run_for n node_tick nenvs init_loop))))"
  by (intro fresh_merge blocks_fresh)
    (simp_all add: run_for_trace fresh_concat fresh_memory_tick fresh_node_tick)

end
