(* ===== verification/Timing.thy ===== *)
theory Timing
  imports Polling
begin

text \<open>
  The loops on a clock on which work takes time. In \<open>Py_Control\<close> only the sleeps
  take time (\<open>sinks_within\<close>); here every event of a trace also has a lag: for a
  call, the sink or a log entry the time it takes, for \<^verbatim>\<open>anyio.sleep(d)\<close> the
  time by which it oversleeps \<open>d\<close>. The loops sleep a fixed interval \<^emph>\<open>after\<close> the
  work of an iteration (lines 108 and 154 of \<^verbatim>\<open>profile.py\<close>) and do not schedule
  at a fixed rate, so the lags add up: the theory bounds the number of sink
  invocations within \<open>T\<close> seconds from both sides and shows by an example that
  the shortfall against \<open>T / i\<close> grows beyond one.
\<close>

section \<open>Events that take time\<close>

text \<open>The time an event takes when its lag is \<open>w\<close>.\<close>

fun duration :: "'p event \<Rightarrow> real \<Rightarrow> real" where
  "duration (Slept d) w = d + w"
| "duration (Called c) w = w"
| "duration (Sink p) w = w"
| "duration (Logged l) w = w"

fun invokes :: "'p event \<Rightarrow> nat" where
  "invokes (Sink p) = 1"
| "invokes (Slept d) = 0"
| "invokes (Called c) = 0"
| "invokes (Logged l) = 0"

text \<open>
  The number of sink invocations issued within the first \<open>T\<close> seconds of a trace
  whose \<open>j\<close>-th event has the lag \<open>lag j\<close>.
\<close>

fun sinks_by :: "(nat \<Rightarrow> real) \<Rightarrow> real \<Rightarrow> 'p event list \<Rightarrow> nat" where
  "sinks_by lag T [] = 0"
| "sinks_by lag T (e # es) =
     (if T < 0 then 0
      else invokes e + sinks_by (\<lambda>j. lag (Suc j)) (T - duration e (lag 0)) es)"

text \<open>Events that neither invoke the sink nor sleep only pass time.\<close>

fun silent :: "'p event \<Rightarrow> bool" where
  "silent (Called c) = True"
| "silent (Logged l) = True"
| "silent (Sink p) = False"
| "silent (Slept d) = False"

fun_cases silentE: "silent e"

section \<open>Facts on timed traces\<close>

lemma sinks_by_negative [simp]: "T < 0 \<Longrightarrow> sinks_by lag T es = 0"
  by (cases es) simp_all

lemma duration_mono: "w \<le> w' \<Longrightarrow> duration e w \<le> duration e w'"
  by (cases e) simp_all

text \<open>Without lags the clock is the one of \<open>sinks_within\<close>.\<close>

lemma sinks_by_instant: "0 \<le> T \<Longrightarrow> sinks_by (\<lambda>j. 0) T es = sinks_within T es"
proof (induction es arbitrary: T)
  case Nil
  show ?case by simp
next
  case (Cons e es)
  then show ?case
  proof (cases e)
    case (Slept d)
    with Cons show ?thesis by (cases "d \<le> T") simp_all
  qed simp_all
qed

text \<open>More time never means fewer invocations; more lag never means more.\<close>

lemma sinks_within_mono: "T' \<le> T \<Longrightarrow> sinks_within T' es \<le> sinks_within T es"
  by (induction T' es arbitrary: T rule: sinks_within.induct) simp_all

lemma sinks_by_mono: "T' \<le> T \<Longrightarrow> sinks_by lag T' es \<le> sinks_by lag T es"
  by (induction es arbitrary: lag T T') simp_all

lemma sinks_by_antimono:
  assumes "\<forall>j. lag j \<le> lag' j"
  shows "sinks_by lag' T es \<le> sinks_by lag T es"
  using assms
proof (induction es arbitrary: lag lag' T)
  case Nil
  show ?case by simp
next
  case (Cons e es)
  from Cons.prems have "sinks_by (\<lambda>j. lag' (Suc j)) (T - duration e (lag' 0)) es
      \<le> sinks_by (\<lambda>j. lag (Suc j)) (T - duration e (lag' 0)) es"
    by (intro Cons.IH) simp
  also from Cons.prems have "\<dots> \<le> sinks_by (\<lambda>j. lag (Suc j)) (T - duration e (lag 0)) es"
    by (intro sinks_by_mono) (simp add: duration_mono)
  finally show ?case by simp
qed

lemma sinks_by_le_instant:
  assumes "\<forall>j. 0 \<le> lag j" and "0 \<le> T"
  shows "sinks_by lag T es \<le> sinks_within T es"
  using sinks_by_antimono [of "\<lambda>j. 0" lag T es] assms
  by (simp add: sinks_by_instant)

section \<open>Rounds on the clock\<close>

lemma lags_nonneg: "0 \<le> w \<Longrightarrow> 0 \<le> real n * w"
  by simp

lemma sinks_by_silent:
  assumes "0 \<le> w" and "list_all silent xs"
  shows "sinks_by (\<lambda>j. w) T (xs @ es) = sinks_by (\<lambda>j. w) (T - real (length xs) * w) es"
  using assms(2)
proof (induction xs arbitrary: T)
  case Nil
  show ?case by simp
next
  case (Cons x xs)
  then have x: "silent x" and IH: "\<And>T. sinks_by (\<lambda>j. w) T (xs @ es) =
      sinks_by (\<lambda>j. w) (T - real (length xs) * w) es"
    by simp_all
  show ?case
  proof (cases "T < 0")
    case True
    with lags_nonneg [OF assms(1), of "length (x # xs)"] show ?thesis by simp
  next
    case False
    from x show ?thesis by (rule silentE) (simp_all add: False IH algebra_simps)
  qed
qed

text \<open>
  One round under the constant lag \<open>w\<close>: the sink is invoked once the calls are
  done, and the next round starts at most the interval and the lags of all its
  events later.
\<close>

lemma sinks_by_round:
  assumes "0 \<le> w" and "0 \<le> i" and "real (length cs) * w \<le> T" and "length l \<le> 1"
  shows "Suc (sinks_by (\<lambda>j. w) (T - (i + (real (length cs) + 3) * w)) rest)
           \<le> sinks_by (\<lambda>j. w) T (round cs p l i @ rest)"
proof -
  let ?T = "T - real (length cs) * w - w - real (length l) * w"
  from assms(1,4) have l: "real (length l) * w \<le> w"
    using mult_right_mono [of "real (length l)" 1 w] by simp
  then have "sinks_by (\<lambda>j. w) (T - (i + (real (length cs) + 3) * w)) rest
      \<le> sinks_by (\<lambda>j. w) (?T - (i + w)) rest"
    by (intro sinks_by_mono) (simp add: algebra_simps)
  moreover have "sinks_by (\<lambda>j. w) (T - (i + (real (length cs) + 3) * w)) rest = 0" if "?T < 0"
    using that l assms(1,2) by (intro sinks_by_negative) (simp add: algebra_simps)
  moreover have "sinks_by (\<lambda>j. w) T (round cs p l i @ rest) =
      Suc (sinks_by (\<lambda>j. w) ?T (Slept i # rest))"
    using assms(1,3) by (simp add: round_def sinks_by_silent list_all_iff)
  ultimately show ?thesis by (simp add: algebra_simps)
qed

text \<open>Rounds in a row: the first sink after the calls, then one per period.\<close>

lemma sinks_by_rounds:
  assumes "\<forall>k \<in> set ks. \<exists>p l. f k = round cs p l i \<and> length l \<le> 1"
    and "0 < i" and "0 \<le> w" and "real (length cs) * w \<le> T"
  shows "min (length ks) (Suc (nat \<lfloor>(T - real (length cs) * w) / (i + (real (length cs) + 3) * w)\<rfloor>))
           \<le> sinks_by (\<lambda>j. w) T (concat (map f ks))"
  using assms
proof (induction ks arbitrary: T)
  case Nil
  show ?case by simp
next
  case (Cons k ks)
  let ?a = "real (length cs) * w" and ?P = "i + (real (length cs) + 3) * w"
  from Cons.prems have P: "0 < ?P" by (simp add: add_pos_nonneg)
  from Cons.prems obtain p l where "f k = round cs p l i" and "length l \<le> 1" by auto
  with Cons.prems have tick: "Suc (sinks_by (\<lambda>j. w) (T - ?P) (concat (map f ks)))
      \<le> sinks_by (\<lambda>j. w) T (f k @ concat (map f ks))"
    by (simp add: sinks_by_round)
  show ?case
  proof (cases "?P \<le> T - ?a")
    case True
    with Cons.prems have "min (length ks) (Suc (nat \<lfloor>(T - ?P - ?a) / ?P\<rfloor>))
        \<le> sinks_by (\<lambda>j. w) (T - ?P) (concat (map f ks))"
      by (intro Cons.IH) simp_all
    moreover from True P have "Suc (nat \<lfloor>(T - ?P - ?a) / ?P\<rfloor>) = nat \<lfloor>(T - ?a) / ?P\<rfloor>"
      using floor_div_step [of ?P "T - ?a"] by (simp add: algebra_simps)
    ultimately show ?thesis using tick by simp
  next
    case False
    with Cons.prems P have "\<lfloor>(T - ?a) / ?P\<rfloor> = 0"
      by (intro floor_div_less) simp_all
    with tick show ?thesis by simp
  qed
qed

text \<open>Both bounds for lags that vary from event to event.\<close>

lemma rounds_drift:
  assumes rounds: "\<forall>k \<in> set ks. \<exists>p l. f k = round cs p l i \<and> length l \<le> 1"
    and "0 < i" and lag: "\<forall>j. 0 \<le> lag j \<and> lag j \<le> w" and "real (length cs) * w \<le> T"
  shows "min (length ks) (Suc (nat \<lfloor>(T - real (length cs) * w) / (i + (real (length cs) + 3) * w)\<rfloor>))
           \<le> sinks_by lag T (concat (map f ks)) \<and>
         sinks_by lag T (concat (map f ks)) \<le> min (length ks) (Suc (nat \<lfloor>T / i\<rfloor>))"
proof
  from lag have w: "0 \<le> w" using order_trans by blast
  with assms(4) have T: "0 \<le> T"
    using lags_nonneg [of w "length cs"] by linarith
  from assms w have "min (length ks) (Suc (nat \<lfloor>(T - real (length cs) * w) / (i + (real (length cs) + 3) * w)\<rfloor>))
      \<le> sinks_by (\<lambda>j. w) T (concat (map f ks))"
    by (intro sinks_by_rounds) simp_all
  also from lag have "\<dots> \<le> sinks_by lag T (concat (map f ks))"
    by (intro sinks_by_antimono) simp
  finally show "min (length ks) (Suc (nat \<lfloor>(T - real (length cs) * w) / (i + (real (length cs) + 3) * w)\<rfloor>))
      \<le> sinks_by lag T (concat (map f ks))" .
  from lag T have "sinks_by lag T (concat (map f ks)) \<le> sinks_within T (concat (map f ks))"
    by (intro sinks_by_le_instant) simp_all
  also from rounds assms(2) T have "\<dots> = min (length ks) (Suc (nat \<lfloor>T / i\<rfloor>))"
    by (intro sinks_within_rounds [of _ _ cs]) simp_all
  finally show "sinks_by lag T (concat (map f ks)) \<le> min (length ks) (Suc (nat \<lfloor>T / i\<rfloor>))" .
qed

section \<open>The loops on the clock\<close>

lemma node_loop_drift:
  assumes "\<forall>k < n. benign_node_tick (envs k) \<and> sinks (snd (node_body (envs k))) \<noteq> []"
    and "\<forall>j. 0 \<le> lag j \<and> lag j \<le> w" and "5 * w \<le> T"
  shows "min n (Suc (nat \<lfloor>(T - 5 * w) / (1 + 8 * w)\<rfloor>))
           \<le> sinks_by lag T (trace (run_for n node_tick envs init_loop)) \<and>
         sinks_by lag T (trace (run_for n node_tick envs init_loop)) \<le> min n (Suc (nat \<lfloor>T\<rfloor>))"
proof -
  have "\<forall>k \<in> set [0 ..< n]. \<exists>p l.
      snd (node_tick (envs k)) = round node_call_order p l node_poll_interval_s \<and> length l \<le> 1"
    by (intro ballI node_tick_round) (simp add: assms(1))
  from rounds_drift [OF this _ assms(2), of T] assms(1,3) show ?thesis
    by (simp add: node_run_benign node_poll_interval_s_def node_call_order_def)
qed

text \<open>
  A run on which the shortfall is five: an eighth of a second per event, an
  interval of half a second. Within five seconds the sink is invoked six times,
  where the loop without lags invokes it eleven times. When in addition the
  sink faults in every iteration, so that each one logs, it is invoked five
  times: the lower bound is attained.
\<close>

lemma drift_example:
  "sinks_by (\<lambda>j. 1 / 8) 5
     (trace (run_for 12 (memory_tick (1 / 2)) (\<lambda>k. good_memory_tick) init_loop)) = 6"
  "sinks_within 5
     (trace (run_for 12 (memory_tick (1 / 2)) (\<lambda>k. good_memory_tick) init_loop)) = 11"
  "sinks_by (\<lambda>j. 1 / 8) 5
     (trace (run_for 12 (memory_tick (1 / 2))
        (\<lambda>k. good_memory_tick\<lparr>callback_result := Inl macmon_fault\<rparr>) init_loop)) = 5"
  "Suc (nat \<lfloor>(5 - 1 / 8) / (1 / 2 + 4 * (1 / 8) :: real)\<rfloor>) = 5"
  by (simp_all add: memory_run_benign snd_memory_tick memory_body_simps upt_rec
      benign_memory_tick_def benign_def memory_recoverable_def macmon_fault_def isinstance_def)

section \<open>The node loop measures no time\<close>

text \<open>
  The block of an iteration writes no log entry, and the two entries the
  handlers write differ; so the warning of the \<^verbatim>\<open>except asyncio.TimeoutError\<close>
  clause in the log tells that the block raised such an exception.
\<close>

lemma logs_node_body [simp]: "logs (snd (node_body env)) = []"
  by (simp add: node_body_unfold split: sum.splits option.splits)

lemma timeout_warning_logged_iff:
  "timeout_warning \<in> set (logs (snd (node_tick env))) \<longleftrightarrow>
     (\<exists>e. fst (node_body env) = Raised e \<and> isinstance e TimeoutError)"
  by (cases "fst (node_body env)")
    (auto simp: snd_node_tick timeout_warning_def resource_error_def)

text \<open>Who raised what the block raises.\<close>

lemma node_body_Raised:
  assumes "fst (node_body env) = Raised e"
  shows "get_metrics_async (metrics_source env) = Inl e \<or> get_network_interfaces env = Inl e \<or>
         get_model_and_chip env = Inl e \<or> get_friendly_name env = Inl e \<or>
         get_memory_profile (mem_env env) = Inl e \<or> callback_result env = Inl e"
  using assms by (auto simp: node_body_unfold split: sum.splits option.splits)

text \<open>
  An iteration whose every step takes ten seconds: the sink is invoked after
  fifty seconds and the log stays empty.
\<close>

lemma slow_iteration_example:
  "sinks_by (\<lambda>j. 10) 49 (snd (node_tick good_node_tick)) = 0"
  "sinks_by (\<lambda>j. 10) 50 (snd (node_tick good_node_tick)) = 1"
  "logs (snd (node_tick good_node_tick)) = []"
  by (simp_all add: snd_node_tick node_call_order_def)

section \<open>Properties\<close>

text \<open>
  C19 (safety). The node loop imposes no deadline on an iteration. The warning
  "Operation timed out after 30s" is logged only when one of the collaborators
  called inside the \<^verbatim>\<open>try\<close> block (the metrics source, the plain call
  \<^verbatim>\<open>get_network_interfaces()\<close>, the two awaited lookups of model, chip and
  friendly name) or the sink itself raised an instance of \<^verbatim>\<open>TimeoutError\<close>:
  the loop starts no timer, so however long an iteration takes, it is neither
  cut short nor reported.
\<close>

theorem timeout_only_raised_by_collaborators:
  assumes "timeout_warning \<in> set (logs (snd (node_tick env)))"
  shows "\<exists>e. isinstance e TimeoutError \<and>
           (get_metrics_async (metrics_source env) = Inl e \<or> get_network_interfaces env = Inl e \<or>
            get_model_and_chip env = Inl e \<or> get_friendly_name env = Inl e \<or>
            callback_result env = Inl e)"
proof -
  from assms obtain e where e: "fst (node_body env) = Raised e" "isinstance e TimeoutError"
    by (auto simp: timeout_warning_logged_iff)
  from e(2) have "get_memory_profile (mem_env env) \<noteq> Inl e"
    by (auto dest!: get_memory_profile_error simp: isinstance_def exn_simps)
  with node_body_Raised [OF e(1)] e(2) show ?thesis by blast
qed

theorem timeout_only_raised_by_collaborators_witness:
  "\<exists>e. isinstance e TimeoutError \<and>
     (get_metrics_async (metrics_source (good_node_tick\<lparr>get_friendly_name := Inl (Exn TimeoutError [] None)\<rparr>)) = Inl e \<or>
      get_network_interfaces (good_node_tick\<lparr>get_friendly_name := Inl (Exn TimeoutError [] None)\<rparr>) = Inl e \<or>
      get_model_and_chip (good_node_tick\<lparr>get_friendly_name := Inl (Exn TimeoutError [] None)\<rparr>) = Inl e \<or>
      get_friendly_name (good_node_tick\<lparr>get_friendly_name := Inl (Exn TimeoutError [] None)\<rparr>) = Inl e \<or>
      callback_result (good_node_tick\<lparr>get_friendly_name := Inl (Exn TimeoutError [] None)\<rparr>) = Inl e)"
  using timeout_only_raised_by_collaborators
    [of "good_node_tick\<lparr>get_friendly_name := Inl (Exn TimeoutError [] None)\<rparr>"]
  by (simp add: timeout_warning_logged_iff node_body_unfold isinstance_def)

text \<open>
  C13 (bounds). The cadence of the memory loop when work takes time. Let every
  event of the run take at most \<open>w\<close> seconds (a sleep that much beyond its
  interval \<open>i\<close>) and let every iteration be benign. Then within \<open>T\<close> seconds the
  sink is invoked at least \<open>\<lfloor>(T - w) / (i + 4 w)\<rfloor> + 1\<close> times and at most
  \<open>\<lfloor>T / i\<rfloor> + 1\<close> times, as far as the run reaches. The period of the loop is
  the interval plus the time of the work, not the interval; for \<open>w = 0\<close> the
  two bounds meet.
\<close>

theorem memory_loop_drift:
  assumes "\<forall>k < n. benign_memory_tick (envs k)" and "0 < i"
    and "\<forall>j. 0 \<le> lag j \<and> lag j \<le> w" and "w \<le> T"
  shows "min n (Suc (nat \<lfloor>(T - w) / (i + 4 * w)\<rfloor>))
           \<le> sinks_by lag T (trace (run_for n (memory_tick i) envs init_loop)) \<and>
         sinks_by lag T (trace (run_for n (memory_tick i) envs init_loop))
           \<le> min n (Suc (nat \<lfloor>T / i\<rfloor>))"
proof -
  have "\<forall>k \<in> set [0 ..< n]. \<exists>p l.
      snd (memory_tick i (envs k)) = round [GetMemoryProfile] p l i \<and> length l \<le> 1"
    by (intro ballI memory_tick_round) (simp add: assms(1))
  from rounds_drift [OF this assms(2,3), of T] assms(1,4) show ?thesis
    by (simp add: memory_run_benign)
qed

theorem memory_loop_drift_witness:
  "5 \<le> sinks_by (\<lambda>j. 1 / 8) 5
          (trace (run_for 12 (memory_tick (1 / 2)) (\<lambda>k. good_memory_tick) init_loop)) \<and>
   sinks_by (\<lambda>j. 1 / 8) 5
          (trace (run_for 12 (memory_tick (1 / 2)) (\<lambda>k. good_memory_tick) init_loop)) \<le> 11"
  using memory_loop_drift [of 12 "\<lambda>k. good_memory_tick" "1 / 2" "\<lambda>j. 1 / 8" "1 / 8" 5]
  by simp

end
