(* ===== verification/Spec2Isabelle.thy ===== *)
theory Spec2Isabelle
  imports Exo_Prelude Availability Interleaving Loader_Threads Loader_Heap Heap_Threads
    Py_Control Generic_Metrics Memory_Profile Polling Loop_Spec Wellformed Joint_Loops Suspension
    Timing
begin

text \<open>
  \<^bold>\<open>What is verified.\<close> The platform-adaptive telemetry core of the exo worker:
  \<^verbatim>\<open>src/exo/worker/engines/mlx/availability.py\<close>, the lazily cached loader of the
  MLX inference backend, and \<^verbatim>\<open>src/exo/worker/utils/profile.py\<close>, the metrics
  source adapter, the memory profile with its operator override, and the two
  polling loops that push profiles into a caller-supplied sink. The two files
  share no state. Everything they call (\<^verbatim>\<open>platform\<close>, \<^verbatim>\<open>importlib\<close>,
  \<^verbatim>\<open>psutil\<close>, \<^verbatim>\<open>macmon\<close>, \<^verbatim>\<open>system_info\<close>, \<^verbatim>\<open>os.getenv\<close>,
  \<^verbatim>\<open>anyio.sleep\<close>, the sink, the logger) lies outside them and enters the
  model in one of two ways: what a collaborator answers is a field of an
  \<^emph>\<open>environment\<close> record (a value or an exception), and what is asked of it is an
  \<^emph>\<open>event\<close> of a trace or an entry of a log. A theorem quantifies over all
  environments, so it holds whatever the collaborators do.

  \<^bold>\<open>Theories and the code they model.\<close>

  \<^item> \<open>Exo_Prelude\<close>: the exception classes the sources raise or catch, with
    \<open>base_class\<close> and the subclass test \<open>issubclass\<close> an \<^verbatim>\<open>except\<close> clause
    performs (a \<^theory_text>\<open>function\<close> that climbs the class hierarchy, terminating by
    \<open>class_depth\<close>); exceptions \<open>exn\<close> with message and cause
    (\<^verbatim>\<open>raise ... from exc\<close>); fallible calls as \<open>exn + 'a\<close> with \<open>bind_result\<close>;
    log entries (level, message, and the exception attached with
    \<^verbatim>\<open>opt(exception=e)\<close>); \<open>lower\<close>, the ASCII part of \<^verbatim>\<open>str.lower\<close>; the record
    \<open>host\<close> that both source files read through \<^verbatim>\<open>platform.system()\<close>.
    Lemmas: \<open>issubclass\<close> is a partial order with \<open>BaseException\<close> on top, and
    the classes are an instance of \<open>order_top\<close> under it, so that \<open>isinstance\<close>
    is monotone in the class; the
    subclass tests the \<^verbatim>\<open>except\<close> clauses need (collection \<open>exn_simps\<close>);
    \<open>lower\<close> is idempotent and length preserving; bounds on means of lists;
    the number of whole periods in a span of time.

  \<^item> \<open>Availability\<close> (\<^verbatim>\<open>availability.py\<close>): \<open>build_backend\<close> is
    \<^verbatim>\<open>_build_backend\<close> (platform guard, the two imports in \<open>import_helpers\<close>,
    \<^verbatim>\<open>except ImportError\<close>, the four attribute reads in \<open>make_namespace\<close>,
    listed in their order by \<open>entry_points\<close>);
    \<open>load_mlx_backend\<close> is the function of that name over the process state
    \<open>loader_state\<close> (the attribute \<^verbatim>\<open>_cached\<close>, the log, and the identity the
    next allocated object gets); \<open>run_loads\<close> is a sequence of calls, each under
    its own host. The contract is \<open>spec_load\<close> for one call and \<open>memoised\<close>
    for a run. Lemmas: the behaviour of one call on each of its four branches
    (\<open>load_simps\<close>), the invariant \<open>loader_inv\<close>, the refinement of
    \<open>spec_load\<close>, and the properties of runs: the results are those of
    \<open>memoised\<close>, the first success is final and identity-stable, failure is
    never cached, one warning per unavailable call, at most one allocation; a
    missing entry point escapes as the \<^verbatim>\<open>AttributeError\<close> of the first one
    that is missing.

  \<^item> \<open>Interleaving\<close>: threads of one process over one shared state, for any
    step function. \<open>system\<close> is a configuration (the threads and the shared
    state), \<open>sched_step\<close> and \<open>exec\<close> run a schedule (which thread runs next
    and which host it sees), \<open>reachable\<close> is the closure of the steps,
    \<open>run_alone\<close> a thread that is not interrupted, \<open>sweep\<close> the schedule that
    runs every thread once. Lemmas, all for an arbitrary step function:
    reachability is execution of a schedule; an invariant of the shared state
    with a condition on each thread holds of every schedule when one step keeps
    it and does not disturb the other threads (\<open>exec_invariant\<close>); a measure
    that every step lowers bounds the turns a thread needs (\<open>measure_exec\<close>);
    a count on the shared state that grows only against the credit of a thread
    is bounded by the credits (\<open>potential_exec\<close>); a step function that
    simulates another one step by step does so schedule by schedule
    (\<open>exec_simulation\<close>). The two theories on concurrent calls instantiate
    these rules.

  \<^item> \<open>Loader_Threads\<close> (\<^verbatim>\<open>availability.py\<close>, lines 43 to 53): the same function
    called from several threads. A call is cut at its accesses to the shared
    attribute into the program points \<open>pc\<close> (over the type of handles);
    \<open>thread_step\<close> is one step of one call over \<open>loader_state\<close>, run by the
    scheduler of \<open>Interleaving\<close>. Lemmas:
    calls that do not overlap are \<open>run_loads\<close> (\<open>exec_serial\<close>, which ties
    the threads to the sequential model and says nothing of the code by itself);
    under the schedule \<open>race\<close> two overlapping first calls build two objects
    and return different handles (the function takes no lock), while under
    \<open>late_reads\<close> both return the object assigned last; once the cache is set
    and no call is in flight, every later call returns the cached handle;
    failure is never cached under any interleaving; the invariant
    \<open>system_inv\<close>, which includes that the read of line 53 finds the attribute.

  \<^item> \<open>Loader_Heap\<close> (\<^verbatim>\<open>availability.py\<close>, lines 35 to 53): the same two
    functions over a store. \<open>heap\<close> holds the objects allocated so far (an
    address is an index, an object its attribute dictionary as an association
    list) and the address \<^verbatim>\<open>_cached\<close> refers to; \<open>build_ref\<close> and \<open>load_ref\<close>
    return addresses, \<open>run_refs\<close> is a sequence of calls. \<open>getattr_at\<close> and
    \<open>setattr_at\<close> are what a caller can do with a handle. \<open>abs_heap\<close> and
    \<open>deref\<close> map stores and results to the states and results of
    \<open>Availability\<close>. Lemmas: the laws of allocation, reading and writing; the
    loader allocates at most one object and writes to none (\<open>load_ref_frame\<close>);
    the invariant \<open>heap_inv\<close> under calls and under assignments; a caller's
    assignment is seen through every handle. That calls over the store
    abstract to calls over values (\<open>load_ref_refines\<close>,
    \<open>run_refs_refines_run_loads\<close>) relates the two models to each other and is
    used to carry lemmas over; it is not a statement about the code.

  \<^item> \<open>Heap_Threads\<close> (\<^verbatim>\<open>availability.py\<close>, lines 46 to 53): concurrent calls
    over the store. \<open>ref_step\<close> is one step of one call over \<open>heap\<close>, with
    program points that hold addresses, run by the same scheduler. \<open>refers\<close>
    and \<open>abstracts\<close> relate addresses to handles and stores to loader states.
    Lemmas: \<open>n\<close> concurrent calls allocate at most \<open>n\<close> namespaces and in
    lockstep exactly \<open>n\<close>; after two first calls have run under the schedule
    \<open>race\<close> the callers hold different objects, and what the first assigns to
    its handle no later caller reads. As a tool, a step over the store is the
    step over values (\<open>ref_step_simulates\<close>) and never writes to an object,
    so that the invariant of \<open>Loader_Threads\<close> holds over the store as well
    (the read of \<^verbatim>\<open>_cached\<close> finds the attribute, no returned address
    dangles).

  \<^item> \<open>Py_Control\<close>: the control flow of the loops. An action returns an
    \<open>outcome\<close> (\<open>Value\<close>, \<open>Returned\<close> for \<^verbatim>\<open>return\<close>, \<open>Raised\<close>) and the list
    of \<open>event\<close>s it caused; \<open>bind_act\<close> sequences, \<open>try_except\<close> runs the first
    handler whose class matches, \<open>try_finally\<close> runs the final action after
    every outcome and lets its exception replace the pending one.
    \<open>while_true\<close> is \<^verbatim>\<open>while True\<close> as a \<^theory_text>\<open>partial_function (option)\<close>:
    \<open>None\<close> means the loop never returns. \<open>run_for n\<close> is the state after at
    most \<open>n\<close> iterations. The observations of a trace are \<open>sinks\<close>,
    \<open>sleeps\<close>, \<open>logs\<close>, \<open>calls\<close>, \<open>sinks_within\<close> and \<open>paced\<close>
    (a sleep lies between any two sink invocations). Lemmas: the monad laws, the
    outcome and trace of each combinator, which handler of a list takes an
    exception (\<open>find_handler\<close>: the first that matches, so a handler behind one
    of a superclass is dead), the trace of a run as the concatenation of the traces
    of its iterations (\<open>run_for_trace\<close>), and the exact relation of \<open>while_true\<close>
    to its finite runs.

  \<^item> \<open>Metrics_Model\<close>: the records \<open>Metrics\<close>, \<open>TempMetrics\<close>,
    \<open>SystemPerformanceProfile\<close>, \<open>MemoryPerformanceProfile\<close>,
    \<open>NodePerformanceProfile\<close> with the fields \<^verbatim>\<open>profile.py\<close> writes and reads, and
    \<open>from_mb\<close>, \<open>from_psutil\<close>, whose code is outside the two source files
    and which are modelled after their documented behaviour.

  \<^item> \<open>Generic_Metrics\<close> (\<^verbatim>\<open>profile.py\<close>, lines 32 to 75): \<open>get_metrics_async\<close>
    and \<open>collect_generic_metrics\<close> with its parts \<open>flat_temps\<close>,
    \<open>average_temp\<close>, \<open>read_avg_temp\<close> (the \<^verbatim>\<open>try\<close> with its
    \<^verbatim>\<open>except (NotImplementedError, psutil.Error)\<close>) and \<open>generic_metrics\<close>.
    Lemmas: the fallback sample is the one of the contract \<open>spec_generic_metrics\<close>;
    the temperature is a mean and lies between the extreme readings; which
    failures degrade to zero and which propagate.

  \<^item> \<open>Memory_Profile\<close> (\<^verbatim>\<open>profile.py\<close>, lines 78 to 87): \<open>get_memory_profile\<close>,
    \<open>override_memory\<close> and \<open>py_int\<close>, the builtin \<^verbatim>\<open>int\<close> on ASCII text
    (whitespace including the separators \<^verbatim>\<open>0x1C\<close> to \<^verbatim>\<open>0x1F\<close>, sign, digits
    with single underscores, the limit of 4300 digits).
    \<open>py_int\<close> follows the documented behaviour of the interpreter (CPython
    3.12); it is no code of the repository. Lemmas: \<open>py_int\<close> accepts the
    decimal numerals, with whitespace around them; the override replaces the
    detected memory; a malformed override raises \<^verbatim>\<open>ValueError\<close>.

  \<^item> \<open>Polling\<close> (\<^verbatim>\<open>profile.py\<close>, lines 90 to 154): \<open>memory_body\<close>,
    \<open>memory_tick\<close>, \<open>start_polling_memory_metrics\<close> and \<open>node_body\<close>,
    \<open>node_tick\<close>, \<open>start_polling_node_metrics\<close>: the \<^verbatim>\<open>try\<close> block, one
    iteration with its handlers and its \<^verbatim>\<open>finally\<close>, and the loop. Lemmas:
    outcome and trace of one iteration on every branch; both loops run forever
    exactly when every iteration is benign; the node loop stops silently on an
    absent sample; how each kind of exception ends or does not end a loop,
    cancellation included; the shape of an iteration that invokes the sink
    (\<open>round\<close>); the number of sink invocations within a span of time when only
    the sleeps take time.

  \<^item> \<open>Loop_Spec\<close>: the state machine the two loops are specified by, with the
    phases \<open>SpecRunning\<close> and \<open>SpecStopped\<close> and the four kinds of iteration
    \<open>tick_kind\<close> (success, recoverable fault, absent sample, cancellation), as
    the inductive relations \<open>spec_step\<close> and \<open>spec_path\<close>. \<open>classify\<close>,
    \<open>memory_tick_kind\<close> and \<open>node_tick_kind\<close> read the kind of an iteration off
    its outcome and \<open>kinds\<close> the kinds of a run. Lemmas: the machine is
    deterministic and has no step out of \<open>SpecStopped\<close>; every finite run of
    either loop is a path of the machine that ends in the phase of the run
    (a forward simulation, step by step in \<open>node_tick_step\<close> and
    \<open>memory_tick_step\<close>, lifted to runs in \<open>run_refines\<close>); the memory loop
    never takes the step for an absent sample; both loops are \<open>paced\<close>.

  \<^item> \<open>Wellformed\<close>: what the record types promise of their values
    (a usage is a percentage between 0 and 100, power and memory are not
    negative, temperatures are free) as the predicates \<open>wf_metrics\<close>, \<open>wf_system\<close>, \<open>wf_memory\<close>,
    \<open>wf_node_profile\<close>, and what that needs of the collaborators
    (\<open>wf_psutil\<close>, \<open>wf_metrics_env\<close>, \<open>wf_memory_env\<close>, \<open>wf_node_env\<close>).
    Lemmas: one preservation lemma per operation of \<^verbatim>\<open>profile.py\<close>, from the
    fallback sample up to a run of either loop; a negative override is the one
    input of the operator that makes a delivered record ill-formed.

  \<^item> \<open>Joint_Loops\<close>: both loops in one process. \<open>joint_step\<close> runs one
    iteration of the loop whose turn it is, \<open>joint_run\<close> a schedule of turns;
    the host memory and the override are a \<open>world\<close> indexed by the clock, which
    both loops read. Lemmas: a joint run is the two solo runs, each under the
    world at its own turns (\<open>joint_run_decomposes\<close>); an override that stays
    set governs every record either loop delivers.

  \<^item> \<open>Suspension\<close> (\<^verbatim>\<open>profile.py\<close>, the \<^verbatim>\<open>await\<close>s of lines 102 to 154):
    \<open>awaited\<close> says which calls of an iteration suspend the task; \<open>blocks\<close> cuts
    a trace after every suspension and \<open>merge\<close> interleaves the blocks of the two
    tasks under a schedule. Lemmas: in every such interleaving each sink
    invocation follows directly on the reading of the memory by the same task
    (\<open>fresh\<close>); a schedule that runs one task after the other yields the two
    traces one after the other.

  \<^item> \<open>Timing\<close> (\<^verbatim>\<open>profile.py\<close>, the sleeps of lines 108 and 154 and the
    \<^verbatim>\<open>except asyncio.TimeoutError\<close> clause of line 147): the loops on a clock
    on which every event takes time. \<open>duration\<close> is the time of an event with a
    given lag, \<open>sinks_by lag T\<close> the number of sink invocations issued within
    \<open>T\<close> seconds. Lemmas: without lags \<open>sinks_by\<close> is \<open>sinks_within\<close>; it
    grows with the time and shrinks with the lags; the bounds for rounds in a
    row (\<open>rounds_drift\<close>) and from them those for both loops; the timeout
    warning is logged only when a collaborator raised \<^verbatim>\<open>TimeoutError\<close>.

  \<^item> This theory: the end-to-end property that spans the adapter, the memory
    profile and the node loop.

  \<^bold>\<open>Modelling choices.\<close>

  \<^item> \<^emph>\<open>Environments.\<close> A loop receives a sequence \<open>envs :: nat \<Rightarrow> env\<close>; iteration
    \<open>k\<close> runs in \<open>envs k\<close>. The loader receives one host per call. Nothing is
    assumed about how environments change between iterations or calls.

  \<^item> \<^emph>\<open>Non-termination.\<close> No fuel is used. \<open>while_true\<close> yields \<open>None\<close> exactly
    when no iteration stops (\<open>while_true_None_iff\<close>) and otherwise the state of the
    finite run up to the first stopping iteration (\<open>while_true_first_stop\<close>), so
    "the loop never stops" and "the loop returns" are both statements about the
    value of the function.

  \<^item> \<^emph>\<open>Exceptions\<close> are values: every \<^verbatim>\<open>raise\<close> and every exception of a
    collaborator is an \<open>Inl\<close> or a \<open>Raised\<close>. The classes are the closed list
    \<open>exn_class\<close>; a class outside it is represented by its nearest base in the
    list. \<^verbatim>\<open>asyncio.TimeoutError\<close> is the builtin \<^verbatim>\<open>TimeoutError\<close>, as in
    Python 3.11 and later. The construction of a record (\<open>node_profile\<close>,
    \<open>from_mb\<close>, \<open>from_psutil\<close>) does not raise. Cancellation of a task is the
    exception \<^verbatim>\<open>CancelledError\<close> raised by whatever the task awaits at that
    moment: a collaborator, the sink or the sleep. It derives from
    \<^verbatim>\<open>BaseException\<close> and no handler of the loops takes it. Whether the sleep
    of the \<^verbatim>\<open>finally\<close> clause is cancelled as well is the canceller's choice
    and therefore the environment's: both answers of \<open>sleep_result\<close> are runs of
    the model.

  \<^item> \<^emph>\<open>Object identity.\<close> In \<open>Availability\<close> and \<open>Loader_Threads\<close> the handle
    carries \<open>obj_id\<close>, taken from the allocation counter \<open>next_id\<close>, so that
    "the same handle" is identity and not equality of fields. In \<open>Loader_Heap\<close>
    the identity is the address of the object in the store and the counter is
    the size of the store; \<open>abs_heap\<close> relates the two, and the refinement
    carries the theorems on \<open>run_loads\<close> over to the store. The store is needed
    where a statement depends on two handles being one object.

  \<^item> \<^emph>\<open>Numbers.\<close> Python floats are \<^typ>\<open>real\<close> (IEEE rounding is not modelled:
    the mean of the temperatures is the exact mean); Python integers are
    \<^typ>\<open>int\<close>. No fixed-width arithmetic occurs in the sources.

  \<^item> \<^emph>\<open>Text.\<close> Strings are ASCII: \<open>lower\<close> and \<open>py_int\<close> treat every character
    above 127 as neither letter, digit nor space.

  \<^item> \<^emph>\<open>Threads.\<close> A step of a thread is one access to the shared attribute or
    one call of \<^verbatim>\<open>_build_backend\<close>, which reads the host once and allocates at
    most one object. That call is one step that always ends: the two imports
    inside it do not interleave with other threads and never block, so the
    import lock of the interpreter, which serialises the imports of one module
    but not the construction of the namespace, is not part of the model. The
    statements on races are about the accesses to \<^verbatim>\<open>_cached\<close>, which no
    lock protects. Schedules are arbitrary finite lists; no fairness is assumed:
    the theorems speak of the configurations a schedule reaches, and in the
    model a call needs \<open>call_steps = 4\<close> steps of its own at most. A theorem
    that names a schedule (\<open>race\<close>, \<open>lockstep\<close>) is about that schedule
    only. The threads exist twice, over values (\<open>thread_step\<close>) and over the
    store (\<open>ref_step\<close>), and are related by a simulation, so that a property
    is proved where it is simplest and holds of both. The assignments of
    callers to their handles happen after the calls have returned; they are
    not interleaved with the steps of calls that still run.

  \<^item> \<^emph>\<open>Time.\<close> A sleep is an event with its duration; \<open>sinks_within T\<close> counts the
    sink invocations of a trace that precede \<open>T\<close> seconds of sleep: the count of
    a process whose sampling and sink are instantaneous. In \<open>Timing\<close> the
    \<open>j\<close>-th event of a trace has a lag \<open>lag j\<close>, an arbitrary function of the
    position: the time a call, the sink or a log entry takes, and for a sleep the
    time between the end of its interval and the moment the task runs again
    (which includes waiting for the other task to reach an \<^verbatim>\<open>await\<close>). The
    bounds are stated for lags between \<open>0\<close> and a bound \<open>w\<close>; nothing else is
    assumed of them. No fuel or bound on the length of a run is involved: \<open>n\<close>
    iterations are \<open>run_for n\<close>, and the counts are capped by \<open>n\<close>.

  \<^item> \<^emph>\<open>The two loops together.\<close> They share no variable; what they share is the
    host they observe. At the granularity of iterations (\<open>Joint_Loops\<close>) a
    schedule is a list of turns, the clock counts turns, and the iteration at
    time \<open>t\<close> reads the memory environment \<open>world E t\<close>; the other collaborators
    of a loop are indexed by that loop's own iteration count. At the granularity
    of awaits (\<open>Suspension\<close>) a task runs from one suspension to the next without
    interruption, which is what a cooperative scheduler guarantees, and a schedule
    chooses whose block runs next; a turn of a task with no block left is
    skipped. Schedules are arbitrary finite lists in both models.

  \<^item> \<^emph>\<open>The specification\<close> of the loops (\<open>Loop_Spec\<close>) and the constraints on the
    records (\<open>Wellformed\<close>) are written from the documented behaviour, not from
    the two source files; the lemmas relate the definitions made from the code
    to them.

  \<^bold>\<open>Not modelled.\<close> Where the lags come from (they are parameters); the import
  lock and the time a blocking import takes; subclasses of the exception classes
  that the collaborators define; the event loop of
  asyncio and anyio beyond the fact that tasks switch only at an \<^verbatim>\<open>await\<close>
  (no cancellation scopes, no task groups, no fairness); the worker thread of
  \<^verbatim>\<open>anyio.to_thread.run_sync\<close> (a plain call here); the validation the record
  classes perform when they are constructed (the conditions are the
  predicates of \<open>Wellformed\<close>, and a record that violates them is a value of the
  model); the format of log records beyond level, message and attached
  exception; the implicit chaining of exceptions (\<^verbatim>\<open>__context__\<close>; only the
  explicit cause of \<^verbatim>\<open>raise ... from\<close> is kept); the exact text of the
  messages of exceptions that the interpreter raises (\<^verbatim>\<open>ValueError\<close> of
  \<^verbatim>\<open>int\<close>, \<^verbatim>\<open>AttributeError\<close>), which no code under \<^verbatim>\<open>src/\<close> reads; the import
  statements and the type variable at the head of the two files; what callers
  do with a handle beyond reading and assigning an attribute (no deletion of
  attributes, no calls of the entry points); and the
  collaborators themselves (\<^verbatim>\<open>macmon\<close>, \<^verbatim>\<open>psutil\<close>, \<^verbatim>\<open>system_info\<close>, the
  MLX modules), whose answers are the fields of the environments.
\<close>

section \<open>Properties that span the components\<close>

text \<open>
  C24 (functional). End to end on a host that is not macOS, with no override and
  without temperature sensors: one iteration of the node loop delivers one
  record whose system profile has zero power, zero temperature, zero GPU and
  efficiency-CPU usage and the current CPU utilisation, and whose memory is the
  memory the host detected.
\<close>

theorem fallback_iteration_end_to_end:
  assumes "lower (platform_system (metrics_source env)) \<noteq> ''darwin''"
    and "cpu_percent (psutil (metrics_source env)) = Inr pct"
    and "cpu_count (psutil (metrics_source env)) = Inr cpus"
    and "sensors_temperatures (psutil (metrics_source env)) = Inl e"
    and "isinstance e NotImplementedError"
    and "getenv_override (mem_env env) = None"
    and "get_network_interfaces env = Inr ni"
    and "get_model_and_chip env = Inr mc"
    and "get_friendly_name env = Inr name"
    and "callback_result env = Inr ()"
    and "sleep_result env = Inr ()"
  shows "fst (node_tick env) = Value () \<and>
         sinks (snd (node_tick env)) =
           [\<lparr>model_id = fst mc, chip_id = snd mc, friendly_name = name, network_interfaces = ni,
             memory = \<lparr>memory_bytes = detected_bytes (virtual_memory (mem_env env))\<rparr>,
             system = \<lparr>sp_gpu_usage = 0, sp_temp = 0, sp_sys_power = 0, sp_pcpu_usage = pct,
                        sp_ecpu_usage = 0, sp_ane_power = 0\<rparr>\<rparr>]"
proof -
  have "collect_generic_metrics (psutil (metrics_source env)) =
      Inr (generic_metrics (or_zero cpus) pct 0)"
    using assms(2-5) by (simp add: collect_generic_metrics_ok read_avg_temp_Inl)
  with assms(1) have "get_metrics_async (metrics_source env) =
      Inr (Some (generic_metrics (or_zero cpus) pct 0))"
    by (simp add: get_metrics_async_generic)
  moreover have "system_profile (generic_metrics (or_zero cpus) pct 0) =
      \<lparr>sp_gpu_usage = 0, sp_temp = 0, sp_sys_power = 0, sp_pcpu_usage = pct,
       sp_ecpu_usage = 0, sp_ane_power = 0\<rparr>"
    by (simp add: system_profile_def generic_metrics_def)
  ultimately show ?thesis
    using assms(6-11)
    by (simp add: fst_node_tick snd_node_tick node_body_unfold node_profile_def)
qed

theorem fallback_iteration_end_to_end_witness:
  "fst (node_tick (good_node_tick\<lparr>metrics_source := example_metrics_env\<lparr>psutil :=
       example_psutil\<lparr>sensors_temperatures := Inl (Exn NotImplementedError [] None)\<rparr>\<rparr>\<rparr>)) =
     Value () \<and>
   sinks (snd (node_tick (good_node_tick\<lparr>metrics_source := example_metrics_env\<lparr>psutil :=
       example_psutil\<lparr>sensors_temperatures := Inl (Exn NotImplementedError [] None)\<rparr>\<rparr>\<rparr>))) =
     [\<lparr>model_id = ''Mac15,6'', chip_id = ''Apple M3'', friendly_name = ''studio'',
       network_interfaces = [''en0''], memory = \<lparr>memory_bytes = 8589934592\<rparr>,
       system = \<lparr>sp_gpu_usage = 0, sp_temp = 0, sp_sys_power = 0, sp_pcpu_usage = 25 / 2,
                  sp_ecpu_usage = 0, sp_ane_power = 0\<rparr>\<rparr>]"
  using fallback_iteration_end_to_end
    [of "good_node_tick\<lparr>metrics_source := example_metrics_env\<lparr>psutil :=
           example_psutil\<lparr>sensors_temperatures := Inl (Exn NotImplementedError [] None)\<rparr>\<rparr>\<rparr>"
        "25 / 2" "Some 4" "Exn NotImplementedError [] None" "[''en0'']"
        "(''Mac15,6'', ''Apple M3'')" "''studio''"]
  by (simp add: example_metrics_env_def example_psutil_def example_memory_env_def lower_eval)

end
